theory Spec2Isabelle
  imports Main "HOL-Library.Word" "HOL-Library.Monad_Syntax"
begin
section \<open>Data model of tedit.c\<close>

text \<open>
  A byte is an \<open>unsigned char\<close>. A pointer to bytes is modelled by what it reads at each
  offset (\<open>bytes\<close>); sizes are kept separately, as in the C code. Positions and sizes are
  C \<open>int\<close>s, 32 bits wide, held in the model as integers; where the C code can leave the
  range of \<open>int\<close> (the sizes computed in \<open>move_gap\<close>, the result of \<open>atoi\<close>) the
  conversion or the overflow is written out with the functions below. The target is LP64:
  \<open>ptrdiff_t\<close>, \<open>long\<close> and \<open>size_t\<close> have 64 bits.
\<close>

type_synonym byte = "8 word"
type_synonym bytes = "int \<Rightarrow> byte"
type_synonym addr = nat

definition INT_MAX :: int where
  "INT_MAX = 2147483647"

definition INT_MIN :: int where
  "INT_MIN = - 2147483648"

definition PTRDIFF_MAX :: int where
  "PTRDIFF_MAX = 9223372036854775807"

text \<open>
  \<open>to_int\<close> is the conversion of a wider integer to \<open>int\<close> (it keeps the low 32 bits),
  \<open>to_size_t\<close> the conversion of an \<open>int\<close> to \<open>size_t\<close>, and \<open>int_add\<close> the addition of two
  \<open>int\<close>s, which has no defined result when the sum is not an \<open>int\<close>.
\<close>

definition to_int :: "int \<Rightarrow> int" where
  "to_int x = (x + 2147483648) mod 4294967296 - 2147483648"

definition to_size_t :: "int \<Rightarrow> int" where
  "to_size_t x = x mod 18446744073709551616"

definition int_add :: "int \<Rightarrow> int \<Rightarrow> int option" where
  "int_add a b = (if INT_MIN \<le> a + b \<and> a + b \<le> INT_MAX then Some (a + b) else None)"

text \<open>
  Heap objects that are linked by pointers (undo records, editors) live in a store: a list
  of cells indexed by address. \<open>malloc\<close> takes a new cell at the end, \<open>free\<close> empties the
  cell, and a pointer to a freed or never allocated cell cannot be dereferenced: every
  function that would do so has no result (\<open>None\<close>). \<open>NULL\<close> is \<open>None :: addr option\<close>.
\<close>

type_synonym 'a heap = "'a option list"

definition deref :: "'a heap \<Rightarrow> addr \<Rightarrow> 'a option" where
  "deref h a = (if a < length h then h ! a else None)"

definition heap_store :: "'a heap \<Rightarrow> addr \<Rightarrow> 'a \<Rightarrow> 'a heap" where
  "heap_store h a v = h[a := Some v]"

definition malloc :: "'a heap \<Rightarrow> 'a \<Rightarrow> addr \<times> 'a heap" where
  "malloc h v = (length h, h @ [Some v])"

definition free :: "'a heap \<Rightarrow> addr \<Rightarrow> 'a heap" where
  "free h a = h[a := None]"

text \<open>\<open>struct undo\<close>. \<open>undobuf\<close> holds \<open>u_erased\<close> bytes, \<open>redobuf\<close> holds \<open>u_inserted\<close> bytes.\<close>

record undo_rec =
  u_pos :: int
  u_erased :: int
  u_inserted :: int
  undobuf :: bytes
  redobuf :: bytes
  u_next :: "addr option"
  u_prev :: "addr option"

text \<open>
  \<open>struct editor\<close>. The text block is \<open>start\<close>; \<open>gap\<close>, \<open>rest\<close> and \<open>endp\<close> are the pointers
  \<open>ed->gap\<close>, \<open>ed->rest\<close> and \<open>ed->end\<close> as offsets from \<open>ed->start\<close>. The field \<open>undoptr\<close>
  is \<open>ed->undo\<close>, the undo/redo boundary. Three fields stand for the C heap: \<open>undos\<close> is
  the store of this editor's undo records, \<open>fresh\<close> is what newly allocated byte storage
  reads as (its contents are indeterminate in C, so every theorem below holds for all of
  them), and \<open>avail\<close> is the size in bytes of the largest block that \<open>malloc\<close> and \<open>realloc\<close>
  will hand out: a larger request returns \<open>NULL\<close>. The \<open>env\<close> pointer is not a field:
  functions that read \<open>ed->env\<close> take the environment as an argument.
\<close>

record editor =
  start :: bytes
  gap :: int
  rest :: int
  endp :: int
  toppos :: int
  topline :: int
  margin :: int
  linepos :: int
  line :: int
  col :: int
  lastcol :: int
  anchor :: int
  undohead :: "addr option"
  undotail :: "addr option"
  undoptr :: "addr option"
  refresh :: int
  lineupdate :: int
  dirty :: int
  newfile :: int
  ed_next :: "addr option"
  ed_prev :: "addr option"
  filename :: "byte list"
  undos :: "undo_rec heap"
  fresh :: bytes
  avail :: int

text \<open>\<open>struct env\<close>, without \<open>current\<close> (see the workspace below).\<close>

record env =
  clipboard :: bytes
  clipsize :: int
  search :: "byte list option"
  linebuf :: bytes
  cols :: int
  lines :: int
  untitled :: int

definition MINEXTEND :: int where
  "MINEXTEND = 32768"

definition LINEBUF_EXTRA :: int where
  "LINEBUF_EXTRA = 32"

definition TABSIZE :: int where
  "TABSIZE = 8"

section \<open>Editor buffer functions\<close>

text \<open>\<open>memcpy(dst + d, src + s, n)\<close> and \<open>memmove\<close>: the block \<open>dst\<close> after the copy.\<close>

definition memcpy :: "bytes \<Rightarrow> int \<Rightarrow> bytes \<Rightarrow> int \<Rightarrow> int \<Rightarrow> bytes" where
  "memcpy dst d src s n = (\<lambda>i. if d \<le> i \<and> i < d + n then src (s + (i - d)) else dst i)"

definition memmove :: "bytes \<Rightarrow> int \<Rightarrow> int \<Rightarrow> int \<Rightarrow> bytes" where
  "memmove blk d s n = memcpy blk d blk s n"

definition NULL_buf :: bytes where
  "NULL_buf = (\<lambda>i. 0)"

text \<open>
  \<open>malloc\<close> and \<open>realloc\<close> for a block of \<open>n\<close> bytes, \<open>n\<close> an \<open>int\<close> that is converted to
  \<open>size_t\<close>: \<open>granted m n\<close> tells whether an allocator that hands out at most \<open>m\<close> bytes
  grants the request (no request above \<open>PTRDIFF_MAX\<close> is ever granted), and \<open>None\<close> is \<open>NULL\<close>.
  A new block reads as \<open>fresh\<close>; a reallocated block keeps its bytes. Where the C code
  does not check the result and writes to the block, a function has no result when the
  request is not granted. \<open>SIZEOF_UNDO\<close> and \<open>SIZEOF_EDITOR\<close> are \<open>sizeof(struct undo)\<close> and
  \<open>sizeof(struct editor)\<close>, the latter with a \<open>FILENAME_MAX\<close> of 4096.
\<close>

definition granted :: "int \<Rightarrow> int \<Rightarrow> bool" where
  "granted m n \<longleftrightarrow> to_size_t n \<le> PTRDIFF_MAX \<and> to_size_t n \<le> m"

definition malloc_bytes :: "editor \<Rightarrow> int \<Rightarrow> bytes option" where
  "malloc_bytes ed n = (if granted (avail ed) n then Some (fresh ed) else None)"

definition realloc_bytes :: "editor \<Rightarrow> bytes \<Rightarrow> int \<Rightarrow> bytes option" where
  "realloc_bytes ed blk n = (if granted (avail ed) n then Some blk else None)"

definition SIZEOF_UNDO :: int where
  "SIZEOF_UNDO = 48"

definition SIZEOF_EDITOR :: int where
  "SIZEOF_EDITOR = 4224"

partial_function (option) reset_undo :: "editor \<Rightarrow> editor option" where
  "reset_undo ed =
     (if undotail ed \<noteq> undoptr ed then
        (case undotail ed of
           None \<Rightarrow> Some (ed\<lparr>undohead := None, undotail := None, undoptr := None\<rparr>)
         | Some a \<Rightarrow>
             (case deref (undos ed) a of
                None \<Rightarrow> None
              | Some u \<Rightarrow>
                  (case u_prev u of
                     None \<Rightarrow> reset_undo (ed\<lparr>undotail := None, undos := free (undos ed) a\<rparr>)
                   | Some p \<Rightarrow>
                       (case deref (undos ed) p of
                          None \<Rightarrow> None
                        | Some pu \<Rightarrow>
                            reset_undo (ed\<lparr>undotail := Some p,
                              undos := free (heap_store (undos ed) p (pu\<lparr>u_next := None\<rparr>)) a\<rparr>)))))
      else Some (ed\<lparr>undoptr := undotail ed\<rparr>))"

definition text_length :: "editor \<Rightarrow> int" where
  "text_length ed = gap ed + (endp ed - rest ed)"

definition text_ptr :: "editor \<Rightarrow> int \<Rightarrow> int" where
  "text_ptr ed pos = (if pos \<ge> gap ed then pos + (rest ed - gap ed) else pos)"

text \<open>
  \<open>move_gap\<close>. \<open>gapsize\<close>, \<open>minsize\<close> and \<open>newsize\<close> are \<open>int\<close>s: \<open>gapsize\<close> and \<open>newsize\<close> are
  converted from pointer differences, and \<open>gapsize + MINEXTEND\<close> is an \<open>int\<close> addition. The
  result of \<open>malloc\<close> is not checked by the C code, which goes on to copy into the new
  block: with \<open>NULL\<close>, and with a block of \<open>newsize\<close> bytes when the conversion to \<open>int\<close> has
  changed the size (the block is then too small for the text and the gap, and \<open>rest\<close>
  points outside it), the behaviour is undefined and \<open>move_gap\<close> has no result (\<open>None\<close>).
\<close>

definition move_gap :: "editor \<Rightarrow> int \<Rightarrow> int \<Rightarrow> editor option" where
  "move_gap ed pos minsize0 =
     (let gapsize = to_int (rest ed - gap ed);
          p = text_ptr ed pos;
          minsize = (if minsize0 < 0 then 0 else minsize0)
      in if minsize \<le> gapsize then
           Some
             (if p \<noteq> rest ed then
                ed\<lparr>start :=
                     (if p < gap ed then memmove (start ed) (p + gapsize) p (gap ed - p)
                      else memmove (start ed) (gap ed) (rest ed) (p - rest ed)),
                   gap := pos,
                   rest := pos + gapsize\<rparr>
              else ed)
         else
           do {
             ext \<leftarrow> int_add gapsize MINEXTEND;
             let minsize' = (if ext > minsize then ext else minsize);
             let size = endp ed - gapsize + minsize';
             let newsize = to_int size;
             nstart \<leftarrow> malloc_bytes ed newsize;
             let ngap = pos;
             let nrest = ngap + minsize';
             let nend = newsize;
             if newsize \<noteq> size then None
             else
               Some (ed\<lparr>start :=
                    (if p < gap ed then
                       memcpy
                         (memcpy (memcpy nstart 0 (start ed) 0 pos) nrest (start ed) p (gap ed - p))
                         (nend - (endp ed - rest ed)) (start ed) (rest ed) (endp ed - rest ed)
                     else
                       memcpy
                         (memcpy (memcpy nstart 0 (start ed) 0 (gap ed))
                            (gap ed) (start ed) (rest ed) (p - rest ed))
                         nrest (start ed) p (endp ed - p)),
                  gap := ngap,
                  rest := nrest,
                  endp := nend\<rparr>)
           })"

definition close_gap :: "editor \<Rightarrow> editor option" where
  "close_gap ed =
     (let len = text_length ed
      in map_option (\<lambda>ed1. ed1\<lparr>start := (start ed1)(len := 0)\<rparr>) (move_gap ed len 1))"

definition get :: "editor \<Rightarrow> int \<Rightarrow> int" where
  "get ed pos = (let p = text_ptr ed pos in if p \<ge> endp ed then -1 else uint (start ed p))"

text \<open>
  \<open>copy\<close>: the loop state is the destination block, the write offset \<open>bufptr - buf\<close>, the
  read pointer and the count left. The result is the destination and the number of bytes
  copied.
\<close>

function copy_loop :: "editor \<Rightarrow> bytes \<Rightarrow> int \<Rightarrow> int \<Rightarrow> int \<Rightarrow> bytes \<times> int" where
  "copy_loop ed buf bufptr p len =
     (if len > 0 then
        (if p = endp ed then (buf, bufptr)
         else copy_loop ed (buf(bufptr := start ed p)) (bufptr + 1)
                (if p + 1 = gap ed then rest ed else p + 1) (len - 1))
      else (buf, bufptr))"
  by pat_completeness auto
termination
  by (relation "measure (\<lambda>(ed, buf, bufptr, p, len). nat len)") auto

definition copy :: "editor \<Rightarrow> bytes \<Rightarrow> int \<Rightarrow> int \<Rightarrow> bytes \<times> int" where
  "copy ed buf pos len = copy_loop ed buf 0 (text_ptr ed pos) len"

text \<open>
  The first half of \<open>replace\<close> (``Store undo information''), run when \<open>doundo\<close> is set.
  \<open>new_undo\<close> is its last branch (``Create new undo buffer'').
\<close>

definition new_undo :: "editor \<Rightarrow> int \<Rightarrow> int \<Rightarrow> bytes \<Rightarrow> int \<Rightarrow> editor option" where
  "new_undo ed pos len buf bufsize =
     do {
       cell \<leftarrow> malloc_bytes ed SIZEOF_UNDO;
       let a = length (undos ed);
       h \<leftarrow> (case undotail ed of
               None \<Rightarrow> Some (undos ed)
             | Some t \<Rightarrow> map_option (\<lambda>tu. heap_store (undos ed) t (tu\<lparr>u_next := Some a\<rparr>))
                          (deref (undos ed) t));
       ub \<leftarrow> (if len > 0 then map_option (\<lambda>blk. fst (copy ed blk pos len)) (malloc_bytes ed len)
              else Some NULL_buf);
       rb \<leftarrow> (if bufsize > 0 then map_option (\<lambda>blk. memcpy blk 0 buf 0 bufsize) (malloc_bytes ed bufsize)
              else Some NULL_buf);
       Some (ed\<lparr>undotail := Some a, undoptr := Some a,
                undohead := (if undohead ed = None then Some a else undohead ed),
                undos := snd (malloc h
                  \<lparr>u_pos = pos, u_erased = len, u_inserted = bufsize, undobuf = ub, redobuf = rb,
                   u_next = None, u_prev = undotail ed\<rparr>)\<rparr>)
     }"

definition store_undo :: "editor \<Rightarrow> int \<Rightarrow> int \<Rightarrow> bytes \<Rightarrow> int \<Rightarrow> editor option" where
  "store_undo ed0 pos len buf bufsize =
     do {
       ed \<leftarrow> reset_undo ed0;
       case undotail ed of
         None \<Rightarrow> new_undo ed pos len buf bufsize
       | Some a \<Rightarrow>
           do {
             u \<leftarrow> deref (undos ed) a;
             if len = 0 \<and> bufsize = 1 \<and> u_erased u = 0 \<and> pos = u_pos u + u_inserted u then
               do {
                 n \<leftarrow> int_add (u_inserted u) 1;
                 rb \<leftarrow> realloc_bytes ed (redobuf u) n;
                 Some (ed\<lparr>undos := heap_store (undos ed) a
                    (u\<lparr>redobuf := rb(u_inserted u := buf 0), u_inserted := n\<rparr>)\<rparr>)
               }
             else if len = 1 \<and> bufsize = 0 \<and> u_inserted u = 0 \<and> pos = u_pos u then
               do {
                 n \<leftarrow> int_add (u_erased u) 1;
                 ub \<leftarrow> realloc_bytes ed (undobuf u) n;
                 Some (ed\<lparr>undos := heap_store (undos ed) a
                    (u\<lparr>undobuf := ub(u_erased u := word_of_int (get ed pos)), u_erased := n\<rparr>)\<rparr>)
               }
             else if len = 1 \<and> bufsize = 0 \<and> u_inserted u = 0 \<and> pos = u_pos u - 1 then
               do {
                 n \<leftarrow> int_add (u_erased u) 1;
                 ub \<leftarrow> realloc_bytes ed (undobuf u) n;
                 Some (ed\<lparr>undos := heap_store (undos ed) a
                    (u\<lparr>u_pos := u_pos u - 1,
                       undobuf := (memmove ub 1 0 (u_erased u))(0 := word_of_int (get ed pos)),
                       u_erased := n\<rparr>)\<rparr>)
               }
             else new_undo ed pos len buf bufsize
           }
     }"

text \<open>
  The second half of \<open>replace\<close>: the deletion at the edges of the gap, or moving the gap
  and copying the new bytes, and the dirty mark.
\<close>

definition replace_text :: "editor \<Rightarrow> int \<Rightarrow> int \<Rightarrow> bytes \<Rightarrow> int \<Rightarrow> editor option" where
  "replace_text ed pos len buf bufsize =
     map_option (\<lambda>ed2. ed2\<lparr>dirty := 1\<rparr>)
       (if bufsize = 0 \<and> pos \<le> gap ed \<and> pos + len \<ge> gap ed then
          Some (ed\<lparr>rest := rest ed + (len - (gap ed - pos)), gap := pos\<rparr>)
        else
          map_option (\<lambda>ed1. ed1\<lparr>start := memcpy (start ed1) pos buf 0 bufsize, gap := pos + bufsize\<rparr>)
            (move_gap ed (pos + len) (bufsize - len)))"

definition replace :: "editor \<Rightarrow> int \<Rightarrow> int \<Rightarrow> bytes \<Rightarrow> int \<Rightarrow> bool \<Rightarrow> editor option" where
  "replace ed0 pos len buf bufsize doundo =
     do {
       ed \<leftarrow> (if doundo then store_undo ed0 pos len buf bufsize else Some ed0);
       replace_text ed pos len buf bufsize
     }"

definition insert_text :: "editor \<Rightarrow> int \<Rightarrow> bytes \<Rightarrow> int \<Rightarrow> editor option" where
  "insert_text ed pos buf bufsize = replace ed pos 0 buf bufsize True"

definition erase_section :: "editor \<Rightarrow> int \<Rightarrow> int \<Rightarrow> editor option" where
  "erase_section ed pos len = replace ed pos len NULL_buf 0 True"


text \<open>
  \<open>create_editor\<close> clears the new \<open>struct editor\<close> with \<open>memset\<close>: every integer field is
  0 and every pointer is \<open>NULL\<close>. Its linking into the ring of editors is in the workspace
  section. \<open>h\<close> is the storage \<open>malloc\<close> will hand out to this editor and \<open>m\<close> the size of
  the largest block it grants.
\<close>

definition zero_editor :: "bytes \<Rightarrow> int \<Rightarrow> editor" where
  "zero_editor h m =
     \<lparr>start = NULL_buf, gap = 0, rest = 0, endp = 0, toppos = 0, topline = 0, margin = 0,
      linepos = 0, line = 0, col = 0, lastcol = 0, anchor = 0,
      undohead = None, undotail = None, undoptr = None,
      refresh = 0, lineupdate = 0, dirty = 0, newfile = 0,
      ed_next = None, ed_prev = None, filename = [], undos = [], fresh = h,
      avail = m\<rparr>"

text \<open>A string literal as bytes, and \<open>sprintf("%d", n)\<close>.\<close>

definition ascii :: "string \<Rightarrow> byte list" where
  "ascii s = map of_char s"


fun dec_nat :: "nat \<Rightarrow> string" where
  "dec_nat n =
     (if n < 10 then [char_of (48 + n)] else dec_nat (n div 10) @ [char_of (48 + n mod 10)])"

definition dec_int :: "int \<Rightarrow> string" where
  "dec_int i = (if i < 0 then CHR ''-'' # dec_nat (nat (- i)) else dec_nat (nat i))"

text \<open>\<open>new_file\<close> returns its result code, the environment and the editor.\<close>

definition new_file :: "env \<Rightarrow> editor \<Rightarrow> byte list \<Rightarrow> int \<times> env \<times> editor" where
  "new_file e ed fname =
     (let (e1, ed1) =
            (if fname \<noteq> [] then (e, ed\<lparr>filename := fname\<rparr>)
             else (e\<lparr>untitled := untitled e + 1\<rparr>,
                   ed\<lparr>filename := ascii (''Untitled-'' @ dec_int (untitled e + 1)), newfile := 1\<rparr>))
      in case malloc_bytes ed1 MINEXTEND of
           None \<Rightarrow> (-1, e1, ed1\<lparr>start := NULL_buf\<rparr>)
         | Some blk \<Rightarrow>
             (0, e1, ed1\<lparr>start := blk, gap := 0, rest := MINEXTEND, endp := MINEXTEND,
                         anchor := -1\<rparr>))"

section \<open>Navigation functions\<close>

text \<open>
  Loops whose termination is plain are total functions. A loop that can run forever on some
  state (\<open>line_start\<close> below position 0, \<open>moveto\<close> towards a negative position, the margin
  loop of \<open>adjust\<close>) is a \<open>partial_function\<close> in the option monad: \<open>None\<close> means that the
  C function does not return. Every operation built on them returns an option, with the
  same reading.
\<close>

function line_length_loop :: "editor \<Rightarrow> int \<Rightarrow> int" where
  "line_length_loop ed pos =
     (if get ed pos < 0 \<or> get ed pos = 10 \<or> get ed pos = 13 then pos
      else line_length_loop ed (pos + 1))"
  by pat_completeness auto
termination
  by (relation "measure (\<lambda>(ed, pos). nat (max (gap ed) (endp ed - rest ed + gap ed) - pos))")
    (auto simp: get_def text_ptr_def Let_def split: if_splits)

definition line_length :: "editor \<Rightarrow> int \<Rightarrow> int" where
  "line_length ed lpos = line_length_loop ed lpos - lpos"

partial_function (option) line_start :: "editor \<Rightarrow> int \<Rightarrow> int option" where
  "line_start ed pos =
     (if pos = 0 then Some pos
      else if get ed (pos - 1) = 10 then Some pos
      else line_start ed (pos - 1))"

function next_line :: "editor \<Rightarrow> int \<Rightarrow> int" where
  "next_line ed pos =
     (if get ed pos < 0 then -1
      else if get ed pos = 10 then pos + 1
      else next_line ed (pos + 1))"
  by pat_completeness auto
termination
  by (relation "measure (\<lambda>(ed, pos). nat (max (gap ed) (endp ed - rest ed + gap ed) - pos))")
    (auto simp: get_def text_ptr_def Let_def split: if_splits)

text \<open>The two loops of \<open>prev_line\<close>.\<close>

function prev_line_skip :: "editor \<Rightarrow> int \<Rightarrow> int" where
  "prev_line_skip ed pos =
     (if pos > 0 then (if get ed (pos - 1) = 10 then pos - 1 else prev_line_skip ed (pos - 1))
      else pos)"
  by pat_completeness auto
termination
  by (relation "measure (\<lambda>(ed, pos). nat pos)") auto

function prev_line_find :: "editor \<Rightarrow> int \<Rightarrow> int" where
  "prev_line_find ed pos =
     (if pos > 0 then (if get ed (pos - 1) = 10 then pos else prev_line_find ed (pos - 1))
      else 0)"
  by pat_completeness auto
termination
  by (relation "measure (\<lambda>(ed, pos). nat pos)") auto

definition prev_line :: "editor \<Rightarrow> int \<Rightarrow> int" where
  "prev_line ed pos = (if pos = 0 then -1 else prev_line_find ed (prev_line_skip ed pos))"

function column_loop :: "editor \<Rightarrow> int \<Rightarrow> int \<Rightarrow> int \<Rightarrow> int" where
  "column_loop ed p c n =
     (if n > 0 then
        (if p = endp ed then c
         else column_loop ed (if p + 1 = gap ed then rest ed else p + 1)
                (if start ed p = 9 then c + (TABSIZE - c mod TABSIZE) else c + 1) (n - 1))
      else c)"
  by pat_completeness auto
termination
  by (relation "measure (\<lambda>(ed, p, c, n). nat n)") auto

definition column :: "editor \<Rightarrow> int \<Rightarrow> int \<Rightarrow> int" where
  "column ed lpos n = column_loop ed (text_ptr ed lpos) 0 n"

text \<open>
  \<open>moveto\<close>: the first loop carries the editor and the \<open>scroll\<close> flag; the second loop
  recentres the view. \<open>c_div2\<close> is C's \<open>/ 2\<close>, which truncates towards zero.
\<close>

partial_function (option) moveto_loop :: "env \<Rightarrow> int \<Rightarrow> editor \<Rightarrow> bool \<Rightarrow> (editor \<times> bool) option" where
  "moveto_loop e pos ed scroll =
     (if pos < linepos ed + col ed then
        (if pos \<ge> linepos ed then moveto_loop e pos (ed\<lparr>col := pos - linepos ed\<rparr>) scroll
         else if topline ed > line ed - 1 then
           moveto_loop e pos
             (ed\<lparr>col := 0, linepos := prev_line ed (linepos ed), line := line ed - 1,
                 toppos := prev_line ed (linepos ed), topline := topline ed - 1, refresh := 1\<rparr>)
             True
         else
           moveto_loop e pos
             (ed\<lparr>col := 0, linepos := prev_line ed (linepos ed), line := line ed - 1\<rparr>) scroll)
      else if pos > linepos ed + col ed then
        (if next_line ed (linepos ed) = -1 then
           Some (ed\<lparr>col := text_length ed - linepos ed\<rparr>, scroll)
         else if pos < next_line ed (linepos ed) then
           moveto_loop e pos (ed\<lparr>col := pos - linepos ed\<rparr>) scroll
         else if line ed + 1 \<ge> topline ed + lines e then
           moveto_loop e pos
             (ed\<lparr>col := 0, linepos := next_line ed (linepos ed), line := line ed + 1,
                 toppos := next_line ed (toppos ed), topline := topline ed + 1, refresh := 1\<rparr>)
             True
         else
           moveto_loop e pos
             (ed\<lparr>col := 0, linepos := next_line ed (linepos ed), line := line ed + 1\<rparr>) scroll)
      else Some (ed, scroll))"

function center_loop :: "editor \<Rightarrow> int \<Rightarrow> editor" where
  "center_loop ed tline =
     (if topline ed > tline then
        center_loop (ed\<lparr>toppos := prev_line ed (toppos ed), topline := topline ed - 1\<rparr>) tline
      else if topline ed < tline then
        center_loop (ed\<lparr>toppos := next_line ed (toppos ed), topline := topline ed + 1\<rparr>) tline
      else ed)"
  by pat_completeness auto
termination
  by (relation "measure (\<lambda>(ed, tline). nat \<bar>topline ed - tline\<bar>)") auto

definition c_div2 :: "int \<Rightarrow> int" where
  "c_div2 n = (if n < 0 then - ((- n) div 2) else n div 2)"

definition moveto :: "env \<Rightarrow> editor \<Rightarrow> int \<Rightarrow> bool \<Rightarrow> editor option" where
  "moveto e ed pos center =
     do {
       (ed1, scroll) \<leftarrow> moveto_loop e pos ed False;
       Some (if scroll \<and> center then
               center_loop ed1
                 (if line ed1 - c_div2 (lines e) < 0 then 0 else line ed1 - c_div2 (lines e))
             else ed1)
     }"

section \<open>Text selection\<close>

text \<open>\<open>get_selection\<close> returns its result and the two output parameters.\<close>

definition get_selection :: "editor \<Rightarrow> bool \<times> int \<times> int" where
  "get_selection ed =
     (if anchor ed = -1 then (False, -1, -1)
      else if linepos ed + col ed = anchor ed then (False, -1, -1)
      else if linepos ed + col ed < anchor ed then (True, linepos ed + col ed, anchor ed)
      else (True, anchor ed, linepos ed + col ed))"

definition get_selected_text :: "editor \<Rightarrow> bytes \<Rightarrow> int \<Rightarrow> bytes \<times> int" where
  "get_selected_text ed buffer sz =
     (case get_selection ed of
        (False, selstart, selend) \<Rightarrow> (buffer, 0)
      | (True, selstart, selend) \<Rightarrow>
          (if selend - selstart \<ge> sz then (buffer, 0)
           else ((fst (copy ed buffer selstart (selend - selstart)))(selend - selstart := 0),
                 selend - selstart)))"

definition update_selection :: "editor \<Rightarrow> bool \<Rightarrow> editor" where
  "update_selection ed sel =
     (if sel then
        (if anchor ed = -1 then ed\<lparr>anchor := linepos ed + col ed\<rparr> else ed)\<lparr>refresh := 1\<rparr>
      else
        (if anchor ed \<noteq> -1 then ed\<lparr>refresh := 1\<rparr> else ed)\<lparr>anchor := -1\<rparr>)"

text \<open>\<open>erase_selection\<close> returns the editor and its result.\<close>

definition erase_selection :: "env \<Rightarrow> editor \<Rightarrow> (editor \<times> bool) option" where
  "erase_selection e ed =
     (case get_selection ed of
        (False, selstart, selend) \<Rightarrow> Some (ed, False)
      | (True, selstart, selend) \<Rightarrow>
          do {
            ed1 \<leftarrow> moveto e ed selstart False;
            ed2 \<leftarrow> erase_section ed1 selstart (selend - selstart);
            Some (ed2\<lparr>anchor := -1, refresh := 1\<rparr>, True)
          })"

definition select_all :: "env \<Rightarrow> editor \<Rightarrow> editor option" where
  "select_all e ed =
     moveto e (ed\<lparr>anchor := 0, refresh := 1\<rparr>) (text_length (ed\<lparr>anchor := 0, refresh := 1\<rparr>)) False"

section \<open>Cursor movement\<close>

text \<open>
  The two margin loops of \<open>adjust\<close>, for the visual column \<open>vcol\<close>. The first one does not
  return when \<open>vcol\<close> is negative and the margin has reached 0.
\<close>

partial_function (option) margin_left :: "int \<Rightarrow> editor \<Rightarrow> editor option" where
  "margin_left vcol ed =
     (if vcol < margin ed then
        margin_left vcol
          (ed\<lparr>margin := (if margin ed - 4 < 0 then 0 else margin ed - 4), refresh := 1\<rparr>)
      else Some ed)"

function margin_right :: "env \<Rightarrow> int \<Rightarrow> editor \<Rightarrow> editor" where
  "margin_right e vcol ed =
     (if vcol - margin ed \<ge> cols e then
        margin_right e vcol (ed\<lparr>margin := margin ed + 4, refresh := 1\<rparr>)
      else ed)"
  by pat_completeness auto
termination
  by (relation "measure (\<lambda>(e, vcol, ed). nat (vcol - margin ed - cols e + 1))") auto

definition adjust :: "env \<Rightarrow> editor \<Rightarrow> editor option" where
  "adjust e ed =
     (let ll = line_length ed (linepos ed);
          ed1 = ed\<lparr>col := (if lastcol ed > ll then ll else lastcol ed)\<rparr>;
          vcol = column ed1 (linepos ed1) (col ed1)
      in map_option (margin_right e vcol) (margin_left vcol ed1))"

definition up :: "env \<Rightarrow> editor \<Rightarrow> bool \<Rightarrow> editor option" where
  "up e ed sel =
     (if prev_line ed (linepos ed) < 0 then Some ed
      else
        (let ed1 = update_selection ed sel;
             ed2 = ed1\<lparr>linepos := prev_line ed (linepos ed), line := line ed1 - 1\<rparr>
         in adjust e
              (if line ed2 < topline ed2 then
                 ed2\<lparr>toppos := linepos ed2, topline := line ed2, refresh := 1\<rparr>
               else ed2)))"

definition down :: "env \<Rightarrow> editor \<Rightarrow> bool \<Rightarrow> editor option" where
  "down e ed sel =
     (if next_line ed (linepos ed) < 0 then Some ed
      else
        (let ed1 = update_selection ed sel;
             ed2 = ed1\<lparr>linepos := next_line ed (linepos ed), line := line ed1 + 1\<rparr>
         in adjust e
              (if line ed2 \<ge> topline ed2 + lines e then
                 ed2\<lparr>toppos := next_line ed2 (toppos ed2), topline := topline ed2 + 1,
                     refresh := 1\<rparr>
               else ed2)))"

definition left :: "env \<Rightarrow> editor \<Rightarrow> bool \<Rightarrow> editor option" where
  "left e ed sel =
     (let ed1 = update_selection ed sel in
      if col ed1 > 0 then
        adjust e (ed1\<lparr>col := col ed1 - 1, lastcol := col ed1 - 1\<rparr>)
      else if prev_line ed1 (linepos ed1) < 0 then Some ed1
      else
        (let ed2 = ed1\<lparr>col := line_length ed1 (prev_line ed1 (linepos ed1)),
                       linepos := prev_line ed1 (linepos ed1), line := line ed1 - 1\<rparr>;
             ed3 = (if line ed2 < topline ed2 then
                      ed2\<lparr>toppos := linepos ed2, topline := line ed2, refresh := 1\<rparr>
                    else ed2)
         in adjust e (ed3\<lparr>lastcol := col ed3\<rparr>)))"

definition right :: "env \<Rightarrow> editor \<Rightarrow> bool \<Rightarrow> editor option" where
  "right e ed sel =
     (let ed1 = update_selection ed sel in
      if col ed1 < line_length ed1 (linepos ed1) then
        adjust e (ed1\<lparr>col := col ed1 + 1, lastcol := col ed1 + 1\<rparr>)
      else if next_line ed1 (linepos ed1) < 0 then Some ed1
      else
        (let ed2 = ed1\<lparr>col := 0, linepos := next_line ed1 (linepos ed1), line := line ed1 + 1\<rparr>;
             ed3 = (if line ed2 \<ge> topline ed2 + lines e then
                      ed2\<lparr>toppos := next_line ed2 (toppos ed2), topline := topline ed2 + 1,
                          refresh := 1\<rparr>
                    else ed2)
         in adjust e (ed3\<lparr>lastcol := col ed3\<rparr>)))"

definition wordchar :: "int \<Rightarrow> bool" where
  "wordchar ch \<longleftrightarrow> (ch \<ge> 65 \<and> ch \<le> 90) \<or> (ch \<ge> 97 \<and> ch \<le> 122) \<or> (ch \<ge> 48 \<and> ch \<le> 57)"

text \<open>The loop of \<open>wordleft\<close>: the state is the editor, \<open>pos\<close> and \<open>phase\<close>.\<close>

function wordleft_loop :: "editor \<Rightarrow> int \<Rightarrow> bool \<Rightarrow> editor \<times> int" where
  "wordleft_loop ed pos phase =
     (if pos > 0 then
        (if phase \<and> \<not> wordchar (get ed (pos - 1)) then (ed, pos)
         else
           wordleft_loop
             (if pos - 1 < linepos ed then
                ed\<lparr>linepos := prev_line ed (linepos ed), line := line ed - 1, refresh := 1\<rparr>
              else ed)
             (pos - 1) (phase \<or> wordchar (get ed (pos - 1))))
      else (ed, pos))"
  by pat_completeness auto
termination
  by (relation "measure (\<lambda>(ed, pos, phase). nat pos)") auto

definition wordleft :: "env \<Rightarrow> editor \<Rightarrow> bool \<Rightarrow> editor option" where
  "wordleft e ed sel =
     (let ed1 = update_selection ed sel;
          (ed2, pos) = wordleft_loop ed1 (linepos ed1 + col ed1) False;
          ed3 = ed2\<lparr>col := pos - linepos ed2\<rparr>;
          ed4 = (if line ed3 < topline ed3 then ed3\<lparr>toppos := linepos ed3, topline := line ed3\<rparr>
                 else ed3)
      in adjust e (ed4\<lparr>lastcol := col ed4\<rparr>))"

text \<open>The loop of \<open>wordright\<close>: the state is the editor, \<open>pos\<close>, \<open>next\<close> and \<open>phase\<close>.\<close>

function wordright_loop :: "editor \<Rightarrow> int \<Rightarrow> int \<Rightarrow> int \<Rightarrow> bool \<Rightarrow> editor \<times> int" where
  "wordright_loop ed tend pos nxt phase =
     (if pos < tend then
        (if phase \<and> \<not> wordchar (get ed pos) then (ed, pos)
         else if pos + 1 = nxt then
           wordright_loop (ed\<lparr>linepos := nxt, line := line ed + 1, refresh := 1\<rparr>) tend (pos + 1)
             (next_line ed nxt) (phase \<or> wordchar (get ed pos))
         else wordright_loop ed tend (pos + 1) nxt (phase \<or> wordchar (get ed pos)))
      else (ed, pos))"
  by pat_completeness auto
termination
  by (relation "measure (\<lambda>(ed, tend, pos, nxt, phase). nat (tend - pos))") auto

definition wordright :: "env \<Rightarrow> editor \<Rightarrow> bool \<Rightarrow> editor option" where
  "wordright e ed sel =
     (let ed1 = update_selection ed sel;
          (ed2, pos) = wordright_loop ed1 (text_length ed1) (linepos ed1 + col ed1)
                         (next_line ed1 (linepos ed1)) False;
          ed3 = ed2\<lparr>col := pos - linepos ed2\<rparr>;
          ed4 = (if line ed3 \<ge> topline ed3 + lines e then
                   ed3\<lparr>toppos := next_line ed3 (toppos ed3), topline := topline ed3 + 1\<rparr>
                 else ed3)
      in adjust e (ed4\<lparr>lastcol := col ed4\<rparr>))"

definition home :: "env \<Rightarrow> editor \<Rightarrow> bool \<Rightarrow> editor option" where
  "home e ed sel = adjust e ((update_selection ed sel)\<lparr>col := 0, lastcol := 0\<rparr>)"

definition end_key :: "env \<Rightarrow> editor \<Rightarrow> bool \<Rightarrow> editor option" where
  "end_key e ed sel =
     (let ed1 = update_selection ed sel
      in adjust e (ed1\<lparr>col := line_length ed1 (linepos ed1),
                      lastcol := line_length ed1 (linepos ed1)\<rparr>))"

definition top_key :: "env \<Rightarrow> editor \<Rightarrow> bool \<Rightarrow> editor option" where
  "top_key e ed sel =
     Some ((update_selection ed sel)
       \<lparr>toppos := 0, topline := 0, margin := 0, linepos := 0, line := 0, col := 0, lastcol := 0,
        refresh := 1\<rparr>)"

partial_function (option) bottom_loop :: "env \<Rightarrow> editor \<Rightarrow> editor option" where
  "bottom_loop e ed =
     (if next_line ed (linepos ed) < 0 then Some ed
      else if line ed + 1 \<ge> topline ed + lines e then
        bottom_loop e
          (ed\<lparr>linepos := next_line ed (linepos ed), line := line ed + 1,
              toppos := next_line ed (toppos ed), topline := topline ed + 1, refresh := 1\<rparr>)
      else bottom_loop e (ed\<lparr>linepos := next_line ed (linepos ed), line := line ed + 1\<rparr>))"

definition bottom :: "env \<Rightarrow> editor \<Rightarrow> bool \<Rightarrow> editor option" where
  "bottom e ed sel =
     do {
       ed1 \<leftarrow> bottom_loop e (update_selection ed sel);
       adjust e (ed1\<lparr>col := line_length ed1 (linepos ed1),
                    lastcol := line_length ed1 (linepos ed1)\<rparr>)
     }"

text \<open>
  The loop of \<open>pageup\<close> returns the editor and whether the function returned from inside
  the loop; the loop of \<open>pagedown\<close> only breaks.
\<close>

function pageup_loop :: "env \<Rightarrow> editor \<Rightarrow> int \<Rightarrow> editor \<times> bool" where
  "pageup_loop e ed i =
     (if i < lines e then
        (if prev_line ed (linepos ed) < 0 then (ed, True)
         else
           pageup_loop e
             (if topline ed > 0 then
                ed\<lparr>linepos := prev_line ed (linepos ed), line := line ed - 1,
                    toppos := prev_line ed (toppos ed), topline := topline ed - 1\<rparr>
              else ed\<lparr>linepos := prev_line ed (linepos ed), line := line ed - 1\<rparr>)
             (i + 1))
      else (ed, False))"
  by pat_completeness auto
termination
  by (relation "measure (\<lambda>(e, ed, i). nat (lines e - i))") auto

definition pageup :: "env \<Rightarrow> editor \<Rightarrow> bool \<Rightarrow> editor option" where
  "pageup e ed sel =
     (let ed1 = update_selection ed sel in
      if line ed1 < lines e then
        adjust e (ed1\<lparr>linepos := 0, toppos := 0, line := 0, topline := 0, refresh := 1\<rparr>)
      else
        (case pageup_loop e ed1 0 of
           (ed2, True) \<Rightarrow> Some ed2
         | (ed2, False) \<Rightarrow> adjust e (ed2\<lparr>refresh := 1\<rparr>)))"

function pagedown_loop :: "env \<Rightarrow> editor \<Rightarrow> int \<Rightarrow> editor" where
  "pagedown_loop e ed i =
     (if i < lines e then
        (if next_line ed (linepos ed) < 0 then ed
         else
           pagedown_loop e
             (ed\<lparr>linepos := next_line ed (linepos ed), line := line ed + 1,
                 toppos := next_line ed (toppos ed), topline := topline ed + 1\<rparr>)
             (i + 1))
      else ed)"
  by pat_completeness auto
termination
  by (relation "measure (\<lambda>(e, ed, i). nat (lines e - i))") auto

definition pagedown :: "env \<Rightarrow> editor \<Rightarrow> bool \<Rightarrow> editor option" where
  "pagedown e ed sel =
     adjust e ((pagedown_loop e (update_selection ed sel) 0)\<lparr>refresh := 1\<rparr>)"

section \<open>Text editing\<close>

definition insert_char :: "env \<Rightarrow> editor \<Rightarrow> byte \<Rightarrow> editor option" where
  "insert_char e ed ch =
     do {
       (ed1, erased) \<leftarrow> erase_selection e ed;
       ed2 \<leftarrow> insert_text ed1 (linepos ed1 + col ed1) (\<lambda>i. ch) 1;
       ed3 \<leftarrow> adjust e (ed2\<lparr>col := col ed2 + 1, lastcol := col ed2 + 1\<rparr>);
       Some (if refresh ed3 = 0 then ed3\<lparr>lineupdate := 1\<rparr> else ed3)
     }"

text \<open>\<open>NEW_LINE\<close> is the string \<open>"\n"\<close>.\<close>

definition NEW_LINE :: bytes where
  "NEW_LINE = (\<lambda>i. if i = 0 then 10 else 0)"

definition newline :: "env \<Rightarrow> editor \<Rightarrow> editor option" where
  "newline e ed =
     do {
       (ed1, erased) \<leftarrow> erase_selection e ed;
       ed2 \<leftarrow> insert_text ed1 (linepos ed1 + col ed1) NEW_LINE 1;
       let ed3 = ed2\<lparr>col := 0, lastcol := 0, line := line ed2 + 1,
                     linepos := next_line ed2 (linepos ed2), refresh := 1\<rparr>;
       adjust e
         (if line ed3 \<ge> topline ed3 + lines e then
            ed3\<lparr>toppos := next_line ed3 (toppos ed3), topline := topline ed3 + 1, refresh := 1\<rparr>
          else ed3)
     }"

definition backspace :: "env \<Rightarrow> editor \<Rightarrow> editor option" where
  "backspace e ed =
     do {
       (ed1, erased) \<leftarrow> erase_selection e ed;
       if erased then Some ed1
       else if linepos ed1 + col ed1 = 0 then Some ed1
       else if col ed1 = 0 then
         do {
           ed2 \<leftarrow> erase_section ed1 (linepos ed1 - 1) 1;
           (ed3, pos) \<leftarrow>
             (if get ed2 (linepos ed1 - 1 - 1) = 13 then
                map_option (\<lambda>x. (x, linepos ed1 - 1 - 1)) (erase_section ed2 (linepos ed1 - 1 - 1) 1)
              else Some (ed2, linepos ed1 - 1));
           ls \<leftarrow> line_start ed3 pos;
           let ed4 = ed3\<lparr>line := line ed3 - 1, linepos := ls, col := pos - ls, refresh := 1\<rparr>;
           let ed5 = (if line ed4 < topline ed4 then
                        ed4\<lparr>toppos := linepos ed4, topline := line ed4\<rparr>
                      else ed4);
           adjust e (ed5\<lparr>lastcol := col ed5\<rparr>)
         }
       else
         do {
           ed2 \<leftarrow> erase_section (ed1\<lparr>col := col ed1 - 1\<rparr>) (linepos ed1 + (col ed1 - 1)) 1;
           adjust e (ed2\<lparr>lineupdate := 1, lastcol := col ed2\<rparr>)
         }
     }"

definition del :: "env \<Rightarrow> editor \<Rightarrow> editor option" where
  "del e ed =
     do {
       (ed1, erased) \<leftarrow> erase_selection e ed;
       if erased then Some ed1
       else if get ed1 (linepos ed1 + col ed1) < 0 then Some ed1
       else
         do {
           ed2 \<leftarrow> erase_section ed1 (linepos ed1 + col ed1) 1;
           (ed3, ch) \<leftarrow>
             (if get ed1 (linepos ed1 + col ed1) = 13 then
                (if get ed2 (linepos ed1 + col ed1) = 10 then
                   map_option (\<lambda>x. (x, 10)) (erase_section ed2 (linepos ed1 + col ed1) 1)
                 else Some (ed2, get ed2 (linepos ed1 + col ed1)))
              else Some (ed2, get ed1 (linepos ed1 + col ed1)));
           Some (if ch = 10 then ed3\<lparr>refresh := 1\<rparr> else ed3\<lparr>lineupdate := 1\<rparr>)
         }
     }"

definition undo :: "env \<Rightarrow> editor \<Rightarrow> editor option" where
  "undo e ed =
     (case undoptr ed of
        None \<Rightarrow> Some ed
      | Some a \<Rightarrow>
          do {
            u \<leftarrow> deref (undos ed) a;
            ed1 \<leftarrow> moveto e ed (u_pos u) False;
            ed2 \<leftarrow> replace ed1 (u_pos u) (u_inserted u) (undobuf u) (u_erased u) False;
            Some ((if u_prev u = None then ed2\<lparr>undoptr := u_prev u, dirty := 0\<rparr>
                   else ed2\<lparr>undoptr := u_prev u\<rparr>)\<lparr>refresh := 1\<rparr>)
          })"

text \<open>The common end of \<open>redo\<close>, once \<open>ed->undo\<close> has been advanced to the record at \<open>a\<close>.\<close>

definition redo_apply :: "env \<Rightarrow> editor \<Rightarrow> addr \<Rightarrow> editor option" where
  "redo_apply e ed a =
     do {
       u \<leftarrow> deref (undos ed) a;
       ed1 \<leftarrow> replace (ed\<lparr>undoptr := Some a\<rparr>) (u_pos u) (u_erased u) (redobuf u) (u_inserted u) False;
       ed2 \<leftarrow> moveto e ed1 (u_pos u) False;
       Some (ed2\<lparr>dirty := 1, refresh := 1\<rparr>)
     }"

definition redo :: "env \<Rightarrow> editor \<Rightarrow> editor option" where
  "redo e ed =
     (case undoptr ed of
        Some a \<Rightarrow>
          do {
            u \<leftarrow> deref (undos ed) a;
            case u_next u of
              None \<Rightarrow> Some ed
            | Some n \<Rightarrow> redo_apply e ed n
          }
      | None \<Rightarrow>
          (case undohead ed of
             None \<Rightarrow> Some ed
           | Some h \<Rightarrow> redo_apply e ed h))"

section \<open>Clipboard\<close>

definition copy_selection :: "env \<Rightarrow> editor \<Rightarrow> env option" where
  "copy_selection e ed =
     (case get_selection ed of
        (False, selstart, selend) \<Rightarrow> Some e
      | (True, selstart, selend) \<Rightarrow>
          map_option
            (\<lambda>blk. e\<lparr>clipsize := selend - selstart,
                     clipboard := fst (copy ed blk selstart (selend - selstart))\<rparr>)
            (realloc_bytes ed (clipboard e) (selend - selstart)))"

definition cut_selection :: "env \<Rightarrow> editor \<Rightarrow> (env \<times> editor) option" where
  "cut_selection e ed =
     do {
       e1 \<leftarrow> copy_selection e ed;
       (ed1, erased) \<leftarrow> erase_selection e1 ed;
       Some (e1, ed1)
     }"

definition paste_selection :: "env \<Rightarrow> editor \<Rightarrow> editor option" where
  "paste_selection e ed =
     do {
       (ed1, erased) \<leftarrow> erase_selection e ed;
       ed2 \<leftarrow> insert_text ed1 (linepos ed1 + col ed1) (clipboard e) (clipsize e);
       ed3 \<leftarrow> moveto e ed2 (linepos ed2 + col ed2 + clipsize e) False;
       Some (ed3\<lparr>refresh := 1\<rparr>)
     }"

text \<open>The recursion equations of the partial functions are their code equations.\<close>

declare reset_undo.simps [code] line_start.simps [code] moveto_loop.simps [code]
  margin_left.simps [code] bottom_loop.simps [code]

section \<open>Terminal, prompt and C strings\<close>

text \<open>
  The terminal: \<open>tty_keys\<close> are the key codes that the coming calls of \<open>getkey\<close> return
  (the decoder of keys.c is not modelled), \<open>tty_chars\<close> the characters that the coming calls
  of \<open>getchar\<close> in \<open>ask\<close> return, and \<open>tty_out\<close> the bytes written to standard output so far.
  When the keys are used up \<open>getkey\<close> returns \<open>EOF\<close> for ever.
\<close>

record tty =
  tty_keys :: "int list"
  tty_chars :: "int list"
  tty_out :: "byte list"

definition KEY_BACKSPACE :: int where "KEY_BACKSPACE = 0x101"
definition KEY_ESC :: int where "KEY_ESC = 0x102"
definition KEY_ENTER :: int where "KEY_ENTER = 0x10B"

definition outch :: "tty \<Rightarrow> byte \<Rightarrow> tty" where
  "outch t c = t\<lparr>tty_out := tty_out t @ [c]\<rparr>"

definition outstr :: "tty \<Rightarrow> byte list \<Rightarrow> tty" where
  "outstr t s = t\<lparr>tty_out := tty_out t @ s\<rparr>"

definition CLREOL :: "byte list" where "CLREOL = 27 # ascii ''[K''"
definition TEXT_COLOR :: "byte list" where "TEXT_COLOR = 27 # ascii ''[0m''"
definition STATUS_COLOR :: "byte list" where "STATUS_COLOR = (27 # ascii ''[1m'') @ (27 # ascii ''[7m'')"
definition BEL :: byte where "BEL = 7"

definition gotoxy :: "tty \<Rightarrow> int \<Rightarrow> int \<Rightarrow> tty" where
  "gotoxy t x y = outstr t (27 # ascii (''['' @ dec_int (y + 1) @ '';'' @ dec_int (x + 1) @ ''H''))"

text \<open>
  The loop of \<open>prompt\<close>, reading the keys one by one. With no key left it never exits.
  The result is \<open>prompt\<close>'s return value, the line buffer, its length and the terminal.
\<close>

fun prompt_loop :: "bytes \<Rightarrow> int \<Rightarrow> int \<Rightarrow> int list \<Rightarrow> tty \<Rightarrow> (bool \<times> bytes \<times> tty) option" where
  "prompt_loop buf len maxlen [] t = None"
| "prompt_loop buf len maxlen (ch # ks) t =
     (if ch = KEY_ESC then Some (False, buf, t\<lparr>tty_keys := ks\<rparr>)
      else if ch = KEY_ENTER then Some (len > 0, buf(len := 0), t\<lparr>tty_keys := ks\<rparr>)
      else if ch = KEY_BACKSPACE then
        (if len > 0 then prompt_loop buf (len - 1) maxlen ks (outstr t [8, 32, 8])
         else prompt_loop buf len maxlen ks t)
      else if ch \<ge> 32 \<and> ch < 0x100 \<and> len < maxlen then
        prompt_loop (buf(len := word_of_int ch)) (len + 1) maxlen ks (outch t (word_of_int ch))
      else prompt_loop buf len maxlen ks t)"

definition prompt :: "tty \<Rightarrow> env \<Rightarrow> editor \<Rightarrow> byte list \<Rightarrow> (bool \<times> env \<times> tty) option" where
  "prompt t e ed msg =
     (let t1 = outstr (outstr (outstr (gotoxy t 0 (lines e)) STATUS_COLOR) msg) CLREOL;
          maxlen = cols e - int (length msg) - 1;
          (buf, len) = get_selected_text ed (linebuf e) maxlen;
          t2 = outstr t1 (map buf [0..len - 1])
      in map_option (\<lambda>(r, buf', t'). (r, e\<lparr>linebuf := buf'\<rparr>, t'))
           (prompt_loop buf len maxlen (tty_keys t2) t2))"

definition ask :: "tty \<Rightarrow> bool \<times> tty" where
  "ask t =
     (case tty_chars t of
        [] \<Rightarrow> (False, t)
      | ch # cs \<Rightarrow> (ch = 121 \<or> ch = 89, t\<lparr>tty_chars := cs\<rparr>))"

text \<open>
  The C string at offset \<open>off\<close> of a block that ends at offset \<open>lim\<close>: the bytes before
  the first NUL. With no NUL before \<open>lim\<close> the C code reads past the block, which has no
  result.
\<close>

function c_string :: "bytes \<Rightarrow> int \<Rightarrow> int \<Rightarrow> byte list option" where
  "c_string m off lim =
     (if off \<ge> lim then None
      else if m off = 0 then Some []
      else map_option ((#) (m off)) (c_string m (off + 1) lim))"
  by pat_completeness auto
termination
  by (relation "measure (\<lambda>(m, off, lim). nat (lim - off))") auto

definition linebuf_string :: "env \<Rightarrow> byte list option" where
  "linebuf_string e = c_string (linebuf e) 0 (cols e + LINEBUF_EXTRA)"

text \<open>\<open>strstr\<close>: the offset of the first occurrence of the needle, \<open>None\<close> for \<open>NULL\<close>.\<close>

fun strstr :: "byte list \<Rightarrow> byte list \<Rightarrow> int option" where
  "strstr [] needle = (if needle = [] then Some 0 else None)"
| "strstr (x # xs) needle =
     (if take (length needle) (x # xs) = needle then Some 0
      else map_option (\<lambda>i. i + 1) (strstr xs needle))"

text \<open>
  \<open>atoi\<close> is \<open>(int) strtol(s, NULL, 10)\<close>: white space, an optional sign and decimal digits
  give a \<open>long\<close>, kept within \<open>LONG_MIN\<close> and \<open>LONG_MAX\<close>, which is then converted to \<open>int\<close>.
\<close>

fun atoi_digits :: "int \<Rightarrow> byte list \<Rightarrow> int" where
  "atoi_digits acc [] = acc"
| "atoi_digits acc (c # cs) =
     (if 48 \<le> uint c \<and> uint c \<le> 57 then atoi_digits (acc * 10 + (uint c - 48)) cs else acc)"

fun strtol_value :: "byte list \<Rightarrow> int" where
  "strtol_value [] = 0"
| "strtol_value (c # cs) =
     (if c = 32 \<or> (9 \<le> uint c \<and> uint c \<le> 13) then strtol_value cs
      else if c = 45 then - atoi_digits 0 cs
      else if c = 43 then atoi_digits 0 cs
      else atoi_digits 0 (c # cs))"

definition strtol :: "byte list \<Rightarrow> int" where
  "strtol s = max (- PTRDIFF_MAX - 1) (min PTRDIFF_MAX (strtol_value s))"

definition atoi :: "byte list \<Rightarrow> int" where
  "atoi s = to_int (strtol s)"

section \<open>Search and goto line\<close>

definition find_text :: "tty \<Rightarrow> env \<Rightarrow> editor \<Rightarrow> bool \<Rightarrow> (tty \<times> env \<times> editor) option" where
  "find_text t e ed nxt =
     do {
       (continue, t1, e1) \<leftarrow>
         (if \<not> nxt then
            do {
              (r, e', t') \<leftarrow> prompt t e ed (ascii ''Find: '');
              if \<not> r then Some (False, t', e')
              else map_option (\<lambda>s. (True, t', e'\<lparr>search := Some s\<rparr>)) (linebuf_string e')
            }
          else Some (True, t, e));
       if \<not> continue then Some (t1, e1, ed\<lparr>refresh := 1\<rparr>)
       else
         (case search e1 of
            None \<Rightarrow> Some (t1, e1, ed)
          | Some needle \<Rightarrow>
              if length needle > 0 then
                do {
                  ed1 \<leftarrow> close_gap ed;
                  hay \<leftarrow> c_string (start ed1) (linepos ed1 + col ed1) (endp ed1);
                  case strstr hay needle of
                    Some i \<Rightarrow>
                      map_option (\<lambda>ed2. (t1, e1, ed2\<lparr>refresh := 1\<rparr>))
                        (moveto e1 (ed1\<lparr>anchor := linepos ed1 + col ed1 + i\<rparr>)
                           (linepos ed1 + col ed1 + i + int (length needle)) True)
                  | None \<Rightarrow> Some (outch t1 BEL, e1, ed1\<lparr>refresh := 1\<rparr>)
                }
              else Some (t1, e1, ed\<lparr>refresh := 1\<rparr>))
     }"

function goto_line_loop :: "editor \<Rightarrow> int \<Rightarrow> int \<Rightarrow> int \<Rightarrow> int" where
  "goto_line_loop ed lineno pos l =
     (if l < lineno - 1 then
        (if next_line ed pos < 0 then next_line ed pos
         else goto_line_loop ed lineno (next_line ed pos) (l + 1))
      else pos)"
  by pat_completeness auto
termination
  by (relation "measure (\<lambda>(ed, lineno, pos, l). nat (lineno - 1 - l))") auto

definition goto_line :: "tty \<Rightarrow> env \<Rightarrow> editor \<Rightarrow> (tty \<times> env \<times> editor) option" where
  "goto_line t e ed =
     do {
       (r, e1, t1) \<leftarrow> prompt t e (ed\<lparr>anchor := -1\<rparr>) (ascii ''Goto line: '');
       if r then
         do {
           s \<leftarrow> linebuf_string e1;
           let pos = (if atoi s > 0 then goto_line_loop ed (atoi s) 0 0 else -1);
           if pos \<ge> 0 then
             map_option (\<lambda>ed1. (t1, e1, ed1\<lparr>refresh := 1\<rparr>)) (moveto e1 (ed\<lparr>anchor := -1\<rparr>) pos True)
           else Some (outch t1 BEL, e1, ed\<lparr>anchor := -1, refresh := 1\<rparr>)
         }
       else Some (t1, e1, ed\<lparr>anchor := -1, refresh := 1\<rparr>)
     }"

section \<open>Files and the ring of editors\<close>

text \<open>
  The operating system as the editor sees it: \<open>os_realpath\<close> canonicalises a path (\<open>None\<close>
  when it fails, and \<open>os_realpath_buf\<close> is then what it has left in the result buffer),
  \<open>os_files\<close> gives the bytes of the file at a canonical path (\<open>None\<close> when
  it cannot be opened), \<open>os_writable\<close> tells whether a path can be opened for writing,
  \<open>os_popen\<close> is the output of a shell command (\<open>None\<close> when it cannot be run), and
  \<open>os_errno\<close>, \<open>os_strerror\<close> are what \<open>errno\<close> and \<open>strerror\<close> give after a failure.
\<close>

record os =
  os_realpath :: "byte list \<Rightarrow> byte list option"
  os_realpath_buf :: "byte list \<Rightarrow> byte list"
  os_files :: "byte list \<Rightarrow> byte list option"
  os_writable :: "byte list \<Rightarrow> bool"
  os_popen :: "byte list \<Rightarrow> byte list option"
  os_errno :: int
  os_strerror :: "int \<Rightarrow> byte list"

text \<open>
  \<open>load_file\<close> returns its result code and the editor. \<open>realpath\<close> writes into
  \<open>ed->filename\<close> also when it fails. The size of the file is converted to the \<open>int\<close>
  \<open>length\<close>, and the file is read in one piece. With a negative \<open>length\<close> and a block that
  could be allocated, \<open>read\<close> is asked for more bytes than the block has: there is no result.
\<close>

definition load_file :: "os \<Rightarrow> editor \<Rightarrow> byte list \<Rightarrow> (int \<times> editor) option" where
  "load_file w ed fname =
     (case os_realpath w fname of
        None \<Rightarrow> Some (-1, ed\<lparr>filename := os_realpath_buf w fname\<rparr>)
      | Some path \<Rightarrow>
          (case os_files w path of
             None \<Rightarrow> Some (-1, ed\<lparr>filename := path\<rparr>)
           | Some bs \<Rightarrow>
               do {
                 let len = to_int (int (length bs));
                 sz \<leftarrow> int_add len MINEXTEND;
                 case malloc_bytes ed sz of
                   None \<Rightarrow> Some (-1, ed\<lparr>filename := path, start := NULL_buf\<rparr>)
                 | Some blk \<Rightarrow>
                     if len < 0 then None
                     else
                       Some (0, ed\<lparr>filename := path,
                                  start := (\<lambda>i. if 0 \<le> i \<and> i < len then bs ! nat i else blk i),
                                  gap := len,
                                  rest := len + MINEXTEND,
                                  endp := len + MINEXTEND,
                                  anchor := -1\<rparr>)
               }))"

partial_function (option) clear_undo_loop :: "undo_rec heap \<Rightarrow> addr option \<Rightarrow> undo_rec heap option" where
  "clear_undo_loop h p =
     (case p of
        None \<Rightarrow> Some h
      | Some a \<Rightarrow>
          (case deref h a of
             None \<Rightarrow> None
           | Some u \<Rightarrow> clear_undo_loop (free h a) (u_next u)))"

definition clear_undo :: "editor \<Rightarrow> editor option" where
  "clear_undo ed =
     map_option (\<lambda>h. ed\<lparr>undos := h, undohead := None, undotail := None, undoptr := None\<rparr>)
       (clear_undo_loop (undos ed) (undohead ed))"

text \<open>\<open>save_file\<close> returns its result code, the file system and the editor.\<close>

definition save_file :: "os \<Rightarrow> editor \<Rightarrow> (int \<times> os \<times> editor) option" where
  "save_file w ed =
     (if \<not> os_writable w (filename ed) then Some (-1, w, ed)
      else
        map_option
          (\<lambda>ed1. (0,
             w\<lparr>os_files := (os_files w)(filename ed \<mapsto>
                  map (start ed) [0..gap ed - 1] @ map (start ed) [rest ed..endp ed - 1])\<rparr>,
             ed1))
          (clear_undo (ed\<lparr>dirty := 0\<rparr>)))"

text \<open>
  The workspace: \<open>env.current\<close>, the store of the editors, the rest of \<open>struct env\<close>, and
  what the byte storage of a new editor reads as and how large a block it can get.
\<close>

record workspace =
  current :: "addr option"
  editors :: "editor heap"
  wenv :: env
  ws_fresh :: bytes
  ws_avail :: int

definition create_editor :: "workspace \<Rightarrow> (workspace \<times> addr) option" where
  "create_editor ws =
     (let a = length (editors ws) in
      if \<not> granted (ws_avail ws) SIZEOF_EDITOR then None
      else case current ws of
        None \<Rightarrow>
          Some (ws\<lparr>editors := editors ws @ [Some ((zero_editor (ws_fresh ws) (ws_avail ws))
                                \<lparr>ed_next := Some a, ed_prev := Some a\<rparr>)],
                   current := Some a\<rparr>, a)
      | Some c \<Rightarrow>
          do {
            cur \<leftarrow> deref (editors ws) c;
            n \<leftarrow> ed_next cur;
            let h1 = editors ws @ [Some ((zero_editor (ws_fresh ws) (ws_avail ws))
                                    \<lparr>ed_next := Some n, ed_prev := Some c\<rparr>)];
            nx \<leftarrow> deref h1 n;
            let h2 = heap_store h1 n (nx\<lparr>ed_prev := Some a\<rparr>);
            cur' \<leftarrow> deref h2 c;
            Some (ws\<lparr>editors := heap_store h2 c (cur'\<lparr>ed_next := Some a\<rparr>),
                     current := Some a\<rparr>, a)
          })"

definition delete_editor :: "workspace \<Rightarrow> addr \<Rightarrow> workspace option" where
  "delete_editor ws a =
     do {
       ed \<leftarrow> deref (editors ws) a;
       n \<leftarrow> ed_next ed;
       p \<leftarrow> ed_prev ed;
       let cur = (if n = a then None else Some p);
       nx \<leftarrow> deref (editors ws) n;
       let h1 = heap_store (editors ws) n (nx\<lparr>ed_prev := Some p\<rparr>);
       pv \<leftarrow> deref h1 p;
       let h2 = heap_store h1 p (pv\<lparr>ed_next := Some n\<rparr>);
       ed' \<leftarrow> deref h2 a;
       ed'' \<leftarrow> clear_undo ed';
       Some (ws\<lparr>current := cur, editors := free h2 a\<rparr>)
     }"

text \<open>The \<open>do \<dots> while\<close> loop of \<open>find_editor\<close>, after the file name has been canonicalised.\<close>

partial_function (option) find_editor_loop :: "editor heap \<Rightarrow> byte list \<Rightarrow> addr \<Rightarrow> addr \<Rightarrow> addr option option" where
  "find_editor_loop h fn first a =
     (case deref h a of
        None \<Rightarrow> None
      | Some ed \<Rightarrow>
          if fn = filename ed then Some (Some a)
          else
            (case ed_next ed of
               None \<Rightarrow> None
             | Some n \<Rightarrow> if n = first then Some None else find_editor_loop h fn first n))"

definition find_editor :: "os \<Rightarrow> workspace \<Rightarrow> byte list \<Rightarrow> addr option option" where
  "find_editor w ws fname =
     (case current ws of
        None \<Rightarrow> None
      | Some c \<Rightarrow>
          find_editor_loop (editors ws)
            (case os_realpath w fname of None \<Rightarrow> fname | Some path \<Rightarrow> path) c c)"

definition next_file :: "workspace \<Rightarrow> addr \<Rightarrow> (workspace \<times> addr) option" where
  "next_file ws a =
     do {
       ed \<leftarrow> deref (editors ws) a;
       n \<leftarrow> ed_next ed;
       nx \<leftarrow> deref (editors ws) n;
       Some (ws\<lparr>current := Some n, editors := heap_store (editors ws) n (nx\<lparr>refresh := 1\<rparr>)\<rparr>, n)
     }"

definition prev_file :: "workspace \<Rightarrow> addr \<Rightarrow> (workspace \<times> addr) option" where
  "prev_file ws a =
     do {
       ed \<leftarrow> deref (editors ws) a;
       p \<leftarrow> ed_prev ed;
       pv \<leftarrow> deref (editors ws) p;
       Some (ws\<lparr>current := Some p, editors := heap_store (editors ws) p (pv\<lparr>refresh := 1\<rparr>)\<rparr>, p)
     }"

declare clear_undo_loop.simps [code] find_editor_loop.simps [code]

section \<open>Editor commands\<close>

text \<open>\<open>display_message\<close> with its message already formatted.\<close>

definition display_message :: "tty \<Rightarrow> env \<Rightarrow> byte list \<Rightarrow> tty" where
  "display_message t e msg =
     outstr (outstr (outstr (gotoxy t 0 (lines e)) STATUS_COLOR) msg) (CLREOL @ TEXT_COLOR)"

text \<open>
  \<open>open_editor\<close> works on the editor at address \<open>a\<close> of the workspace. When the file does
  not load, the new editor is deleted and the current editor is redrawn.
\<close>

definition set_refresh :: "workspace \<Rightarrow> addr \<Rightarrow> workspace option" where
  "set_refresh ws a =
     map_option (\<lambda>ed. ws\<lparr>editors := heap_store (editors ws) a (ed\<lparr>refresh := 1\<rparr>)\<rparr>)
       (deref (editors ws) a)"

definition open_editor :: "os \<Rightarrow> tty \<Rightarrow> workspace \<Rightarrow> addr \<Rightarrow> (tty \<times> workspace) option" where
  "open_editor w t ws a =
     do {
       ed \<leftarrow> deref (editors ws) a;
       (r, e1, t1) \<leftarrow> prompt t (wenv ws) ed (ascii ''Open file: '');
       if \<not> r then map_option (Pair t1) (set_refresh (ws\<lparr>wenv := e1\<rparr>) a)
       else
         do {
           fname \<leftarrow> linebuf_string e1;
           found \<leftarrow> find_editor w (ws\<lparr>wenv := e1\<rparr>) fname;
           case found of
             Some b \<Rightarrow> map_option (Pair t1) (set_refresh (ws\<lparr>wenv := e1, current := Some b\<rparr>) b)
           | None \<Rightarrow>
               do {
                 (ws1, b) \<leftarrow> create_editor (ws\<lparr>wenv := e1\<rparr>);
                 new \<leftarrow> deref (editors ws1) b;
                 (rc, new1) \<leftarrow> load_file w new fname;
                 let ws2 = ws1\<lparr>editors := heap_store (editors ws1) b new1\<rparr>;
                 if rc < 0 then
                   do {
                     let t2 = display_message t1 e1
                                (ascii (''Error '' @ dec_int (os_errno w) @ '' opening '') @ fname
                                 @ ascii '' ('' @ os_strerror w (os_errno w) @ ascii '')'');
                     ws3 \<leftarrow> delete_editor ws2 b;
                     c \<leftarrow> current ws3;
                     map_option (Pair t2) (set_refresh ws3 c)
                   }
                 else map_option (Pair t1) (set_refresh ws2 b)
               }
         }
     }"

definition new_editor :: "workspace \<Rightarrow> workspace option" where
  "new_editor ws =
     do {
       (ws1, b) \<leftarrow> create_editor ws;
       new \<leftarrow> deref (editors ws1) b;
       let (rc, e1, new1) = new_file (wenv ws1) new [];
       Some (ws1\<lparr>wenv := e1, editors := heap_store (editors ws1) b (new1\<lparr>refresh := 1\<rparr>)\<rparr>)
     }"

text \<open>\<open>access(path, F_OK) == 0\<close>: the file exists.\<close>

definition file_exists :: "os \<Rightarrow> byte list \<Rightarrow> bool" where
  "file_exists w path = (os_files w path \<noteq> None)"

definition save_editor :: "os \<Rightarrow> tty \<Rightarrow> env \<Rightarrow> editor \<Rightarrow> (tty \<times> os \<times> env \<times> editor) option" where
  "save_editor w t e ed =
     (if dirty ed = 0 \<and> newfile ed = 0 then Some (t, w, e, ed)
      else
        do {
          (go, t1, e1, ed1) \<leftarrow>
            (if newfile ed \<noteq> 0 then
               do {
                 (r, e', t') \<leftarrow> prompt t e ed (ascii ''Save as: '');
                 if \<not> r then Some (False, t', e', ed\<lparr>refresh := 1\<rparr>)
                 else
                   do {
                     fname \<leftarrow> linebuf_string e';
                     if file_exists w fname then
                       (let t2 = display_message t' e' (ascii ''Overwrite '' @ fname @ ascii '' (y/n)? '');
                            (yes, t3) = ask t2
                        in if \<not> yes then Some (False, t3, e', ed\<lparr>refresh := 1\<rparr>)
                           else Some (True, t3, e', ed\<lparr>filename := fname, newfile := 0\<rparr>))
                     else Some (True, t', e', ed\<lparr>filename := fname, newfile := 0\<rparr>)
                   }
               }
             else Some (True, t, e, ed));
          if \<not> go then Some (t1, w, e1, ed1)
          else
            do {
              (rc, w1, ed2) \<leftarrow> save_file w ed1;
              Some ((if rc < 0 then
                       display_message t1 e1
                         (ascii (''Error '' @ dec_int (os_errno w) @ '' saving document ('')
                          @ os_strerror w (os_errno w) @ ascii '')'')
                     else t1),
                    w1, e1, ed2\<lparr>refresh := 1\<rparr>)
            }
        })"

text \<open>The loop of \<open>pipe_command\<close> reads the output of the command 512 bytes at a time.\<close>

function pipe_loop :: "editor \<Rightarrow> int \<Rightarrow> byte list \<Rightarrow> (editor \<times> int) option" where
  "pipe_loop ed pos bs =
     (if bs = [] then Some (ed, pos)
      else
        (case insert_text ed pos (\<lambda>i. take 512 bs ! nat i) (int (length (take 512 bs))) of
           None \<Rightarrow> None
         | Some ed1 \<Rightarrow> pipe_loop ed1 (pos + int (length (take 512 bs))) (drop 512 bs)))"
  by pat_completeness auto
termination
  by (relation "measure (\<lambda>(ed, pos, bs). length bs)") auto

definition pipe_command :: "os \<Rightarrow> tty \<Rightarrow> env \<Rightarrow> editor \<Rightarrow> (tty \<times> env \<times> editor) option" where
  "pipe_command w t e ed =
     do {
       (r, e1, t1) \<leftarrow> prompt t e ed (ascii ''Command: '');
       if \<not> r then Some (t1, e1, ed\<lparr>refresh := 1\<rparr>)
       else
         do {
           cmd \<leftarrow> linebuf_string e1;
           case os_popen w cmd of
             None \<Rightarrow>
               Some (display_message t1 e1
                       (ascii (''Error '' @ dec_int (os_errno w) @ '' running command ('')
                        @ os_strerror w (os_errno w) @ ascii '')''),
                     e1, ed\<lparr>refresh := 1\<rparr>)
           | Some bs \<Rightarrow>
               do {
                 (ed1, erased) \<leftarrow> erase_selection e1 ed;
                 (ed2, pos) \<leftarrow> pipe_loop ed1 (linepos ed1 + col ed1) bs;
                 ed3 \<leftarrow> moveto e1 ed2 pos False;
                 Some (t1, e1, ed3\<lparr>refresh := 1\<rparr>)
               }
         }
     }"

section \<open>Specification-level definitions\<close>

text \<open>A well-formed gap buffer: the gap lies inside the block.\<close>

definition wf_buf :: "editor \<Rightarrow> bool" where
  "wf_buf ed \<longleftrightarrow> 0 \<le> gap ed \<and> gap ed \<le> rest ed \<and> rest ed \<le> endp ed"

text \<open>An example buffer: the text \<open>hhiii\<close> with a gap of three bytes after the second byte.\<close>

definition example_buffer :: editor where
  "example_buffer =
     (zero_editor NULL_buf 1048576)
       \<lparr>start := (\<lambda>i. if i < 2 then 104 else 105), gap := 2, rest := 5, endp := 8\<rparr>"

definition byte_at :: "editor \<Rightarrow> int \<Rightarrow> byte" where
  "byte_at ed i = start ed (text_ptr ed i)"

text \<open>The logical content of a buffer: its bytes with the gap elided.\<close>

definition content :: "editor \<Rightarrow> byte list" where
  "content ed = map (\<lambda>i. byte_at ed (int i)) [0..<nat (text_length ed)]"

definition bytes_of :: "bytes \<Rightarrow> int \<Rightarrow> byte list" where
  "bytes_of buf n = map (\<lambda>i. buf (int i)) [0..<nat n]"

text \<open>
  The specification's reading of \<open>replace\<close> on a plain byte string: remove \<open>len\<close> bytes at
  \<open>pos\<close> and put \<open>ins\<close> in their place.
\<close>

definition string_replace :: "byte list \<Rightarrow> int \<Rightarrow> int \<Rightarrow> byte list \<Rightarrow> byte list" where
  "string_replace xs pos len ins = take (nat pos) xs @ ins @ drop (nat (pos + len)) xs"

text \<open>Two editors that differ at most in the undo log.\<close>

definition same_doc :: "editor \<Rightarrow> editor \<Rightarrow> bool" where
  "same_doc ed ed' \<longleftrightarrow>
     start ed' = start ed \<and> gap ed' = gap ed \<and> rest ed' = rest ed \<and> endp ed' = endp ed \<and>
     toppos ed' = toppos ed \<and> topline ed' = topline ed \<and> margin ed' = margin ed \<and>
     linepos ed' = linepos ed \<and> line ed' = line ed \<and> col ed' = col ed \<and>
     lastcol ed' = lastcol ed \<and> anchor ed' = anchor ed \<and> refresh ed' = refresh ed \<and>
     lineupdate ed' = lineupdate ed \<and> dirty ed' = dirty ed \<and> newfile ed' = newfile ed \<and>
     ed_next ed' = ed_next ed \<and> ed_prev ed' = ed_prev ed \<and> filename ed' = filename ed \<and>
     fresh ed' = fresh ed \<and> avail ed' = avail ed"

text \<open>
  A sequence of \<open>replace\<close> calls, each given by its arguments \<open>(pos, len, buf, bufsize, doundo)\<close>,
  and the same sequence applied to a plain byte string.
\<close>

type_synonym edit = "int \<times> int \<times> bytes \<times> int \<times> bool"

fun replace_all :: "editor \<Rightarrow> edit list \<Rightarrow> editor option" where
  "replace_all ed [] = Some ed"
| "replace_all ed ((pos, len, buf, bufsize, doundo) # es) =
     (case replace ed pos len buf bufsize doundo of
        None \<Rightarrow> None
      | Some ed' \<Rightarrow> replace_all ed' es)"

fun string_replace_all :: "byte list \<Rightarrow> edit list \<Rightarrow> byte list" where
  "string_replace_all xs [] = xs"
| "string_replace_all xs ((pos, len, buf, bufsize, doundo) # es) =
     string_replace_all (string_replace xs pos len (bytes_of buf bufsize)) es"

fun valid_edits :: "int \<Rightarrow> edit list \<Rightarrow> bool" where
  "valid_edits n [] = True"
| "valid_edits n ((pos, len, buf, bufsize, doundo) # es) =
     (0 \<le> pos \<and> 0 \<le> len \<and> pos + len \<le> n \<and> 0 \<le> bufsize \<and> valid_edits (n - len + bufsize) es)"

fun total_inserted :: "edit list \<Rightarrow> int" where
  "total_inserted [] = 0"
| "total_inserted ((pos, len, buf, bufsize, doundo) # es) = bufsize + total_inserted es"

fun total_erased :: "edit list \<Rightarrow> int" where
  "total_erased [] = 0"
| "total_erased ((pos, len, buf, bufsize, doundo) # es) = len + total_erased es"

definition edit_doundo :: "edit \<Rightarrow> bool" where
  "edit_doundo e = (case e of (pos, len, buf, bufsize, doundo) \<Rightarrow> doundo)"

text \<open>
  The undo log as a list: the records reached from \<open>undohead\<close> along the \<open>next\<close> pointers
  (at most as many as the store has cells), each shown as its position, its erased payload
  and its inserted payload.
\<close>

fun walk_next :: "undo_rec heap \<Rightarrow> nat \<Rightarrow> addr option \<Rightarrow> undo_rec list" where
  "walk_next h 0 p = []"
| "walk_next h (Suc n) p =
     (case p of
        None \<Rightarrow> []
      | Some a \<Rightarrow> (case deref h a of None \<Rightarrow> [] | Some u \<Rightarrow> u # walk_next h n (u_next u)))"

definition undo_payloads :: "undo_rec \<Rightarrow> int \<times> byte list \<times> byte list" where
  "undo_payloads u =
     (u_pos u, bytes_of (undobuf u) (u_erased u), bytes_of (redobuf u) (u_inserted u))"

definition undo_log :: "editor \<Rightarrow> (int \<times> byte list \<times> byte list) list" where
  "undo_log ed = map undo_payloads (walk_next (undos ed) (length (undos ed)) (undohead ed))"

text \<open>
  The scenario of typing \<open>abc\<close> and pressing backspace twice in a new, empty document on a
  terminal of 80 columns and 24 text lines. The allocator grants blocks of up to 1 MiB.
\<close>

definition term80x24 :: env where
  "term80x24 = \<lparr>clipboard = NULL_buf, clipsize = 0, search = None, linebuf = NULL_buf,
                 cols = 80, lines = 24, untitled = 0\<rparr>"

definition empty_document :: editor where
  "empty_document = snd (snd (new_file term80x24 (zero_editor NULL_buf 1048576) []))"

definition type_abc_backspace_twice :: "editor option" where
  "type_abc_backspace_twice =
     do {
       ed1 \<leftarrow> insert_char term80x24 empty_document (of_char CHR ''a'');
       ed2 \<leftarrow> insert_char term80x24 ed1 (of_char CHR ''b'');
       ed3 \<leftarrow> insert_char term80x24 ed2 (of_char CHR ''c'');
       ed4 \<leftarrow> backspace term80x24 ed3;
       backspace term80x24 ed4
     }"

text \<open>
  An operating system with one file for each of a few names, whose paths are already
  canonical, and an editor loaded from a file's bytes.
\<close>

definition files_os :: "(byte list \<times> byte list) list \<Rightarrow> os" where
  "files_os fs =
     \<lparr>os_realpath = Some, os_realpath_buf = (\<lambda>n. []), os_files = map_of fs, os_writable = (\<lambda>n. True),
      os_popen = (\<lambda>c. None), os_errno = 2, os_strerror = (\<lambda>n. [])\<rparr>"

definition loaded_document :: "byte list \<Rightarrow> editor" where
  "loaded_document bs =
     (case load_file (files_os [(ascii ''f'', bs)]) (zero_editor NULL_buf 1048576) (ascii ''f'') of
        None \<Rightarrow> zero_editor NULL_buf 1048576
      | Some (rc, ed) \<Rightarrow> ed)"

text \<open>
  Opening a document as \<open>main\<close> does for a file that loads: \<open>create_editor\<close>, then
  \<open>load_file\<close> into the new editor. \<open>current_name\<close> is the file name of the current editor.
\<close>

definition open_document :: "os \<Rightarrow> workspace \<Rightarrow> byte list \<Rightarrow> workspace option" where
  "open_document w ws name =
     do {
       (ws1, a) \<leftarrow> create_editor ws;
       ed \<leftarrow> deref (editors ws1) a;
       (rc, ed1) \<leftarrow> load_file w ed name;
       Some (ws1\<lparr>editors := heap_store (editors ws1) a ed1\<rparr>)
     }"

definition current_name :: "workspace \<Rightarrow> byte list option" where
  "current_name ws = do { c \<leftarrow> current ws; ed \<leftarrow> deref (editors ws) c; Some (filename ed) }"

definition empty_workspace :: workspace where
  "empty_workspace = \<lparr>current = None, editors = [], wenv = term80x24, ws_fresh = NULL_buf,
                       ws_avail = 1048576\<rparr>"

definition abc_os :: os where
  "abc_os = files_os [(ascii ''A'', []), (ascii ''B'', []), (ascii ''C'', [])]"

definition abc_opened :: "workspace option" where
  "abc_opened =
     do {
       ws1 \<leftarrow> open_document abc_os empty_workspace (ascii ''A'');
       ws2 \<leftarrow> open_document abc_os ws1 (ascii ''B'');
       open_document abc_os ws2 (ascii ''C'')
     }"

text \<open>Next-document and previous-document on the current editor.\<close>

definition next_document :: "workspace \<Rightarrow> workspace option" where
  "next_document ws = do { c \<leftarrow> current ws; map_option fst (next_file ws c) }"

definition prev_document :: "workspace \<Rightarrow> workspace option" where
  "prev_document ws = do { c \<leftarrow> current ws; map_option fst (prev_file ws c) }"

text \<open>
  A terminal on which the user types \<open>h\<close> and then Esc, and a document with the bytes
  \<open>hello hello\<close> and a newline, never saved, in which the first two bytes are selected.
\<close>

definition esc_tty :: tty where
  "esc_tty = \<lparr>tty_keys = [104, KEY_ESC], tty_chars = [], tty_out = []\<rparr>"

definition hello_doc :: editor where
  "hello_doc = loaded_document (ascii ''hello hello'' @ [10])"

definition selected_doc :: editor where
  "selected_doc = hello_doc\<lparr>anchor := 2, newfile := 1\<rparr>"

definition anchor_after :: "(tty \<times> env \<times> editor) option \<Rightarrow> int option" where
  "anchor_after r = (case r of None \<Rightarrow> None | Some (t, e, ed) \<Rightarrow> Some (anchor ed))"

text \<open>
  \<open>cursor_state\<close> shows the anchor, the absolute cursor position and the terminal output of
  a result of \<open>find_text\<close>; \<open>quiet\<close> forgets the output written so far.
\<close>

definition cursor_state :: "tty \<times> env \<times> editor \<Rightarrow> int \<times> int \<times> byte list" where
  "cursor_state r = (case r of (t, e, ed) \<Rightarrow> (anchor ed, linepos ed + col ed, tty_out t))"

definition quiet :: "tty \<times> env \<times> editor \<Rightarrow> tty \<times> env \<times> editor" where
  "quiet r = (case r of (t, e, ed) \<Rightarrow> (t\<lparr>tty_out := []\<rparr>, e, ed))"

definition find_first :: "(tty \<times> env \<times> editor) option" where
  "find_first =
     map_option quiet
       (find_text \<lparr>tty_keys = map uint (ascii ''hello'') @ [KEY_ENTER], tty_chars = [], tty_out = []\<rparr>
          term80x24 hello_doc False)"

definition find_again :: "(tty \<times> env \<times> editor) option \<Rightarrow> (tty \<times> env \<times> editor) option" where
  "find_again r = (case r of None \<Rightarrow> None | Some (t, e, ed) \<Rightarrow> find_text t e ed True)"

definition hello_no_newline :: editor where
  "hello_no_newline = loaded_document (ascii ''hello hello'')"


text \<open>
  What \<open>move_gap\<close> needs to return: a buffer whose block size is an \<open>int\<close>, and a gap of the
  requested size or a block that can be enlarged. The enlarged block holds the text and the
  requested gap, and at least \<open>MINEXTEND\<close> bytes more than the old block; its size must be
  an \<open>int\<close> and \<open>malloc\<close> must grant it.
\<close>

definition int_sized :: "editor \<Rightarrow> bool" where
  "int_sized ed \<longleftrightarrow> endp ed \<le> INT_MAX"

definition can_grow :: "editor \<Rightarrow> int \<Rightarrow> bool" where
  "can_grow ed m \<longleftrightarrow>
     text_length ed + m \<le> INT_MAX \<and> endp ed + MINEXTEND \<le> INT_MAX \<and>
     text_length ed + m \<le> avail ed \<and> endp ed + MINEXTEND \<le> avail ed"

definition room :: "editor \<Rightarrow> int \<Rightarrow> bool" where
  "room ed m \<longleftrightarrow> m \<le> rest ed - gap ed \<or> can_grow ed m"

text \<open>
  An upper bound of the block size after a sequence of edits: an edit enlarges the block
  by at most \<open>MINEXTEND\<close> and the bytes it inserts.
\<close>

fun block_bound :: "int \<Rightarrow> edit list \<Rightarrow> int" where
  "block_bound c [] = c"
| "block_bound c ((pos, len, buf, bufsize, doundo) # es) = block_bound (c + MINEXTEND + bufsize) es"
text \<open>
  The undo log as a doubly linked list in the store: \<open>as\<close> lists the addresses of its
  records from the oldest to the newest, each cell is allocated and points to its
  neighbours, \<open>undotail\<close> is the last address and \<open>undoptr\<close> the \<open>k\<close>-th (\<open>NULL\<close> for \<open>k = 0\<close>):
  \<open>k\<close> is the number of records that are applied.
\<close>

definition cell_ok :: "undo_rec heap \<Rightarrow> addr list \<Rightarrow> nat \<Rightarrow> bool" where
  "cell_ok h as i =
     (case deref h (as ! i) of
        None \<Rightarrow> False
      | Some u \<Rightarrow> u_prev u = (if i = 0 then None else Some (as ! (i - 1)))
                \<and> u_next u = (if Suc i = length as then None else Some (as ! Suc i)))"

definition dll :: "undo_rec heap \<Rightarrow> addr list \<Rightarrow> bool" where
  "dll h as \<longleftrightarrow> distinct as \<and> list_all (cell_ok h as) [0..<length as]"

definition wf_log :: "editor \<Rightarrow> addr list \<Rightarrow> nat \<Rightarrow> bool" where
  "wf_log ed as k \<longleftrightarrow>
     dll (undos ed) as \<and> k \<le> length as
     \<and> undotail ed = (if as = [] then None else Some (last as))
     \<and> undoptr ed = (if k = 0 then None else Some (as ! (k - 1)))"

text \<open>The payload of a record: everything but its links.\<close>

definition payload :: "undo_rec \<Rightarrow> int \<times> int \<times> int \<times> bytes \<times> bytes" where
  "payload u = (u_pos u, u_erased u, u_inserted u, undobuf u, redobuf u)"

text \<open>
  The record that \<open>replace\<close> makes of the newest record \<open>u\<close> when the edit is coalesced
  into it (the first three branches of ``Store undo information''), \<open>None\<close> when the edit
  gets a record of its own.
\<close>

definition coalesced :: "undo_rec \<Rightarrow> editor \<Rightarrow> int \<Rightarrow> int \<Rightarrow> bytes \<Rightarrow> int \<Rightarrow> undo_rec option" where
  "coalesced u ed pos len buf bufsize =
     (if len = 0 \<and> bufsize = 1 \<and> u_erased u = 0 \<and> pos = u_pos u + u_inserted u then
        Some (u\<lparr>redobuf := (redobuf u)(u_inserted u := buf 0), u_inserted := u_inserted u + 1\<rparr>)
      else if len = 1 \<and> bufsize = 0 \<and> u_inserted u = 0 \<and> pos = u_pos u then
        Some (u\<lparr>undobuf := (undobuf u)(u_erased u := word_of_int (get ed pos)),
                u_erased := u_erased u + 1\<rparr>)
      else if len = 1 \<and> bufsize = 0 \<and> u_inserted u = 0 \<and> pos = u_pos u - 1 then
        Some (u\<lparr>u_pos := u_pos u - 1,
                undobuf := (memmove (undobuf u) 1 0 (u_erased u))(0 := word_of_int (get ed pos)),
                u_erased := u_erased u + 1\<rparr>)
      else None)"

text \<open>Whether the edit is coalesced, read off the record at the undo/redo boundary.\<close>

definition coalesces :: "editor \<Rightarrow> int \<Rightarrow> int \<Rightarrow> bytes \<Rightarrow> int \<Rightarrow> bool" where
  "coalesces ed pos len buf bufsize =
     (case undoptr ed of
        None \<Rightarrow> False
      | Some a \<Rightarrow>
          (case deref (undos ed) a of
             None \<Rightarrow> False
           | Some u \<Rightarrow> coalesced u ed pos len buf bufsize \<noteq> None))"


text \<open>
  A document of 1 GiB in which every byte is the letter \<open>a\<close>, as \<open>load_file\<close> leaves it (the
  gap of \<open>MINEXTEND\<close> bytes follows the text, the cursor is at position 0, nothing is
  selected), on a machine where \<open>malloc\<close> grants blocks of up to 1 TiB; and an environment
  whose clipboard holds the same 1 GiB of text, as \<open>copy_selection\<close> leaves it after
  selecting all of that document.
\<close>

definition big_document :: editor where
  "big_document =
     (zero_editor NULL_buf 1099511627776)
       \<lparr>start := (\<lambda>i. 97), gap := 1073741824, rest := 1073741824 + MINEXTEND,
        endp := 1073741824 + MINEXTEND, anchor := -1\<rparr>"

definition big_clipboard :: env where
  "big_clipboard = term80x24\<lparr>clipboard := (\<lambda>i. 97), clipsize := 1073741824\<rparr>"

text \<open>The empty document at a time when \<open>malloc\<close> grants no more than 40000 bytes.\<close>

definition tight_document :: editor where
  "tight_document = empty_document\<lparr>avail := 40000\<rparr>"

text \<open>
  The example buffer after three more bytes have filled its gap, when \<open>malloc\<close> grants
  nothing.
\<close>

definition full_buffer :: editor where
  "full_buffer = example_buffer\<lparr>gap := 5, avail := 0\<rparr>"

text \<open>
  Whether the allocator grants what ``Store undo information'' asks for: one more byte for
  the payload of the record at the boundary when the edit is coalesced, and otherwise a
  \<open>struct undo\<close> and a block for each payload that is not empty.
\<close>

definition undo_room :: "editor \<Rightarrow> int \<Rightarrow> int \<Rightarrow> bytes \<Rightarrow> int \<Rightarrow> bool" where
  "undo_room ed pos len buf bufsize =
     (if coalesces ed pos len buf bufsize then
        (case undoptr ed of
           None \<Rightarrow> False
         | Some a \<Rightarrow>
             (case deref (undos ed) a of
                None \<Rightarrow> False
              | Some u \<Rightarrow> int_add (u_erased u + u_inserted u) 1 \<noteq> None
                          \<and> granted (avail ed) (u_erased u + u_inserted u + 1)))
      else
        granted (avail ed) SIZEOF_UNDO
        \<and> (if len > 0 then granted (avail ed) len else True)
        \<and> (if bufsize > 0 then granted (avail ed) bufsize else True))"

text \<open>
  The size of the payload of the record at the undo/redo boundary (0 without one), and
  what \<open>block_bound\<close> starts from: a bound of the block size and of that payload.
\<close>

definition tail_size :: "editor \<Rightarrow> int" where
  "tail_size ed =
     (case undoptr ed of
        None \<Rightarrow> 0
      | Some a \<Rightarrow> (case deref (undos ed) a of None \<Rightarrow> 0 | Some u \<Rightarrow> u_erased u + u_inserted u))"

definition memory_bound :: "editor \<Rightarrow> edit list \<Rightarrow> int" where
  "memory_bound ed es = block_bound (max (endp ed) (tail_size ed + 1)) es"
section \<open>Properties of the gap buffer\<close>

lemma to_int_id: "INT_MIN \<le> x \<Longrightarrow> x \<le> INT_MAX \<Longrightarrow> to_int x = x"
  by (simp add: to_int_def INT_MIN_def INT_MAX_def)

lemma to_int_range: "INT_MIN \<le> to_int x \<and> to_int x \<le> INT_MAX"
  by (simp add: to_int_def INT_MIN_def INT_MAX_def)

lemma to_int_eq_iff: "to_int x = x \<longleftrightarrow> INT_MIN \<le> x \<and> x \<le> INT_MAX"
  using to_int_range[of x] to_int_id[of x] by auto

lemma to_size_t_id: "0 \<le> x \<Longrightarrow> x \<le> INT_MAX \<Longrightarrow> to_size_t x = x"
  by (simp add: to_size_t_def INT_MAX_def)

lemma granted_int: "0 \<le> n \<Longrightarrow> n \<le> INT_MAX \<Longrightarrow> granted m n \<longleftrightarrow> n \<le> m"
  by (simp add: granted_def to_size_t_id) (simp add: INT_MAX_def PTRDIFF_MAX_def)

lemma malloc_bytes_int:
  "0 \<le> n \<Longrightarrow> n \<le> INT_MAX \<Longrightarrow>
   malloc_bytes ed n = (if n \<le> avail ed then Some (fresh ed) else None)"
  by (simp add: malloc_bytes_def granted_int)

lemma gapsize_id: "wf_buf ed \<Longrightarrow> int_sized ed \<Longrightarrow> to_int (rest ed - gap ed) = rest ed - gap ed"
  by (rule to_int_id) (auto simp: wf_buf_def int_sized_def INT_MIN_def INT_MAX_def)

text \<open>The two branches of \<open>move_gap\<close> on a well-formed buffer of \<open>int\<close> size.\<close>

lemma move_gap_in_place:
  assumes "wf_buf ed" "int_sized ed" "m \<le> rest ed - gap ed"
  shows "move_gap ed pos m =
     Some (if text_ptr ed pos \<noteq> rest ed then
             ed\<lparr>start :=
                  (if text_ptr ed pos < gap ed
                   then memmove (start ed) (text_ptr ed pos + (rest ed - gap ed)) (text_ptr ed pos)
                          (gap ed - text_ptr ed pos)
                   else memmove (start ed) (gap ed) (rest ed) (text_ptr ed pos - rest ed)),
                gap := pos, rest := pos + (rest ed - gap ed)\<rparr>
           else ed)"
  using assms gapsize_id[OF assms(1,2)]
  by (auto simp: move_gap_def Let_def wf_buf_def)

lemma move_gap_unfold:
  assumes "wf_buf ed" "int_sized ed" "\<not> m \<le> rest ed - gap ed"
  shows "move_gap ed pos m =
     int_add (rest ed - gap ed) MINEXTEND \<bind>
       (\<lambda>ext. malloc_bytes ed (to_int (endp ed - (rest ed - gap ed) + (if ext > m then ext else m))) \<bind>
         (\<lambda>nstart.
            if to_int (endp ed - (rest ed - gap ed) + (if ext > m then ext else m))
               \<noteq> endp ed - (rest ed - gap ed) + (if ext > m then ext else m) then None
            else Some (ed\<lparr>start :=
                    (if text_ptr ed pos < gap ed then
                       memcpy
                         (memcpy (memcpy nstart 0 (start ed) 0 pos)
                            (pos + (if ext > m then ext else m)) (start ed) (text_ptr ed pos)
                            (gap ed - text_ptr ed pos))
                         (to_int (endp ed - (rest ed - gap ed) + (if ext > m then ext else m))
                            - (endp ed - rest ed))
                         (start ed) (rest ed) (endp ed - rest ed)
                     else
                       memcpy
                         (memcpy (memcpy nstart 0 (start ed) 0 (gap ed))
                            (gap ed) (start ed) (rest ed) (text_ptr ed pos - rest ed))
                         (pos + (if ext > m then ext else m)) (start ed) (text_ptr ed pos)
                         (endp ed - text_ptr ed pos)),
                  gap := pos, rest := pos + (if ext > m then ext else m),
                  endp := to_int (endp ed - (rest ed - gap ed) + (if ext > m then ext else m))\<rparr>)))"
proof -
  have gi: "to_int (rest ed - gap ed) = rest ed - gap ed" using assms(1,2) by (rule gapsize_id)
  have m1: "(if m < 0 then 0 else m) = m"
    using assms(1,3) by (auto simp: wf_buf_def)
  show ?thesis
    unfolding move_gap_def Let_def gi m1 if_not_P[OF assms(3)] ..
qed

lemma move_gap_grow:
  assumes "wf_buf ed" "int_sized ed" "\<not> m \<le> rest ed - gap ed" "can_grow ed m"
  shows "move_gap ed pos m =
     Some (ed\<lparr>start :=
             (if text_ptr ed pos < gap ed then
                memcpy
                  (memcpy (memcpy (fresh ed) 0 (start ed) 0 pos)
                     (pos + (max m (endp ed + MINEXTEND - text_length ed))) (start ed) (text_ptr ed pos)
                     (gap ed - text_ptr ed pos))
                  (max (text_length ed + m) (endp ed + MINEXTEND) - (endp ed - rest ed))
                  (start ed) (rest ed) (endp ed - rest ed)
              else
                memcpy
                  (memcpy (memcpy (fresh ed) 0 (start ed) 0 (gap ed))
                     (gap ed) (start ed) (rest ed) (text_ptr ed pos - rest ed))
                  (pos + (max m (endp ed + MINEXTEND - text_length ed))) (start ed) (text_ptr ed pos)
                  (endp ed - text_ptr ed pos)),
           gap := pos, rest := pos + (max m (endp ed + MINEXTEND - text_length ed)),
           endp := max (text_length ed + m) (endp ed + MINEXTEND)\<rparr>)"
proof -
  define g where "g = rest ed - gap ed"
  define m' where "m' = (if g + MINEXTEND > m then g + MINEXTEND else m)"
  define n where "n = endp ed - g + m'"
  have b: "0 \<le> g" "g + MINEXTEND \<le> INT_MAX" "0 \<le> n" "n \<le> INT_MAX" "n \<le> avail ed"
    using assms(1,3,4)
    by (auto simp: wf_buf_def can_grow_def text_length_def MINEXTEND_def g_def m'_def n_def)
  have a: "int_add g MINEXTEND = Some (g + MINEXTEND)"
    using b by (simp add: int_add_def INT_MIN_def MINEXTEND_def)
  have n: "to_int n = n"
    using b by (intro to_int_id) (simp_all add: INT_MIN_def)
  have ma: "malloc_bytes ed n = Some (fresh ed)"
    using b by (simp add: malloc_bytes_int)
  have e: "m' = max m (endp ed + MINEXTEND - text_length ed)" "n = max (text_length ed + m) (endp ed + MINEXTEND)"
    by (auto simp: m'_def n_def g_def text_length_def)
  have "move_gap ed pos m =
      Some (ed\<lparr>start :=
                    (if text_ptr ed pos < gap ed then
                       memcpy
                         (memcpy (memcpy (fresh ed) 0 (start ed) 0 pos) (pos + m') (start ed) (text_ptr ed pos) (gap ed - text_ptr ed pos))
                         (n - (endp ed - rest ed)) (start ed) (rest ed) (endp ed - rest ed)
                     else
                       memcpy
                         (memcpy (memcpy (fresh ed) 0 (start ed) 0 (gap ed))
                            (gap ed) (start ed) (rest ed) (text_ptr ed pos - rest ed))
                         (pos + m') (start ed) (text_ptr ed pos) (endp ed - text_ptr ed pos)),
                  gap := pos, rest := pos + m', endp := n\<rparr>)"
    unfolding move_gap_unfold[OF assms(1,2,3)] g_def[symmetric] a bind.bind_lunit
      m'_def[symmetric] n_def[symmetric] n ma
    by simp
  then show ?thesis unfolding e .
qed

lemma move_gap_fails:
  assumes "wf_buf ed" "int_sized ed" "\<not> room ed m"
  shows "move_gap ed pos m = None"
proof -
  define g where "g = rest ed - gap ed"
  define m' where "m' = (if g + MINEXTEND > m then g + MINEXTEND else m)"
  define n where "n = endp ed - g + m'"
  have m0: "\<not> m \<le> rest ed - gap ed"
    using assms(3) by (auto simp: room_def)
  have b: "0 \<le> g" "0 \<le> n" "n = max (text_length ed + m) (endp ed + MINEXTEND)"
    using assms(1) m0 by (auto simp: wf_buf_def text_length_def MINEXTEND_def g_def m'_def n_def)
  have c: "\<not> (n \<le> INT_MAX \<and> n \<le> avail ed)"
    using assms(3) b(3) by (auto simp: room_def can_grow_def)
  note u = move_gap_unfold[OF assms(1,2) m0, of pos, unfolded g_def[symmetric]]
  show ?thesis
  proof (cases "int_add g MINEXTEND")
    case None
    then show ?thesis unfolding u by simp
  next
    case (Some ext)
    then have e: "ext = g + MINEXTEND" by (auto simp: int_add_def split: if_splits)
    note u' = u[unfolded Some e bind.bind_lunit m'_def[symmetric] n_def[symmetric]]
    show ?thesis
    proof (cases "n \<le> INT_MAX")
      case True
      then have "malloc_bytes ed n = None" using c b by (simp add: malloc_bytes_int)
      moreover have "to_int n = n" using True b by (intro to_int_id) (simp_all add: INT_MIN_def)
      ultimately show ?thesis unfolding u' by simp
    next
      case False
      then have "to_int n \<noteq> n" using to_int_eq_iff[of n] by simp
      then show ?thesis unfolding u'
        by (simp split: Option.bind_splits)
    qed
  qed
qed

lemma move_gap_returns:
  "wf_buf ed \<Longrightarrow> int_sized ed \<Longrightarrow> room ed m \<Longrightarrow> \<exists>ed'. move_gap ed pos m = Some ed'"
  by (cases "m \<le> rest ed - gap ed") (auto simp: move_gap_in_place move_gap_grow room_def)

lemma move_gap_None_iff:
  "wf_buf ed \<Longrightarrow> int_sized ed \<Longrightarrow> move_gap ed pos m = None \<longleftrightarrow> \<not> room ed m"
  using move_gap_returns[of ed m pos] move_gap_fails[of ed m pos] by auto

lemma move_gap_cases:
  assumes "wf_buf ed" "int_sized ed" "move_gap ed pos m = Some ed'"
  obtains (in_place) "m \<le> rest ed - gap ed"
    "ed' = (if text_ptr ed pos \<noteq> rest ed then
             ed\<lparr>start :=
                  (if text_ptr ed pos < gap ed
                   then memmove (start ed) (text_ptr ed pos + (rest ed - gap ed)) (text_ptr ed pos)
                          (gap ed - text_ptr ed pos)
                   else memmove (start ed) (gap ed) (rest ed) (text_ptr ed pos - rest ed)),
                gap := pos, rest := pos + (rest ed - gap ed)\<rparr>
           else ed)"
  | (grow) "\<not> m \<le> rest ed - gap ed" "can_grow ed m"
    "ed' = ed\<lparr>start :=
             (if text_ptr ed pos < gap ed then
                memcpy
                  (memcpy (memcpy (fresh ed) 0 (start ed) 0 pos)
                     (pos + (max m (endp ed + MINEXTEND - text_length ed))) (start ed) (text_ptr ed pos)
                     (gap ed - text_ptr ed pos))
                  (max (text_length ed + m) (endp ed + MINEXTEND) - (endp ed - rest ed))
                  (start ed) (rest ed) (endp ed - rest ed)
              else
                memcpy
                  (memcpy (memcpy (fresh ed) 0 (start ed) 0 (gap ed))
                     (gap ed) (start ed) (rest ed) (text_ptr ed pos - rest ed))
                  (pos + (max m (endp ed + MINEXTEND - text_length ed))) (start ed) (text_ptr ed pos)
                  (endp ed - text_ptr ed pos)),
           gap := pos, rest := pos + (max m (endp ed + MINEXTEND - text_length ed)),
           endp := max (text_length ed + m) (endp ed + MINEXTEND)\<rparr>"
proof (cases "m \<le> rest ed - gap ed")
  case True
  then show ?thesis using assms in_place by (simp add: move_gap_in_place)
next
  case False
  have "room ed m" using assms move_gap_fails[of ed m pos] by auto
  then have c: "can_grow ed m" using False by (simp add: room_def)
  show ?thesis using assms False c grow by (simp add: move_gap_grow)
qed

lemma move_gap_wf:
  assumes "wf_buf ed" "int_sized ed" "0 \<le> pos" "pos \<le> text_length ed" "move_gap ed pos m = Some ed'"
  shows "wf_buf ed' \<and> int_sized ed' \<and> text_length ed' = text_length ed \<and> gap ed' = pos
    \<and> m \<le> rest ed' - gap ed' \<and> avail ed' = avail ed"
  using assms(1,2,5)
proof (cases rule: move_gap_cases)
  case in_place
  then show ?thesis
    using assms(1-4)
    by (auto simp: wf_buf_def int_sized_def text_ptr_def text_length_def)
next
  case grow
  then show ?thesis
    using assms(1-4)
    by (auto simp: wf_buf_def int_sized_def can_grow_def text_ptr_def text_length_def MINEXTEND_def)
qed

lemma move_gap_get_in_place:
  assumes "wf_buf ed" "0 \<le> pos" "pos \<le> text_length ed" "0 \<le> p"
    "ed' = (if text_ptr ed pos \<noteq> rest ed then
             ed\<lparr>start :=
                  (if text_ptr ed pos < gap ed
                   then memmove (start ed) (text_ptr ed pos + (rest ed - gap ed)) (text_ptr ed pos)
                          (gap ed - text_ptr ed pos)
                   else memmove (start ed) (gap ed) (rest ed) (text_ptr ed pos - rest ed)),
                gap := pos, rest := pos + (rest ed - gap ed)\<rparr>
           else ed)"
  shows "get ed' p = get ed p" "p < text_length ed \<Longrightarrow> byte_at ed' p = byte_at ed p"
  using assms
  by (auto simp: wf_buf_def text_ptr_def text_length_def get_def Let_def byte_at_def
        memcpy_def memmove_def algebra_simps)

lemma move_gap_get_grow:
  assumes "wf_buf ed" "0 \<le> pos" "pos \<le> text_length ed" "0 \<le> p"
    "\<not> m \<le> rest ed - gap ed"
    "ed' = ed\<lparr>start :=
             (if text_ptr ed pos < gap ed then
                memcpy
                  (memcpy (memcpy (fresh ed) 0 (start ed) 0 pos)
                     (pos + (max m (endp ed + MINEXTEND - text_length ed))) (start ed) (text_ptr ed pos)
                     (gap ed - text_ptr ed pos))
                  (max (text_length ed + m) (endp ed + MINEXTEND) - (endp ed - rest ed))
                  (start ed) (rest ed) (endp ed - rest ed)
              else
                memcpy
                  (memcpy (memcpy (fresh ed) 0 (start ed) 0 (gap ed))
                     (gap ed) (start ed) (rest ed) (text_ptr ed pos - rest ed))
                  (pos + (max m (endp ed + MINEXTEND - text_length ed))) (start ed) (text_ptr ed pos)
                  (endp ed - text_ptr ed pos)),
           gap := pos, rest := pos + (max m (endp ed + MINEXTEND - text_length ed)),
           endp := max (text_length ed + m) (endp ed + MINEXTEND)\<rparr>"
  shows "get ed' p = get ed p" "p < text_length ed \<Longrightarrow> byte_at ed' p = byte_at ed p"
proof -
  define m' where "m' = max m (endp ed + MINEXTEND - text_length ed)"
  define n where "n = max (text_length ed + m) (endp ed + MINEXTEND)"
  have mn: "n = text_length ed + m'" "0 < m'" "rest ed - gap ed < m'"
    using assms(1,5) by (auto simp: m'_def n_def wf_buf_def text_length_def MINEXTEND_def)
  note e = assms(6)[unfolded m'_def[symmetric] n_def[symmetric]]
  have f: "gap ed' = pos" "rest ed' = pos + m'" "endp ed' = n"
    by (simp_all add: e)
  show "get ed' p = get ed p"
  proof (cases "p < text_length ed")
    case False
    then show ?thesis using assms(1-4) mn f
      by (auto simp: get_def Let_def text_ptr_def text_length_def wf_buf_def)
  next
    case True
    show ?thesis
    proof (cases "pos < gap ed")
      case True
      then have s: "start ed' = memcpy
                  (memcpy (memcpy (fresh ed) 0 (start ed) 0 pos)
                     (pos + m') (start ed) pos (gap ed - pos))
                  (n - (endp ed - rest ed)) (start ed) (rest ed) (endp ed - rest ed)"
        using assms(1-3) by (simp add: e text_ptr_def)
      show ?thesis using \<open>p < text_length ed\<close> True assms(1-4) mn f
        by (auto simp: get_def Let_def text_ptr_def text_length_def wf_buf_def s memcpy_def algebra_simps)
    next
      case False
      then have s: "start ed' = memcpy
                  (memcpy (memcpy (fresh ed) 0 (start ed) 0 (gap ed))
                     (gap ed) (start ed) (rest ed) (pos - gap ed))
                  (pos + m') (start ed) (pos + (rest ed - gap ed)) (endp ed - (pos + (rest ed - gap ed)))"
        using assms(1-3) by (simp add: e text_ptr_def wf_buf_def)
      show ?thesis using \<open>p < text_length ed\<close> False assms(1-4) mn f
        by (auto simp: get_def Let_def text_ptr_def text_length_def wf_buf_def s memcpy_def algebra_simps)
    qed
  qed
  moreover assume "p < text_length ed"
  ultimately have "uint (byte_at ed' p) = uint (byte_at ed p)"
    using assms(1-4) mn f
    by (auto simp: get_def Let_def byte_at_def text_ptr_def text_length_def wf_buf_def
        split: if_splits)
  then show "byte_at ed' p = byte_at ed p"
    by (simp add: word_uint_eq_iff)
qed

lemma move_gap_get:
  assumes "wf_buf ed" "int_sized ed" "0 \<le> pos" "pos \<le> text_length ed" "move_gap ed pos m = Some ed'"
    "0 \<le> p"
  shows "get ed' p = get ed p"
  using assms(1,2,5)
proof (cases rule: move_gap_cases)
  case in_place
  show ?thesis using assms(1,3,4,6) in_place(2) by (rule move_gap_get_in_place)
next
  case grow
  show ?thesis using assms(1,3,4,6) grow(1,3) by (rule move_gap_get_grow)
qed

lemma move_gap_byte_at:
  assumes "wf_buf ed" "int_sized ed" "0 \<le> pos" "pos \<le> text_length ed" "move_gap ed pos m = Some ed'"
    "0 \<le> p" "p < text_length ed"
  shows "byte_at ed' p = byte_at ed p"
  using assms(1,2,5)
proof (cases rule: move_gap_cases)
  case in_place
  show ?thesis using assms(1,3,4,6) in_place(2) assms(7) by (rule move_gap_get_in_place)
next
  case grow
  show ?thesis using assms(1,3,4,6) grow(1,3) assms(7) by (rule move_gap_get_grow)
qed

lemma move_gap_endp:
  assumes "wf_buf ed" "int_sized ed" "move_gap ed pos m = Some ed'"
  shows "endp ed' = endp ed \<or> endp ed' = max (text_length ed + m) (endp ed + MINEXTEND)"
  using assms
  by (cases rule: move_gap_cases) auto

text \<open>\<open>move_gap\<close> changes the text block and its three pointers only.\<close>

lemma move_gap_frame:
  assumes "move_gap ed pos m = Some ed'"
  shows "\<exists>s g r e. ed' = ed\<lparr>start := s, gap := g, rest := r, endp := e\<rparr>"
proof (cases "(if m < 0 then 0 else m) \<le> to_int (rest ed - gap ed)")
  case True
  then have "ed' = ed\<lparr>start := start ed', gap := gap ed', rest := rest ed', endp := endp ed'\<rparr>"
    using assms by (auto simp: move_gap_def Let_def split: if_splits)
  then show ?thesis by blast
next
  case False
  then have "ed' = ed\<lparr>start := start ed', gap := gap ed', rest := rest ed', endp := endp ed'\<rparr>"
    using assms by (auto simp: move_gap_def Let_def split: if_splits Option.bind_splits)
  then show ?thesis by blast
qed

lemma close_gap_cases:
  assumes "close_gap ed = Some ed'"
  obtains ed1 where "move_gap ed (text_length ed) 1 = Some ed1"
    "ed' = ed1\<lparr>start := (start ed1)(text_length ed := 0)\<rparr>"
  using assms by (auto simp: close_gap_def Let_def)

lemma close_gap_returns:
  "wf_buf ed \<Longrightarrow> int_sized ed \<Longrightarrow> room ed 1 \<Longrightarrow> \<exists>ed'. close_gap ed = Some ed'"
  using move_gap_returns[of ed 1 "text_length ed"] by (auto simp: close_gap_def Let_def)

lemma close_gap_props:
  assumes "wf_buf ed" "int_sized ed" "close_gap ed = Some ed'"
  shows "text_length ed' = text_length ed \<and> gap ed' = text_length ed
       \<and> start ed' (text_length ed) = 0
       \<and> (\<forall>p. 0 \<le> p \<and> p < text_length ed \<longrightarrow> get ed' p = get ed p)"
proof -
  let ?n = "text_length ed"
  from assms(3) obtain ed1 where m: "move_gap ed ?n 1 = Some ed1"
    and e: "ed' = ed1\<lparr>start := (start ed1)(?n := 0)\<rparr>"
    by (rule close_gap_cases)
  have n0: "0 \<le> ?n"
    using assms(1) by (simp add: wf_buf_def text_length_def)
  note w = move_gap_wf[OF assms(1,2) n0 order_refl m]
  have g: "\<And>p. 0 \<le> p \<Longrightarrow> get ed1 p = get ed p"
    using assms(1,2) n0 m by (intro move_gap_get) simp_all
  have "\<And>p. 0 \<le> p \<Longrightarrow> p < ?n \<Longrightarrow> get ed' p = get ed1 p"
    using w by (simp add: e get_def text_ptr_def)
  with g w show ?thesis
    by (simp add: e text_length_def)
qed

lemma replace_text_cases:
  assumes "replace_text ed pos len buf bufsize = Some ed'"
  obtains (edge) "bufsize = 0" "pos \<le> gap ed" "gap ed \<le> pos + len"
      "ed' = ed\<lparr>rest := rest ed + (len - (gap ed - pos)), gap := pos, dirty := 1\<rparr>"
  | (move) ed1 where "\<not> (bufsize = 0 \<and> pos \<le> gap ed \<and> gap ed \<le> pos + len)"
      "move_gap ed (pos + len) (bufsize - len) = Some ed1"
      "ed' = ed1\<lparr>start := memcpy (start ed1) pos buf 0 bufsize, gap := pos + bufsize, dirty := 1\<rparr>"
  using assms by (auto simp: replace_text_def split: if_splits)

lemma replace_text_returns:
  assumes "wf_buf ed" "int_sized ed" "room ed (bufsize - len)"
  shows "\<exists>ed'. replace_text ed pos len buf bufsize = Some ed'"
  using move_gap_returns[OF assms, of "pos + len"]
  by (auto simp: replace_text_def)

lemma replace_text_None_iff:
  assumes "wf_buf ed" "int_sized ed"
  shows "replace_text ed pos len buf bufsize = None \<longleftrightarrow>
     \<not> (bufsize = 0 \<and> pos \<le> gap ed \<and> gap ed \<le> pos + len) \<and> \<not> room ed (bufsize - len)"
  using move_gap_None_iff[OF assms, of "pos + len" "bufsize - len"]
  by (auto simp: replace_text_def)


lemma replace_text_wf:
  assumes "wf_buf ed" "int_sized ed" "0 \<le> pos" "0 \<le> len" "pos + len \<le> text_length ed"
    "0 \<le> bufsize" "replace_text ed pos len buf bufsize = Some ed'"
  shows "wf_buf ed' \<and> int_sized ed' \<and> text_length ed' = text_length ed - len + bufsize
       \<and> avail ed' = avail ed \<and> endp ed' \<le> endp ed + MINEXTEND + bufsize"
  using assms(7)
proof (cases rule: replace_text_cases)
  case edge
  then show ?thesis using assms(1-6)
    by (auto simp: wf_buf_def int_sized_def text_length_def MINEXTEND_def)
next
  case (move ed1)
  have p: "0 \<le> pos + len" using assms by simp
  note w = move_gap_wf[OF assms(1,2) p assms(5) move(2)]
  have "endp ed1 \<le> endp ed + MINEXTEND + bufsize"
    using move_gap_endp[OF assms(1,2) move(2)] assms(1,4,6)
    by (auto simp: wf_buf_def text_length_def MINEXTEND_def)
  then show ?thesis using w assms(3-6)
    by (auto simp: move(3) wf_buf_def int_sized_def text_length_def)
qed

lemma replace_text_byte_at:
  assumes "wf_buf ed" "int_sized ed" "0 \<le> pos" "0 \<le> len" "pos + len \<le> text_length ed"
    "0 \<le> bufsize" "replace_text ed pos len buf bufsize = Some ed'"
    "0 \<le> i" "i < text_length ed - len + bufsize"
  shows "byte_at ed' i =
     (if i < pos then byte_at ed i else if i < pos + bufsize then buf (i - pos)
      else byte_at ed (i - bufsize + len))"
  using assms(7)
proof (cases rule: replace_text_cases)
  case edge
  then show ?thesis using assms(1-6,8,9)
    by (auto simp: byte_at_def text_ptr_def wf_buf_def text_length_def algebra_simps)
next
  case (move m)
  have p: "0 \<le> pos + len" using assms by simp
  note w = move_gap_wf[OF assms(1,2) p assms(5) move(2)]
  have g: "gap m = pos + len" and gs: "bufsize - len \<le> rest m - gap m" and wm: "wf_buf m"
    using w by simp_all
  have b: "\<And>q. 0 \<le> q \<Longrightarrow> q < text_length ed \<Longrightarrow> byte_at m q = byte_at ed q"
    using assms(1,2) p assms(5) move(2) by (rule move_gap_byte_at)
  note r = move(3)
  show ?thesis
  proof (cases "i < pos")
    case True
    then have "byte_at ed' i = byte_at m i"
      using assms g by (simp add: r byte_at_def text_ptr_def memcpy_def)
    then show ?thesis using True b assms by simp
  next
    case nlt: False
    show ?thesis
    proof (cases "i < pos + bufsize")
      case True
      then show ?thesis using nlt assms
        by (simp add: r byte_at_def text_ptr_def memcpy_def)
    next
      case False
      then have "byte_at ed' i = byte_at m (i - bufsize + len)"
        using assms g gs wm nlt
        by (simp add: r byte_at_def text_ptr_def memcpy_def wf_buf_def algebra_simps)
      then show ?thesis using False nlt b[of "i - bufsize + len"] assms by simp
    qed
  qed
qed

lemma length_content [simp]: "length (content ed) = nat (text_length ed)"
  by (simp add: content_def)

lemma length_bytes_of [simp]: "length (bytes_of buf n) = nat n"
  by (simp add: bytes_of_def)

lemma content_nth: "i < nat (text_length ed) \<Longrightarrow> content ed ! i = byte_at ed (int i)"
  by (simp add: content_def)

lemma replace_text_content:
  assumes "wf_buf ed" "int_sized ed" "0 \<le> pos" "0 \<le> len" "pos + len \<le> text_length ed"
    "0 \<le> bufsize" "replace_text ed pos len buf bufsize = Some ed'"
  shows "content ed' = string_replace (content ed) pos len (bytes_of buf bufsize)"
proof (rule nth_equalityI)
  note l = replace_text_wf[OF assms, THEN conjunct2, THEN conjunct2, THEN conjunct1]
  show "length (content ed') = length (string_replace (content ed) pos len (bytes_of buf bufsize))"
    using assms(1-6) by (simp add: l string_replace_def)
next
  note l = replace_text_wf[OF assms, THEN conjunct2, THEN conjunct2, THEN conjunct1]
  fix i assume "i < length (content ed')"
  then have i: "int i < text_length ed - len + bufsize"
    by (simp add: l)
  have "content ed' ! i = byte_at ed' (int i)"
    using i by (simp add: content_nth l)
  also have "\<dots> = (if int i < pos then byte_at ed (int i) else if int i < pos + bufsize then buf (int i - pos)
      else byte_at ed (int i - bufsize + len))"
    using assms i by (intro replace_text_byte_at) simp_all
  also have "\<dots> = string_replace (content ed) pos len (bytes_of buf bufsize) ! i"
  proof -
    consider "int i < pos" | "pos \<le> int i" "int i < pos + bufsize" | "pos + bufsize \<le> int i"
      by linarith
    then show ?thesis
    proof cases
      case 1
      then show ?thesis using assms(1-6)
        by (simp add: string_replace_def nth_append content_nth)
    next
      case 2
      then have "i - nat pos < nat bufsize" "\<not> i < nat pos" using assms(1-6) by linarith+
      moreover have "int (i - nat pos) = int i - pos" using 2 assms(1-6) by linarith
      moreover have "min (nat (text_length ed)) (nat pos) = nat pos" using assms(1-6) by linarith
      ultimately show ?thesis using 2 assms(1-6)
        by (simp add: string_replace_def nth_append bytes_of_def)
    next
      case 3
      have m: "min (nat (text_length ed)) (nat pos) = nat pos" using assms(1-6) by linarith
      have a: "\<not> i < nat pos" "\<not> i - nat pos < nat bufsize" using 3 assms(1-6) by linarith+
      have b: "nat (pos + len) + (i - nat pos - nat bufsize) < nat (text_length ed)"
        using 3 assms(1-6) i by linarith
      define j where "j = nat (pos + len) + (i - nat pos - nat bufsize)"
      have c: "int j = int i - bufsize + len"
        using 3 assms(1-6) by (simp add: j_def)
      have "string_replace (content ed) pos len (bytes_of buf bufsize) ! i = content ed ! j"
        using a m b by (simp add: string_replace_def nth_append j_def)
      also have "\<dots> = byte_at ed (int j)"
        using b by (simp add: content_nth j_def)
      finally show ?thesis using 3 assms(1-6) c by simp
    qed
  qed
  finally show "content ed' ! i =
     string_replace (content ed) pos len (bytes_of buf bufsize) ! i" .
qed

lemma text_ptr_bounds:
  "wf_buf ed \<Longrightarrow> 0 \<le> p \<Longrightarrow> p < text_length ed \<Longrightarrow> text_ptr ed p < endp ed"
  by (auto simp: wf_buf_def text_ptr_def text_length_def)

lemma text_ptr_step:
  "wf_buf ed \<Longrightarrow> 0 \<le> pos \<Longrightarrow> pos < text_length ed \<Longrightarrow>
   (if text_ptr ed pos + 1 = gap ed then rest ed else text_ptr ed pos + 1) = text_ptr ed (pos + 1)
   \<and> text_ptr ed pos \<noteq> endp ed"
  by (auto simp: wf_buf_def text_ptr_def text_length_def)

lemma copy_loop_spec:
  "wf_buf ed \<Longrightarrow> 0 \<le> pos \<Longrightarrow> pos + int n \<le> text_length ed \<Longrightarrow>
   copy_loop ed buf k (text_ptr ed pos) (int n) =
     ((\<lambda>i. if k \<le> i \<and> i < k + int n then byte_at ed (pos + (i - k)) else buf i), k + int n)"
proof (induction n arbitrary: buf k pos)
  case 0
  then show ?case by (subst copy_loop.simps) (auto simp: fun_eq_iff)
next
  case (Suc n)
  have s: "(if text_ptr ed pos + 1 = gap ed then rest ed else text_ptr ed pos + 1) = text_ptr ed (pos + 1)"
    "text_ptr ed pos \<noteq> endp ed"
    using text_ptr_step[of ed pos] Suc.prems by auto
  have ih: "copy_loop ed (buf(k := start ed (text_ptr ed pos))) (k + 1) (text_ptr ed (pos + 1)) (int n) =
     ((\<lambda>i. if k + 1 \<le> i \<and> i < k + 1 + int n then byte_at ed (pos + 1 + (i - (k + 1)))
            else (buf(k := start ed (text_ptr ed pos))) i), k + 1 + int n)"
    using Suc.prems by (intro Suc.IH) auto
  have "copy_loop ed buf k (text_ptr ed pos) (int (Suc n)) =
        copy_loop ed (buf(k := start ed (text_ptr ed pos))) (k + 1) (text_ptr ed (pos + 1)) (int n)"
    by (subst copy_loop.simps) (use s in \<open>simp del: copy_loop.simps\<close>)
  also note ih
  finally show ?case
    by (auto simp: fun_eq_iff byte_at_def algebra_simps)
qed

lemma copy_whole:
  assumes "wf_buf ed"
  shows "snd (copy ed buf 0 (text_length ed)) = text_length ed"
    and "bytes_of (fst (copy ed buf 0 (text_length ed))) (text_length ed) = content ed"
proof -
  have n: "0 \<le> text_length ed" using assms by (simp add: wf_buf_def text_length_def)
  have "copy ed buf 0 (text_length ed) =
      ((\<lambda>i. if 0 \<le> i \<and> i < 0 + int (nat (text_length ed)) then byte_at ed (0 + (i - 0)) else buf i),
       0 + int (nat (text_length ed)))"
    unfolding copy_def using copy_loop_spec[of ed 0 "nat (text_length ed)" buf 0] assms n by simp
  then show "snd (copy ed buf 0 (text_length ed)) = text_length ed"
    and "bytes_of (fst (copy ed buf 0 (text_length ed))) (text_length ed) = content ed"
    using n by (auto simp: bytes_of_def content_def)
qed

lemma same_doc_refl [simp]: "same_doc ed ed"
  by (simp add: same_doc_def)

lemma same_doc_trans: "same_doc a b \<Longrightarrow> same_doc b c \<Longrightarrow> same_doc a c"
  by (simp add: same_doc_def)

lemma reset_undo_same_doc: "reset_undo ed = Some ed' \<Longrightarrow> same_doc ed ed'"
proof (induction rule: reset_undo.raw_induct[rotated 1, consumes 1])
  case (1 reset_undo ed ed')
  show ?case
    using 1(2)
    by (auto split: if_splits option.splits dest!: 1(1) simp: same_doc_def)
qed

lemma new_undo_same_doc: "new_undo ed pos len buf bufsize = Some ed' \<Longrightarrow> same_doc ed ed'"
  by (auto simp: new_undo_def Let_def same_doc_def split: option.splits Option.bind_splits)

lemma same_doc_undos [simp]: "same_doc ed (ed\<lparr>undos := h\<rparr>)"
  by (simp add: same_doc_def)

lemma store_undo_same_doc:
  assumes "store_undo ed pos len buf bufsize = Some ed'"
  shows "same_doc ed ed'"
proof -
  from assms obtain ed1 where r: "reset_undo ed = Some ed1"
    by (auto simp: store_undo_def split: Option.bind_splits)
  then have s1: "same_doc ed ed1" by (rule reset_undo_same_doc)
  have "same_doc ed1 ed'"
  proof (cases "undotail ed1")
    case None
    then show ?thesis using assms r by (simp add: store_undo_def new_undo_same_doc)
  next
    case (Some a)
    then obtain u where u: "deref (undos ed1) a = Some u"
      using assms r by (auto simp: store_undo_def split: Option.bind_splits)
    show ?thesis
      using assms r Some u
      by (auto simp: store_undo_def new_undo_same_doc split: if_splits Option.bind_splits)
  qed
  with s1 show ?thesis by (rule same_doc_trans)
qed

lemma same_doc_buf:
  "same_doc ed ed' \<Longrightarrow> wf_buf ed' = wf_buf ed \<and> text_length ed' = text_length ed
     \<and> content ed' = content ed \<and> text_ptr ed' = text_ptr ed \<and> get ed' = get ed
     \<and> byte_at ed' = byte_at ed"
  by (auto simp: same_doc_def wf_buf_def text_length_def content_def byte_at_def text_ptr_def
      get_def Let_def intro!: ext)

lemma same_doc_sized: "same_doc ed ed' \<Longrightarrow> int_sized ed' = int_sized ed \<and> avail ed' = avail ed
     \<and> room ed' = room ed \<and> endp ed' = endp ed"
  by (auto simp: same_doc_def int_sized_def room_def can_grow_def text_length_def intro!: ext)

lemma replace_cases:
  assumes "replace ed pos len buf bufsize doundo = Some ed'"
  obtains ed1 where "same_doc ed ed1" "replace_text ed1 pos len buf bufsize = Some ed'"
    "doundo \<Longrightarrow> store_undo ed pos len buf bufsize = Some ed1" "\<not> doundo \<Longrightarrow> ed1 = ed"
  using assms
  by (auto simp: replace_def split: if_splits Option.bind_splits dest: store_undo_same_doc)

lemma replace_no_undo: "replace ed pos len buf bufsize False = replace_text ed pos len buf bufsize"
  by (simp add: replace_def)

lemma erase_selection_none:
  "\<not> fst (get_selection ed) \<Longrightarrow> erase_selection e ed = Some (ed, False)"
  by (auto simp: erase_selection_def split: prod.splits bool.splits)

section \<open>The undo log\<close>

lemma deref_store:
  "deref (heap_store h a v) b = (if b = a \<and> a < length h then Some v else deref h b)"
  by (auto simp: deref_def heap_store_def)

lemma deref_free: "deref (free h a) b = (if b = a then None else deref h b)"
  by (auto simp: deref_def free_def)

lemma deref_append: "deref (h @ [Some v]) b = (if b = length h then Some v else deref h b)"
  by (auto simp: deref_def nth_append)

lemma deref_Some_less: "deref h a = Some u \<Longrightarrow> a < length h"
  by (auto simp: deref_def split: if_splits)

lemma length_store [simp]: "length (heap_store h a v) = length h"
  by (simp add: heap_store_def)

lemma length_free [simp]: "length (free h a) = length h"
  by (simp add: free_def)

lemma dll_cell: "dll h as \<Longrightarrow> i < length as \<Longrightarrow> cell_ok h as i"
  by (simp add: dll_def list_all_iff)

lemma dllI: "distinct as \<Longrightarrow> (\<And>i. i < length as \<Longrightarrow> cell_ok h as i) \<Longrightarrow> dll h as"
  by (simp add: dll_def list_all_iff)

lemma dll_deref:
  assumes "dll h as" "i < length as"
  obtains u where "deref h (as ! i) = Some u"
    "u_prev u = (if i = 0 then None else Some (as ! (i - 1)))"
    "u_next u = (if Suc i = length as then None else Some (as ! Suc i))"
  using dll_cell[OF assms] by (auto simp: cell_ok_def split: option.splits)

lemma wf_log_tail_eq_ptr:
  assumes "wf_log ed as k"
  shows "undotail ed = undoptr ed \<longleftrightarrow> k = length as"
proof (cases "as = []")
  case True
  then show ?thesis using assms by (simp add: wf_log_def)
next
  case False
  then have l: "last as = as ! (length as - 1)" by (simp add: last_conv_nth)
  have d: "distinct as" using assms by (simp add: wf_log_def dll_def)
  show ?thesis
  proof (cases "k = 0")
    case True
    then show ?thesis using assms False by (auto simp: wf_log_def)
  next
    case k: False
    have "as ! (length as - 1) = as ! (k - 1) \<longleftrightarrow> length as - 1 = k - 1"
      using d assms k False by (intro nth_eq_iff_index_eq) (auto simp: wf_log_def)
    then show ?thesis using assms False k l by (auto simp: wf_log_def)
  qed
qed

text \<open>Dropping the newest record of a list of at least two.\<close>

lemma dll_drop_last:
  assumes "dll h (as @ [a])" "as \<noteq> []" "deref h (last as) = Some pu"
  shows "dll (free (heap_store h (last as) (pu\<lparr>u_next := None\<rparr>)) a) as"
proof (rule dllI)
  show d: "distinct as" using assms(1) by (simp add: dll_def)
  fix i assume i: "i < length as"
  have da: "distinct (as @ [a])" using assms(1) by (simp add: dll_def)
  then have na: "as ! i \<noteq> a" using i by (auto simp: in_set_conv_nth)
  have c: "cell_ok h (as @ [a]) i"
    using assms(1) i by (intro dll_cell) auto
  have lastn: "last as = as ! (length as - 1)" using assms(2) by (simp add: last_conv_nth)
  have pl: "last as < length h" using assms(3) by (rule deref_Some_less)
  have n1: "(as @ [a]) ! i = as ! i" "(as @ [a]) ! (i - 1) = as ! (i - 1)"
    using i by (auto simp: nth_append)
  show "cell_ok (free (heap_store h (last as) (pu\<lparr>u_next := None\<rparr>)) a) as i"
  proof (cases "Suc i = length as")
    case True
    then have "i = length as - 1" by simp
    then have e: "as ! i = last as" using lastn by simp
    have "deref (free (heap_store h (last as) (pu\<lparr>u_next := None\<rparr>)) a) (as ! i)
          = Some (pu\<lparr>u_next := None\<rparr>)"
      using e na pl by (simp add: deref_free deref_store)
    moreover have "u_prev pu = (if i = 0 then None else Some (as ! (i - 1)))"
      using c e assms(3) n1 by (auto simp: cell_ok_def split: option.splits)
    ultimately show ?thesis using True by (simp add: cell_ok_def)
  next
    case False
    then have "as ! i \<noteq> last as"
      using d i lastn assms(2) by (auto simp: nth_eq_iff_index_eq)
    then have eq: "deref (free (heap_store h (last as) (pu\<lparr>u_next := None\<rparr>)) a) (as ! i)
          = deref h (as ! i)"
      using na by (simp add: deref_free deref_store)
    have n2: "(as @ [a]) ! Suc i = as ! Suc i"
      using False i by (auto simp: nth_append)
    from dll_deref[OF assms(1), of i] i obtain u where u: "deref h ((as @ [a]) ! i) = Some u"
      "u_prev u = (if i = 0 then None else Some ((as @ [a]) ! (i - 1)))"
      "u_next u = (if Suc i = length (as @ [a]) then None else Some ((as @ [a]) ! Suc i))"
      by auto
    have "deref h (as ! i) = Some u" "u_prev u = (if i = 0 then None else Some (as ! (i - 1)))"
      "u_next u = Some (as ! Suc i)"
      using u n1 n2 i by simp_all
    then show ?thesis
      using eq False unfolding cell_ok_def by simp
  qed
qed

lemma payload_link [simp]: "payload (u\<lparr>u_next := n\<rparr>) = payload u"
  by (simp add: payload_def)

text \<open>\<open>reset_undo\<close> frees the records after the boundary and keeps the others.\<close>

lemma reset_undo_spec:
  assumes "wf_log ed as k"
  shows "\<exists>ed'. reset_undo ed = Some ed' \<and> same_doc ed ed' \<and> wf_log ed' (take k as) k
            \<and> undohead ed' = undohead ed \<and> length (undos ed') = length (undos ed)
            \<and> (\<forall>i < k. map_option payload (deref (undos ed') (as ! i))
                        = map_option payload (deref (undos ed) (as ! i)))"
  using assms
proof (induction "length as - k" arbitrary: ed as)
  case 0
  then have k: "k = length as" by (simp add: wf_log_def)
  then have "undotail ed = undoptr ed" using 0 wf_log_tail_eq_ptr by blast
  then have "reset_undo ed = Some (ed\<lparr>undoptr := undotail ed\<rparr>)"
    by (subst reset_undo.simps) simp
  moreover have "wf_log (ed\<lparr>undoptr := undotail ed\<rparr>) (take k as) k"
    using 0(2) k \<open>undotail ed = undoptr ed\<close> by (simp add: wf_log_def last_conv_nth)
  ultimately show ?case by (simp add: same_doc_def)
next
  case (Suc n)
  then have kl: "k < length as" by simp
  then obtain bs a where as: "as = bs @ [a]"
    by (cases as rule: rev_cases) auto
  have ne: "undotail ed \<noteq> undoptr ed"
    using Suc(3) kl wf_log_tail_eq_ptr by blast
  have t: "undotail ed = Some a" using Suc(3) as by (simp add: wf_log_def)
  have d: "dll (undos ed) (bs @ [a])" using Suc(3) as by (simp add: wf_log_def)
  from dll_deref[OF d, of "length bs"] obtain u where u: "deref (undos ed) a = Some u"
    "u_prev u = (if length bs = 0 then None else Some ((bs @ [a]) ! (length bs - 1)))"
    by auto
  have klb: "k \<le> length bs" using kl as by simp
  show ?case
  proof (cases "bs = []")
    case True
    let ?e1 = "ed\<lparr>undotail := None, undos := free (undos ed) a\<rparr>"
    have k0: "k = 0" using klb True by simp
    have r: "reset_undo ed = reset_undo ?e1"
      by (subst reset_undo.simps) (use ne t u True in simp)
    have w1: "wf_log ?e1 [] 0"
      using Suc(3) k0 by (simp add: wf_log_def dll_def)
    have "reset_undo ?e1 = Some (?e1\<lparr>undoptr := undotail ?e1\<rparr>)"
      using Suc(3) k0 by (subst reset_undo.simps) (simp add: wf_log_def)
    then show ?thesis using r k0 w1 Suc(3)
      by (simp add: same_doc_def wf_log_def)
  next
    case False
    then have p: "u_prev u = Some (last bs)"
      using u(2) by (simp add: nth_append last_conv_nth)
    have lb: "cell_ok (undos ed) (bs @ [a]) (length bs - 1)"
      using d False by (intro dll_cell) auto
    then obtain pu where pu: "deref (undos ed) (last bs) = Some pu"
      using False by (auto simp: cell_ok_def nth_append last_conv_nth split: option.splits)
    let ?h1 = "free (heap_store (undos ed) (last bs) (pu\<lparr>u_next := None\<rparr>)) a"
    let ?e1 = "ed\<lparr>undotail := Some (last bs), undos := ?h1\<rparr>"
    have r: "reset_undo ed = reset_undo ?e1"
      by (subst reset_undo.simps) (use ne t u(1) p pu in simp)
    have d1: "dll ?h1 bs" using d False pu by (rule dll_drop_last)
    have kb: "k = 0 \<or> (bs @ [a]) ! (k - 1) = bs ! (k - 1)"
      using klb by (cases k) (auto simp: nth_append)
    have w1: "wf_log ?e1 bs k"
      using Suc(3) as d1 klb False kb by (auto simp: wf_log_def)
    have n1: "n = length bs - k" using Suc(2) as by simp
    from Suc(1)[OF n1 w1] obtain ed' where e: "reset_undo ?e1 = Some ed'" "same_doc ?e1 ed'"
      "wf_log ed' (take k bs) k" "undohead ed' = undohead ?e1"
      "length (undos ed') = length (undos ?e1)"
      "\<forall>i < k. map_option payload (deref (undos ed') (bs ! i))
                        = map_option payload (deref (undos ?e1) (bs ! i))"
      by blast
    have da: "distinct (bs @ [a])" using d by (simp add: dll_def)
    have pl: "\<forall>i < k. map_option payload (deref ?h1 (bs ! i))
                        = map_option payload (deref (undos ed) (bs ! i))"
    proof (intro allI impI)
      fix i assume i: "i < k"
      then have "bs ! i \<noteq> a" using da klb by (auto simp: in_set_conv_nth)
      then show "map_option payload (deref ?h1 (bs ! i)) = map_option payload (deref (undos ed) (bs ! i))"
        using pu by (auto simp: deref_free deref_store)
    qed
    have "\<forall>i < k. (bs @ [a]) ! i = bs ! i" using klb by (auto simp: nth_append)
    then show ?thesis
      using r e pl as klb by (auto simp: same_doc_def)
  qed
qed

lemma dll_addr_less: "dll h as \<Longrightarrow> a \<in> set as \<Longrightarrow> a < length h"
  by (metis deref_Some_less dll_deref in_set_conv_nth)

lemma wf_log_cursor_at_tail:
  "wf_log ed as (length as) \<Longrightarrow> undoptr ed = undotail ed"
  by (auto simp: wf_log_def last_conv_nth)

text \<open>Appending a record to a list whose boundary is at its end.\<close>

lemma dll_append:
  assumes "dll h as" "as \<noteq> [] \<Longrightarrow> deref h (last as) = Some tu"
    "u_prev u = (if as = [] then None else Some (last as))" "u_next u = None"
  shows "dll ((if as = [] then h else heap_store h (last as) (tu\<lparr>u_next := Some (length h)\<rparr>)) @ [Some u])
           (as @ [length h])"
    (is "dll ?h' _")
proof (rule dllI)
  have lt: "\<forall>a \<in> set as. a < length h" using assms(1) dll_addr_less by blast
  then show "distinct (as @ [length h])"
    using assms(1) by (auto simp: dll_def)
  fix i assume i: "i < length (as @ [length h])"
  let ?h1 = "if as = [] then h else heap_store h (last as) (tu\<lparr>u_next := Some (length h)\<rparr>)"
  have l1: "length ?h1 = length h" by simp
  show "cell_ok ?h' (as @ [length h]) i"
  proof (cases "i = length as")
    case True
    have "deref ?h' ((as @ [length h]) ! i) = Some u"
      using True l1 by (simp add: deref_append del: length_store)
    moreover have "as \<noteq> [] \<Longrightarrow> (as @ [length h]) ! (length as - 1) = last as"
      by (simp add: nth_append last_conv_nth)
    ultimately show ?thesis
      using True assms(3,4) by (auto simp: cell_ok_def)
  next
    case False
    then have il: "i < length as" using i by simp
    then have ne: "as \<noteq> []" by auto
    have ai: "(as @ [length h]) ! i = as ! i" "(as @ [length h]) ! (i - 1) = as ! (i - 1)"
      using il by (auto simp: nth_append)
    have al: "as ! i < length h" using lt il by auto
    from dll_deref[OF assms(1) il] obtain v where v: "deref h (as ! i) = Some v"
      "u_prev v = (if i = 0 then None else Some (as ! (i - 1)))"
      "u_next v = (if Suc i = length as then None else Some (as ! Suc i))"
      by auto
    have d: "distinct as" using assms(1) by (simp add: dll_def)
    show ?thesis
    proof (cases "Suc i = length as")
      case True
      then have "i = length as - 1" by simp
      then have e: "as ! i = last as" using ne by (simp add: last_conv_nth)
      then have "tu = v" using assms(2)[OF ne] v(1) by simp
      then have "deref ?h' (as ! i) = Some (v\<lparr>u_next := Some (length h)\<rparr>)"
        using e ne al l1 by (simp add: deref_append deref_store del: length_store)
      then show ?thesis
        using True v(2) ai by (simp add: cell_ok_def nth_append)
    next
      case F: False
      then have "as ! i \<noteq> last as"
        using d il ne by (auto simp: last_conv_nth nth_eq_iff_index_eq)
      then have "deref ?h' (as ! i) = Some v"
        using al v(1) l1 by (auto simp: deref_append deref_store simp del: length_store)
      moreover have "(as @ [length h]) ! Suc i = as ! Suc i"
        using F il by (auto simp: nth_append)
      ultimately show ?thesis
        using F v(2,3) ai il by (simp add: cell_ok_def)
    qed
  qed
qed

lemma new_undo_None:
  assumes "\<not> (granted (avail ed) SIZEOF_UNDO
       \<and> (if len > 0 then granted (avail ed) len else True)
       \<and> (if bufsize > 0 then granted (avail ed) bufsize else True))"
  shows "new_undo ed pos len buf bufsize = None"
  using assms
  by (auto simp: new_undo_def Let_def malloc_bytes_def split: Option.bind_splits if_splits)

lemma new_undo_spec:
  assumes "wf_log ed as (length as)"
    and g: "granted (avail ed) SIZEOF_UNDO
       \<and> (if len > 0 then granted (avail ed) len else True)
       \<and> (if bufsize > 0 then granted (avail ed) bufsize else True)"
  shows "\<exists>ed' u. new_undo ed pos len buf bufsize = Some ed' \<and> same_doc ed ed'
          \<and> wf_log ed' (as @ [length (undos ed)]) (Suc (length as))
          \<and> deref (undos ed') (length (undos ed)) = Some u
          \<and> payload u = (pos, len, bufsize,
               (if len > 0 then fst (copy ed (fresh ed) pos len) else NULL_buf),
               (if bufsize > 0 then memcpy (fresh ed) 0 buf 0 bufsize else NULL_buf))
          \<and> undohead ed' = (if undohead ed = None then Some (length (undos ed)) else undohead ed)
          \<and> (\<forall>i < length as. map_option payload (deref (undos ed') (as ! i))
                        = map_option payload (deref (undos ed) (as ! i)))"
proof -
  let ?a = "length (undos ed)"
  let ?u = "\<lparr>u_pos = pos, u_erased = len, u_inserted = bufsize,
               undobuf = (if len > 0 then fst (copy ed (fresh ed) pos len) else NULL_buf),
               redobuf = (if bufsize > 0 then memcpy (fresh ed) 0 buf 0 bufsize else NULL_buf),
               u_next = None, u_prev = undotail ed\<rparr>"
  have d: "dll (undos ed) as" and t: "undotail ed = (if as = [] then None else Some (last as))"
    using assms by (simp_all add: wf_log_def)
  have lt: "\<forall>a \<in> set as. a < ?a" using d dll_addr_less by blast
  show ?thesis
  proof (cases "as = []")
    case True
    have n: "new_undo ed pos len buf bufsize =
        Some (ed\<lparr>undotail := Some ?a, undoptr := Some ?a,
                 undohead := (if undohead ed = None then Some ?a else undohead ed),
                 undos := undos ed @ [Some ?u]\<rparr>)"
      using t True g by (simp add: new_undo_def Let_def malloc_def malloc_bytes_def)
    have "dll (undos ed @ [Some ?u]) ([] @ [?a])"
      using dll_append[of "undos ed" "[]" undefined ?u] d True t by simp
    then show ?thesis
      using n True by (simp add: same_doc_def wf_log_def deref_append payload_def)
  next
    case False
    obtain tu where tu: "deref (undos ed) (last as) = Some tu"
      using dll_deref[OF d, of "length as - 1"] False by (auto simp: last_conv_nth)
    let ?h1 = "heap_store (undos ed) (last as) (tu\<lparr>u_next := Some ?a\<rparr>)"
    have n: "new_undo ed pos len buf bufsize =
        Some (ed\<lparr>undotail := Some ?a, undoptr := Some ?a,
                 undohead := (if undohead ed = None then Some ?a else undohead ed),
                 undos := ?h1 @ [Some ?u]\<rparr>)"
      using t False tu g by (simp add: new_undo_def Let_def malloc_def malloc_bytes_def)
    have dl: "dll (?h1 @ [Some ?u]) (as @ [?a])"
      using dll_append[of "undos ed" as tu ?u] d False t tu by simp
    have pl: "\<forall>i < length as. map_option payload (deref (?h1 @ [Some ?u]) (as ! i))
                        = map_option payload (deref (undos ed) (as ! i))"
    proof (intro allI impI)
      fix i assume "i < length as"
      then have "as ! i < ?a" using lt by auto
      then show "map_option payload (deref (?h1 @ [Some ?u]) (as ! i))
                        = map_option payload (deref (undos ed) (as ! i))"
        using tu by (auto simp: deref_append deref_store)
    qed
    show ?thesis
      using n dl pl by (simp add: same_doc_def wf_log_def deref_append payload_def nth_append)
  qed
qed

lemma store_undo_unfold:
  assumes "reset_undo ed = Some ed1"
  shows "store_undo ed pos len buf bufsize =
     (case undotail ed1 of
        None \<Rightarrow> new_undo ed1 pos len buf bufsize
      | Some a \<Rightarrow>
          (case deref (undos ed1) a of
             None \<Rightarrow> None
           | Some u \<Rightarrow>
               (case coalesced u ed1 pos len buf bufsize of
                  Some u' \<Rightarrow>
                    (if int_add (u_erased u + u_inserted u) 1 \<noteq> None
                        \<and> granted (avail ed1) (u_erased u + u_inserted u + 1)
                     then Some (ed1\<lparr>undos := heap_store (undos ed1) a u'\<rparr>) else None)
                | None \<Rightarrow> new_undo ed1 pos len buf bufsize)))"
proof (cases "undotail ed1")
  case None
  then show ?thesis using assms by (simp add: store_undo_def)
next
  case (Some a)
  show ?thesis
  proof (cases "deref (undos ed1) a")
    case None
    then show ?thesis using assms Some by (simp add: store_undo_def)
  next
    case u: (Some u)
    show ?thesis using assms Some u
      by (auto simp: store_undo_def coalesced_def int_add_def realloc_bytes_def)
  qed
qed

lemma coalesced_links:
  "coalesced u ed pos len buf bufsize = Some u' \<Longrightarrow> u_prev u' = u_prev u \<and> u_next u' = u_next u"
  by (auto simp: coalesced_def split: if_splits)

lemma dll_update:
  assumes "dll h as" "deref h a = Some u" "u_prev u' = u_prev u" "u_next u' = u_next u"
  shows "dll (heap_store h a u') as"
proof (rule dllI)
  show "distinct as" using assms(1) by (simp add: dll_def)
  fix i assume i: "i < length as"
  from dll_deref[OF assms(1) i] obtain v where v: "deref h (as ! i) = Some v"
    "u_prev v = (if i = 0 then None else Some (as ! (i - 1)))"
    "u_next v = (if Suc i = length as then None else Some (as ! Suc i))"
    by auto
  have "a < length h" using assms(2) by (rule deref_Some_less)
  then show "cell_ok (heap_store h a u') as i"
    using v assms(2,3,4) by (auto simp: cell_ok_def deref_store)
qed

lemma coalesced_cong:
  "payload u = payload v \<Longrightarrow> get ed1 = get ed \<Longrightarrow>
   map_option payload (coalesced u ed1 pos len buf bufsize)
     = map_option payload (coalesced v ed pos len buf bufsize)"
  by (auto simp: coalesced_def payload_def)

lemma copy_loop_cong:
  "start ed1 = start ed \<Longrightarrow> gap ed1 = gap ed \<Longrightarrow> rest ed1 = rest ed \<Longrightarrow> endp ed1 = endp ed \<Longrightarrow>
   copy_loop ed1 buf k p n = copy_loop ed buf k p n"
proof (induction ed buf k p n rule: copy_loop.induct)
  case (1 ed buf bufptr p len)
  show ?case
    by (subst copy_loop.simps, subst (2) copy_loop.simps)
      (use 1 in \<open>auto simp add: fun_upd_def simp del: copy_loop.simps\<close>)
qed

lemma same_doc_copy:
  assumes "same_doc ed ed1"
  shows "copy ed1 = copy ed"
proof (intro ext)
  fix buf pos len
  have t: "text_ptr ed1 pos = text_ptr ed pos"
    using same_doc_buf[OF assms] by simp
  have "copy_loop ed1 buf 0 (text_ptr ed pos) len = copy_loop ed buf 0 (text_ptr ed pos) len"
    using assms by (intro copy_loop_cong) (simp_all add: same_doc_def)
  then show "copy ed1 buf pos len = copy ed buf pos len"
    by (simp add: copy_def t)
qed

text \<open>
  What ``Store undo information'' does to a well-formed log with \<open>k\<close> applied records: the
  records after the boundary are freed, and the edit is coalesced into the record at the
  boundary or recorded in a new cell at the end of the store.
\<close>

lemma store_undo_spec:
  assumes "wf_log ed as k" and ur: "undo_room ed pos len buf bufsize"
  shows "\<exists>ed'. store_undo ed pos len buf bufsize = Some ed' \<and> same_doc ed ed'
     \<and> (\<forall>i < k - 1. map_option payload (deref (undos ed') (as ! i))
                        = map_option payload (deref (undos ed) (as ! i)))
     \<and> (if coalesces ed pos len buf bufsize then
           wf_log ed' (take k as) k \<and> undohead ed' = undohead ed
           \<and> (\<exists>u. deref (undos ed) (as ! (k - 1)) = Some u
                \<and> map_option payload (deref (undos ed') (as ! (k - 1)))
                    = map_option payload (coalesced u ed pos len buf bufsize))
         else
           wf_log ed' (take k as @ [length (undos ed)]) (Suc k)
           \<and> undohead ed' = (if undohead ed = None then Some (length (undos ed)) else undohead ed)
           \<and> (k > 0 \<longrightarrow> map_option payload (deref (undos ed') (as ! (k - 1)))
                        = map_option payload (deref (undos ed) (as ! (k - 1))))
           \<and> map_option payload (deref (undos ed') (length (undos ed)))
               = Some (pos, len, bufsize,
                   (if len > 0 then fst (copy ed (fresh ed) pos len) else NULL_buf),
                   (if bufsize > 0 then memcpy (fresh ed) 0 buf 0 bufsize else NULL_buf)))"
proof -
  from reset_undo_spec[OF assms(1)] obtain ed1 where r: "reset_undo ed = Some ed1" "same_doc ed ed1"
    and w1: "wf_log ed1 (take k as) k" and h1: "undohead ed1 = undohead ed"
    and l1: "length (undos ed1) = length (undos ed)"
    and p1: "\<forall>i < k. map_option payload (deref (undos ed1) (as ! i))
                        = map_option payload (deref (undos ed) (as ! i))"
    by blast
  have kl: "k \<le> length as" using assms by (simp add: wf_log_def)
  then have lk: "length (take k as) = k" by simp
  have w1': "wf_log ed1 (take k as) (length (take k as))" using w1 lk by simp
  have cp1: "copy ed1 = copy ed" using r(2) by (rule same_doc_copy)
  have cp2: "fresh ed1 = fresh ed" using r(2) by (simp add: same_doc_def)
  have cp3: "get ed1 = get ed" using same_doc_buf[OF r(2)] by simp
  have cp4: "avail ed1 = avail ed" using r(2) by (simp add: same_doc_def)
  note cp = cp1 cp2 cp3
  show ?thesis
  proof (cases "coalesces ed pos len buf bufsize")
    case nc: False
    then have g: "granted (avail ed1) SIZEOF_UNDO
       \<and> (if len > 0 then granted (avail ed1) len else True)
       \<and> (if bufsize > 0 then granted (avail ed1) bufsize else True)"
      using ur cp4 by (simp add: undo_room_def)
    from new_undo_spec[OF w1' g, of pos buf] obtain ed2 u2 where
      n: "new_undo ed1 pos len buf bufsize = Some ed2" "same_doc ed1 ed2"
        "wf_log ed2 (take k as @ [length (undos ed)]) (Suc k)"
        "deref (undos ed2) (length (undos ed)) = Some u2"
        "payload u2 = (pos, len, bufsize,
                 (if len > 0 then fst (copy ed (fresh ed) pos len) else NULL_buf),
                 (if bufsize > 0 then memcpy (fresh ed) 0 buf 0 bufsize else NULL_buf))"
        "undohead ed2 = (if undohead ed = None then Some (length (undos ed)) else undohead ed)"
        "\<forall>i < k. map_option payload (deref (undos ed2) (take k as ! i))
                          = map_option payload (deref (undos ed1) (take k as ! i))"
      using l1 lk h1 cp by auto
    have n7: "\<forall>i < k. map_option payload (deref (undos ed2) (as ! i))
                          = map_option payload (deref (undos ed) (as ! i))"
      using n(7) p1 by auto
    have newcase: "store_undo ed pos len buf bufsize = Some ed2"
    proof (cases "k = 0")
      case True
      then have "undotail ed1 = None" using w1 by (simp add: wf_log_def)
      then show ?thesis using n(1) by (simp add: store_undo_unfold[OF r(1)])
    next
      case False
      have t1: "undotail ed1 = Some (as ! (k - 1))" "undoptr ed = Some (as ! (k - 1))"
        using w1 assms False kl wf_log_cursor_at_tail[OF w1'] by (auto simp: wf_log_def)
      obtain v1 where v1: "deref (undos ed1) (as ! (k - 1)) = Some v1"
        using dll_deref[of "undos ed1" "take k as" "k - 1"] w1 False kl by (auto simp: wf_log_def)
      have "map_option payload (deref (undos ed) (as ! (k - 1))) = Some (payload v1)"
        using p1[rule_format, of "k - 1"] False v1 by simp
      then obtain v where v: "deref (undos ed) (as ! (k - 1)) = Some v" "payload v1 = payload v"
        by auto
      have "coalesced v ed pos len buf bufsize = None"
        using nc t1 v by (simp add: coalesces_def)
      then have "coalesced v1 ed1 pos len buf bufsize = None"
        using coalesced_cong[OF v(2) cp(3), of pos len buf bufsize] by simp
      then show ?thesis using n(1) t1 v1 by (simp add: store_undo_unfold[OF r(1)])
    qed
    show ?thesis
      using nc newcase n n7 r(2) by (auto simp: same_doc_def)
  next
    case True
    then obtain a v where a: "undoptr ed = Some a" "deref (undos ed) a = Some v"
      "coalesced v ed pos len buf bufsize \<noteq> None"
      by (auto simp: coalesces_def split: option.splits)
    then have k0: "k > 0" and ak: "a = as ! (k - 1)"
      using assms by (auto simp: wf_log_def split: if_splits)
    have t1: "undotail ed1 = Some a"
      using w1 k0 ak kl wf_log_cursor_at_tail[OF w1'] by (auto simp: wf_log_def)
    have "map_option payload (deref (undos ed1) a) = Some (payload v)"
      using p1[rule_format, of "k - 1"] k0 ak a(2) by simp
    then obtain v1 where v1: "deref (undos ed1) a = Some v1" "payload v1 = payload v"
      by auto
    have sz: "u_erased v1 = u_erased v" "u_inserted v1 = u_inserted v"
      using v1(2) by (simp_all add: payload_def)
    have g: "int_add (u_erased v1 + u_inserted v1) 1 \<noteq> None
        \<and> granted (avail ed1) (u_erased v1 + u_inserted v1 + 1)"
      using ur True a(1,2) sz cp4 by (simp add: undo_room_def)
    obtain u' where u': "coalesced v1 ed1 pos len buf bufsize = Some u'"
      using coalesced_cong[OF v1(2) cp(3), of pos len buf bufsize] a(3) by auto
    let ?ed' = "ed1\<lparr>undos := heap_store (undos ed1) a u'\<rparr>"
    have s: "store_undo ed pos len buf bufsize = Some ?ed'"
      using t1 v1 u' g by (simp add: store_undo_unfold[OF r(1)])
    have d: "dll (heap_store (undos ed1) a u') (take k as)"
      using w1 v1(1) coalesced_links[OF u'] by (intro dll_update) (auto simp: wf_log_def)
    have w: "wf_log ?ed' (take k as) k"
      using w1 d by (simp add: wf_log_def)
    have al: "a < length (undos ed1)" using v1(1) by (rule deref_Some_less)
    have pa: "map_option payload (deref (undos ?ed') a)
                    = map_option payload (coalesced v ed pos len buf bufsize)"
      using coalesced_cong[OF v1(2) cp(3), of pos len buf bufsize] u' al
      by (simp add: deref_store)
    have dist: "distinct as" using assms by (simp add: wf_log_def dll_def)
    have po: "\<forall>i < k - 1. map_option payload (deref (undos ?ed') (as ! i))
                        = map_option payload (deref (undos ed) (as ! i))"
    proof (intro allI impI)
      fix i assume i: "i < k - 1"
      then have "as ! i \<noteq> a" using ak dist kl k0 by (auto simp: nth_eq_iff_index_eq)
      then show "map_option payload (deref (undos ?ed') (as ! i))
                        = map_option payload (deref (undos ed) (as ! i))"
        using p1 i by (auto simp: deref_store)
    qed
    show ?thesis
      using True s w h1 pa po a(2) ak r(2) by (auto simp: same_doc_def)
  qed
qed

text \<open>Without what it asks of the allocator, ``Store undo information'' has no result.\<close>

lemma store_undo_None:
  assumes "wf_log ed as k" and ur: "\<not> undo_room ed pos len buf bufsize"
  shows "store_undo ed pos len buf bufsize = None"
proof -
  from reset_undo_spec[OF assms(1)] obtain ed1 where r: "reset_undo ed = Some ed1" "same_doc ed ed1"
    and w1: "wf_log ed1 (take k as) k"
    and p1: "\<forall>i < k. map_option payload (deref (undos ed1) (as ! i))
                        = map_option payload (deref (undos ed) (as ! i))"
    by blast
  have kl: "k \<le> length as" using assms by (simp add: wf_log_def)
  then have lk: "length (take k as) = k" by simp
  have w1': "wf_log ed1 (take k as) (length (take k as))" using w1 lk by simp
  have cp3: "get ed1 = get ed" using same_doc_buf[OF r(2)] by simp
  have cp4: "avail ed1 = avail ed" using r(2) by (simp add: same_doc_def)
  show ?thesis
  proof (cases "coalesces ed pos len buf bufsize")
    case nc: False
    then have g: "\<not> (granted (avail ed1) SIZEOF_UNDO
       \<and> (if len > 0 then granted (avail ed1) len else True)
       \<and> (if bufsize > 0 then granted (avail ed1) bufsize else True))"
      using ur cp4 by (auto simp: undo_room_def split: if_splits)
    then have n: "new_undo ed1 pos len buf bufsize = None" by (rule new_undo_None)
    show ?thesis
    proof (cases "k = 0")
      case True
      then have "undotail ed1 = None" using w1 by (simp add: wf_log_def)
      then show ?thesis using n by (simp add: store_undo_unfold[OF r(1)])
    next
      case False
      have t1: "undotail ed1 = Some (as ! (k - 1))" "undoptr ed = Some (as ! (k - 1))"
        using w1 assms False kl wf_log_cursor_at_tail[OF w1'] by (auto simp: wf_log_def)
      obtain v1 where v1: "deref (undos ed1) (as ! (k - 1)) = Some v1"
        using dll_deref[of "undos ed1" "take k as" "k - 1"] w1 False kl by (auto simp: wf_log_def)
      have "map_option payload (deref (undos ed) (as ! (k - 1))) = Some (payload v1)"
        using p1[rule_format, of "k - 1"] False v1 by simp
      then obtain v where v: "deref (undos ed) (as ! (k - 1)) = Some v" "payload v1 = payload v"
        by auto
      have "coalesced v ed pos len buf bufsize = None"
        using nc t1 v by (simp add: coalesces_def)
      then have "coalesced v1 ed1 pos len buf bufsize = None"
        using coalesced_cong[OF v(2) cp3, of pos len buf bufsize] by simp
      then show ?thesis using n t1 v1 by (simp add: store_undo_unfold[OF r(1)])
    qed
  next
    case True
    then obtain a v where a: "undoptr ed = Some a" "deref (undos ed) a = Some v"
      "coalesced v ed pos len buf bufsize \<noteq> None"
      by (auto simp: coalesces_def split: option.splits)
    then have k0: "k > 0" and ak: "a = as ! (k - 1)"
      using assms by (auto simp: wf_log_def split: if_splits)
    have t1: "undotail ed1 = Some a"
      using w1 k0 ak kl wf_log_cursor_at_tail[OF w1'] by (auto simp: wf_log_def)
    have "map_option payload (deref (undos ed1) a) = Some (payload v)"
      using p1[rule_format, of "k - 1"] k0 ak a(2) by simp
    then obtain v1 where v1: "deref (undos ed1) a = Some v1" "payload v1 = payload v"
      by auto
    have sz: "u_erased v1 = u_erased v" "u_inserted v1 = u_inserted v"
      using v1(2) by (simp_all add: payload_def)
    have g: "\<not> (int_add (u_erased v1 + u_inserted v1) 1 \<noteq> None
        \<and> granted (avail ed1) (u_erased v1 + u_inserted v1 + 1))"
      using ur True a(1,2) sz cp4 by (simp add: undo_room_def)
    obtain u' where u': "coalesced v1 ed1 pos len buf bufsize = Some u'"
      using coalesced_cong[OF v1(2) cp3, of pos len buf bufsize] a(3) by auto
    show ?thesis
      using t1 v1 u' g by (simp add: store_undo_unfold[OF r(1)])
  qed
qed




lemma replace_text_frame:
  assumes "replace_text ed pos len buf bufsize = Some ed'"
  shows "\<exists>s g r e. ed' = ed\<lparr>start := s, gap := g, rest := r, endp := e, dirty := 1\<rparr>"
  using assms
proof (cases rule: replace_text_cases)
  case edge
  then have "ed' = ed\<lparr>start := start ed, gap := gap ed', rest := rest ed', endp := endp ed, dirty := 1\<rparr>"
    by simp
  then show ?thesis by blast
next
  case (move ed1)
  from move_gap_frame[OF move(2)] obtain s g r e where
    "ed1 = ed\<lparr>start := s, gap := g, rest := r, endp := e\<rparr>" by blast
  then have "ed' = ed\<lparr>start := start ed', gap := gap ed', rest := rest ed', endp := endp ed', dirty := 1\<rparr>"
    using move(3) by simp
  then show ?thesis by blast
qed

lemma replace_text_fields:
  assumes "replace_text ed pos len buf bufsize = Some ed'"
  shows "linepos ed' = linepos ed" "col ed' = col ed" "undos ed' = undos ed"
    "undotail ed' = undotail ed" "undoptr ed' = undoptr ed" "undohead ed' = undohead ed"
    "anchor ed' = anchor ed" "dirty ed' = 1" "avail ed' = avail ed" "fresh ed' = fresh ed"
  using replace_text_frame[OF assms] by auto

lemma wf_log_replace_text:
  "replace_text ed pos len buf bufsize = Some ed' \<Longrightarrow> wf_log ed' as k = wf_log ed as k"
  by (simp add: wf_log_def replace_text_fields)

text \<open>
  \<open>replace\<close> on a well-formed buffer and a well-formed undo log, for an edit within the text:
  it returns exactly when the gap is large enough or the block can be enlarged.
\<close>

lemma replace_returns:
  assumes "wf_buf ed" "int_sized ed"
    "doundo \<longrightarrow> wf_log ed as k \<and> undo_room ed pos len buf bufsize" "room ed (bufsize - len)"
  shows "\<exists>ed'. replace ed pos len buf bufsize doundo = Some ed'"
proof -
  obtain ed1 where s: "(if doundo then store_undo ed pos len buf bufsize else Some ed) = Some ed1"
    "same_doc ed ed1"
    using store_undo_spec[of ed as k pos len buf bufsize] assms(3) by (cases doundo) auto
  have "wf_buf ed1" "int_sized ed1" "room ed1 (bufsize - len)"
    using assms same_doc_buf[OF s(2)] same_doc_sized[OF s(2)] by simp_all
  then obtain ed' where "replace_text ed1 pos len buf bufsize = Some ed'"
    using replace_text_returns by blast
  then show ?thesis using s(1) by (simp add: replace_def)
qed

lemma replace_None_iff:
  assumes "wf_buf ed" "int_sized ed" "doundo \<longrightarrow> wf_log ed as k"
  shows "replace ed pos len buf bufsize doundo = None \<longleftrightarrow>
     (doundo \<and> \<not> undo_room ed pos len buf bufsize)
     \<or> (\<not> (bufsize = 0 \<and> pos \<le> gap ed \<and> gap ed \<le> pos + len) \<and> \<not> room ed (bufsize - len))"
proof (cases "doundo \<and> \<not> undo_room ed pos len buf bufsize")
  case True
  then have "store_undo ed pos len buf bufsize = None"
    using assms(3) store_undo_None[of ed as k pos len buf bufsize] by simp
  then show ?thesis using True by (simp add: replace_def)
next
  case False
  obtain ed1 where s: "(if doundo then store_undo ed pos len buf bufsize else Some ed) = Some ed1"
    "same_doc ed ed1"
    using store_undo_spec[of ed as k pos len buf bufsize] assms(3) False by (cases doundo) auto
  have w: "wf_buf ed1" "int_sized ed1" "room ed1 = room ed" "gap ed1 = gap ed"
    using assms same_doc_buf[OF s(2)] same_doc_sized[OF s(2)] s(2) by (simp_all add: same_doc_def)
  have "replace ed pos len buf bufsize doundo = replace_text ed1 pos len buf bufsize"
    using s(1) by (simp add: replace_def)
  then show ?thesis
    using replace_text_None_iff[OF w(1,2), of pos len buf bufsize] w(3,4) False by auto
qed

lemma replace_props:
  assumes "wf_buf ed" "int_sized ed" "0 \<le> pos" "0 \<le> len" "pos + len \<le> text_length ed"
    "0 \<le> bufsize" "replace ed pos len buf bufsize doundo = Some ed'"
  shows "wf_buf ed' \<and> int_sized ed' \<and> text_length ed' = text_length ed - len + bufsize
       \<and> avail ed' = avail ed \<and> endp ed' \<le> endp ed + MINEXTEND + bufsize
       \<and> content ed' = string_replace (content ed) pos len (bytes_of buf bufsize)"
proof -
  from assms(7) obtain ed1 where s: "same_doc ed ed1"
    and t: "replace_text ed1 pos len buf bufsize = Some ed'"
    by (rule replace_cases)
  have w: "wf_buf ed1" "int_sized ed1" "text_length ed1 = text_length ed" "content ed1 = content ed"
    "avail ed1 = avail ed" "endp ed1 = endp ed"
    using assms(1,2) same_doc_buf[OF s] same_doc_sized[OF s] by simp_all
  have v: "pos + len \<le> text_length ed1" using assms(5) w by simp
  show ?thesis
    using replace_text_wf[OF w(1,2) assms(3,4) v assms(6) t]
      replace_text_content[OF w(1,2) assms(3,4) v assms(6) t] w
    by simp
qed

lemma replace_keeps_log:
  assumes "wf_log ed as k" "replace ed pos len buf bufsize doundo = Some ed'"
  shows "\<exists>as' k'. wf_log ed' as' k'"
proof -
  from assms(2) obtain ed1 where s: "same_doc ed ed1"
    and t: "replace_text ed1 pos len buf bufsize = Some ed'"
    and d: "doundo \<longrightarrow> store_undo ed pos len buf bufsize = Some ed1" "\<not> doundo \<longrightarrow> ed1 = ed"
    by (rule replace_cases) auto
  have "\<exists>as' k'. wf_log ed1 as' k'"
  proof (cases doundo)
    case True
    then have "undo_room ed pos len buf bufsize"
      using store_undo_None[OF assms(1), of pos len buf bufsize] d(1) by auto
    from store_undo_spec[OF assms(1) this] d(1) True
    show ?thesis by (auto split: if_splits)
  next
    case False
    then show ?thesis using d(2) assms(1) by auto
  qed
  then show ?thesis using wf_log_replace_text[OF t] by simp
qed

section \<open>Gap relocation\<close>

text \<open>
  Within its means, gap relocation preserves the content: on a well-formed buffer whose
  block size is an \<open>int\<close>, \<open>move_gap\<close> to a position in \<open>[0, length]\<close> returns exactly when the
  gap already has the requested size or the block can be enlarged, and then \<open>text_length\<close>
  and every \<open>get p\<close> are unchanged; likewise \<open>close_gap\<close>, which also puts the gap at the
  logical end and writes a NUL byte there.
\<close>

lemma move_gap_preserves_content:
  assumes "wf_buf ed" and "int_sized ed" and "0 \<le> pos" and "pos \<le> text_length ed"
  shows "(move_gap ed pos minsize = None \<longleftrightarrow> \<not> room ed minsize)
       \<and> (\<forall>ed'. move_gap ed pos minsize = Some ed' \<longrightarrow>
             text_length ed' = text_length ed \<and> (\<forall>p. 0 \<le> p \<longrightarrow> get ed' p = get ed p))
       \<and> (close_gap ed = None \<longleftrightarrow> \<not> room ed 1)
       \<and> (\<forall>ed'. close_gap ed = Some ed' \<longrightarrow>
             text_length ed' = text_length ed
           \<and> (\<forall>p. 0 \<le> p \<and> p < text_length ed \<longrightarrow> get ed' p = get ed p)
           \<and> gap ed' = text_length ed \<and> start ed' (text_length ed) = 0)"
proof (intro conjI allI impI)
  show "move_gap ed pos minsize = None \<longleftrightarrow> \<not> room ed minsize"
    using assms(1,2) by (rule move_gap_None_iff)
  show "close_gap ed = None \<longleftrightarrow> \<not> room ed 1"
    using move_gap_None_iff[OF assms(1,2), of "text_length ed" 1]
    by (simp add: close_gap_def Let_def)
next
  fix ed' assume m: "move_gap ed pos minsize = Some ed'"
  show "text_length ed' = text_length ed"
    using move_gap_wf[OF assms m] by simp
  fix p :: int assume "0 \<le> p"
  with assms m show "get ed' p = get ed p" by (rule move_gap_get)
next
  fix ed' assume c: "close_gap ed = Some ed'"
  note p = close_gap_props[OF assms(1,2) c]
  show "text_length ed' = text_length ed" "gap ed' = text_length ed"
    "start ed' (text_length ed) = 0"
    using p by simp_all
  fix p' :: int assume "0 \<le> p' \<and> p' < text_length ed"
  then show "get ed' p' = get ed p'" using p by simp
qed

section \<open>Sequences of edits\<close>

lemma block_bound_mono: "c \<le> c' \<Longrightarrow> block_bound c es \<le> block_bound c' es"
  by (induction es arbitrary: c c') auto

lemma block_bound_ge: "valid_edits n es \<Longrightarrow> c \<le> block_bound c es"
proof (induction es arbitrary: c n)
  case Nil
  then show ?case by simp
next
  case (Cons e es)
  obtain pos len buf bufsize doundo where e: "e = (pos, len, buf, bufsize, doundo)"
    by (cases e) auto
  have "c + MINEXTEND + bufsize \<le> block_bound (c + MINEXTEND + bufsize) es"
    using Cons.prems e by (intro Cons.IH[of "n - len + bufsize"]) simp
  then show ?case using Cons.prems e by (simp add: MINEXTEND_def)
qed

lemma room_by_bound:
  assumes "wf_buf ed" "0 \<le> len" "0 \<le> bufsize"
    "endp ed + MINEXTEND + bufsize \<le> INT_MAX" "endp ed + MINEXTEND + bufsize \<le> avail ed"
  shows "room ed (bufsize - len)"
  using assms by (auto simp: room_def can_grow_def wf_buf_def text_length_def MINEXTEND_def)

lemma coalesced_size:
  "coalesced u ed pos len buf bufsize = Some u' \<Longrightarrow>
   u_erased u' + u_inserted u' = u_erased u + u_inserted u + 1"
  by (auto simp: coalesced_def split: if_splits)

lemma undo_room_by_bound:
  assumes "wf_buf ed" "0 \<le> len" "pos + len \<le> text_length ed" "0 \<le> pos" "0 \<le> bufsize"
    "endp ed \<le> c" "0 \<le> tail_size ed" "tail_size ed < c"
    "c + MINEXTEND + bufsize \<le> INT_MAX" "c + MINEXTEND + bufsize \<le> avail ed"
  shows "undo_room ed pos len buf bufsize"
proof (cases "coalesces ed pos len buf bufsize")
  case True
  then obtain a u where a: "undoptr ed = Some a" "deref (undos ed) a = Some u"
    by (auto simp: coalesces_def split: option.splits)
  then have t: "tail_size ed = u_erased u + u_inserted u" by (simp add: tail_size_def)
  have "int_add (tail_size ed) 1 \<noteq> None"
    using assms by (simp add: int_add_def INT_MIN_def MINEXTEND_def)
  moreover have "granted (avail ed) (tail_size ed + 1)"
    using assms by (subst granted_int) (simp_all add: MINEXTEND_def)
  ultimately show ?thesis using True a t by (simp add: undo_room_def)
next
  case False
  have l: "len \<le> c" using assms by (simp add: wf_buf_def text_length_def)
  have "granted (avail ed) SIZEOF_UNDO"
    using assms l by (subst granted_int) (simp_all add: SIZEOF_UNDO_def MINEXTEND_def INT_MAX_def)
  moreover have "granted (avail ed) len"
    using assms l by (subst granted_int) (simp_all add: MINEXTEND_def)
  moreover have "granted (avail ed) bufsize"
    using assms l by (subst granted_int) (simp_all add: MINEXTEND_def)
  ultimately show ?thesis using False by (simp add: undo_room_def)
qed

lemma tail_size_frame:
  "undoptr ed' = undoptr ed \<Longrightarrow> undos ed' = undos ed \<Longrightarrow> tail_size ed' = tail_size ed"
  by (simp add: tail_size_def cong: option.case_cong)

lemma store_undo_tail_size:
  assumes "wf_log ed as k" "store_undo ed pos len buf bufsize = Some ed1"
  shows "tail_size ed1 = (if coalesces ed pos len buf bufsize then tail_size ed + 1 else len + bufsize)"
proof -
  have ur: "undo_room ed pos len buf bufsize"
    using store_undo_None[OF assms(1), of pos len buf bufsize] assms(2) by auto
  note sp = store_undo_spec[OF assms(1) ur, unfolded assms(2), simplified]
  have kl: "k \<le> length as" using assms(1) by (simp add: wf_log_def)
  show ?thesis
  proof (cases "coalesces ed pos len buf bufsize")
    case True
    then obtain a v where a: "undoptr ed = Some a" "deref (undos ed) a = Some v"
      "coalesced v ed pos len buf bufsize \<noteq> None"
      by (auto simp: coalesces_def split: option.splits)
    then have k0: "k > 0" and ak: "a = as ! (k - 1)"
      using assms(1) by (auto simp: wf_log_def split: if_splits)
    obtain v' where v': "coalesced v ed pos len buf bufsize = Some v'" using a(3) by auto
    have w: "wf_log ed1 (take k as) k"
      and p: "map_option payload (deref (undos ed1) a) = Some (payload v')"
      using sp True a(2) ak v' by auto
    have u1: "undoptr ed1 = Some a"
      using w k0 kl ak by (simp add: wf_log_def)
    obtain w1 where w1: "deref (undos ed1) a = Some w1" "payload w1 = payload v'"
      using p by auto
    have "u_erased w1 + u_inserted w1 = u_erased v + u_inserted v + 1"
      using w1(2) coalesced_size[OF v'] by (simp add: payload_def)
    then show ?thesis using True u1 w1(1) a by (simp add: tail_size_def)
  next
    case False
    let ?n = "length (undos ed)"
    have w: "wf_log ed1 (take k as @ [?n]) (Suc k)"
      and p: "map_option payload (deref (undos ed1) ?n)
               = Some (pos, len, bufsize,
                   (if len > 0 then fst (copy ed (fresh ed) pos len) else NULL_buf),
                   (if bufsize > 0 then memcpy (fresh ed) 0 buf 0 bufsize else NULL_buf))"
      using sp False by auto
    have u1: "undoptr ed1 = Some ?n"
      using w kl by (simp add: wf_log_def nth_append)
    obtain w1 where w1: "deref (undos ed1) ?n = Some w1" "u_erased w1 = len" "u_inserted w1 = bufsize"
      using p by (auto simp: payload_def)
    show ?thesis using False u1 w1 by (simp add: tail_size_def)
  qed
qed

lemma replace_tail_size:
  assumes "wf_log ed as k" "replace ed pos len buf bufsize doundo = Some ed'"
    "0 \<le> len" "0 \<le> bufsize" "0 \<le> tail_size ed"
  shows "0 \<le> tail_size ed' \<and> tail_size ed' \<le> max (tail_size ed + 1) (len + bufsize)"
proof -
  from assms(2) obtain ed1 where t: "replace_text ed1 pos len buf bufsize = Some ed'"
    and d: "doundo \<longrightarrow> store_undo ed pos len buf bufsize = Some ed1" "\<not> doundo \<longrightarrow> ed1 = ed"
    by (rule replace_cases) auto
  have e: "tail_size ed' = tail_size ed1"
    using replace_text_fields[OF t] by (intro tail_size_frame) simp_all
  show ?thesis
  proof (cases doundo)
    case True
    then show ?thesis
      using store_undo_tail_size[OF assms(1), of pos len buf bufsize ed1] d(1) e assms(3-5)
      by (auto split: if_splits)
  next
    case False
    then show ?thesis using d(2) e assms(5) by simp
  qed
qed

text \<open>
  Within its means, a sequence of \<open>replace\<close> calls does to the buffer what it does to a
  plain byte string: on a well-formed buffer with a well-formed undo log, for edits that
  each lie within the text at that point and a \<open>memory_bound\<close> that is no more than
  \<open>INT_MAX\<close> and than what the allocator grants, the sequence returns, the final
  \<open>text_length\<close> is the initial length plus the bytes inserted minus the bytes erased, and
  \<open>copy\<close> from position 0 for \<open>text_length\<close> bytes returns that count and reads exactly the
  edited string.
\<close>

lemma replace_all_spec:
  assumes "wf_buf ed" "wf_log ed as k" "valid_edits (text_length ed) es"
    "endp ed \<le> c" "0 \<le> tail_size ed" "tail_size ed < c"
    "block_bound c es \<le> INT_MAX" "block_bound c es \<le> avail ed"
  shows "\<exists>ed'. replace_all ed es = Some ed' \<and> wf_buf ed'
     \<and> text_length ed' = text_length ed + total_inserted es - total_erased es
     \<and> content ed' = string_replace_all (content ed) es"
  using assms
proof (induction es arbitrary: ed as k c)
  case Nil
  then show ?case by simp
next
  case (Cons e es)
  obtain pos len buf bufsize doundo where e: "e = (pos, len, buf, bufsize, doundo)"
    by (cases e) auto
  have v: "0 \<le> pos" "0 \<le> len" "pos + len \<le> text_length ed" "0 \<le> bufsize"
    "valid_edits (text_length ed - len + bufsize) es"
    using Cons.prems(3) e by auto
  let ?c = "c + MINEXTEND + bufsize"
  have b: "block_bound ?c es \<le> INT_MAX" "block_bound ?c es \<le> avail ed"
    using Cons.prems(7,8) e by simp_all
  have c: "?c \<le> INT_MAX" "?c \<le> avail ed"
    using block_bound_ge[OF v(5), of ?c] b by simp_all
  have c0: "endp ed + MINEXTEND + bufsize \<le> INT_MAX" "endp ed + MINEXTEND + bufsize \<le> avail ed"
    using c Cons.prems(4) by simp_all
  have i: "int_sized ed"
    using c0 v by (simp add: int_sized_def MINEXTEND_def)
  have r: "room ed (bufsize - len)"
    using Cons.prems(1) v(2,4) c0 by (rule room_by_bound)
  have ur: "undo_room ed pos len buf bufsize"
    using Cons.prems(1) v(2,3,1,4) Cons.prems(4,5,6) c by (rule undo_room_by_bound)
  from replace_returns[OF Cons.prems(1) i _ r, of doundo as k pos buf] Cons.prems(2) ur
  obtain ed1 where r1: "replace ed pos len buf bufsize doundo = Some ed1" by auto
  note p = replace_props[OF Cons.prems(1) i v(1-4) r1]
  from replace_keeps_log[OF Cons.prems(2) r1] obtain as' k' where l: "wf_log ed1 as' k'" by blast
  note ts = replace_tail_size[OF Cons.prems(2) r1 v(2,4) Cons.prems(5)]
  have len: "len \<le> c"
    using Cons.prems(1,4) v by (simp add: wf_buf_def text_length_def)
  have t1: "0 \<le> tail_size ed1" "tail_size ed1 < ?c"
    using ts Cons.prems(6) len v by (auto simp: MINEXTEND_def)
  have e1: "endp ed1 \<le> ?c" using p Cons.prems(4) by simp
  have b1: "block_bound ?c es \<le> avail ed1" using b p by simp
  have v1: "valid_edits (text_length ed1) es" using v(5) p by simp
  have w1: "wf_buf ed1" using p by simp
  from Cons.IH[OF w1 l v1 e1 t1 b(1) b1] p obtain ed' where
    "replace_all ed1 es = Some ed'" "wf_buf ed'"
    "text_length ed' = text_length ed1 + total_inserted es - total_erased es"
    "content ed' = string_replace_all (content ed1) es"
    by auto
  then show ?case using r1 p e by simp
qed

lemma replace_sequence_refines_string:
  assumes "wf_buf ed" and "wf_log ed as k" and "valid_edits (text_length ed) es"
    and "0 \<le> tail_size ed"
    and "memory_bound ed es \<le> INT_MAX" and "memory_bound ed es \<le> avail ed"
  shows "\<exists>ed'. replace_all ed es = Some ed'
       \<and> text_length ed' = text_length ed + total_inserted es - total_erased es
       \<and> snd (copy ed' dst 0 (text_length ed')) = text_length ed'
       \<and> bytes_of (fst (copy ed' dst 0 (text_length ed'))) (text_length ed')
           = string_replace_all (content ed) es"
proof -
  let ?c = "max (endp ed) (tail_size ed + 1)"
  have "endp ed \<le> ?c" "tail_size ed < ?c" by simp_all
  from replace_all_spec[OF assms(1-3) this(1) assms(4) this(2)] assms(5,6)
  obtain ed' where r: "replace_all ed es = Some ed'"
    and w: "wf_buf ed'"
    and s: "text_length ed' = text_length ed + total_inserted es - total_erased es"
      "content ed' = string_replace_all (content ed) es"
    unfolding memory_bound_def by blast
  have "snd (copy ed' dst 0 (text_length ed')) = text_length ed'"
    using w by (rule copy_whole)
  moreover have "bytes_of (fst (copy ed' dst 0 (text_length ed'))) (text_length ed') = content ed'"
    using w by (rule copy_whole)
  ultimately show ?thesis using r s by simp
qed

lemma big_document_facts:
  "wf_buf big_document" "int_sized big_document" "text_length big_document = 1073741824"
  "wf_log big_document [] 0" "\<not> room big_document 1073741824" "gap big_document = 1073741824"
  "\<not> fst (get_selection big_document)" "linepos big_document + col big_document = 0"
  "undo_room big_document 0 0 buf 1073741824"
  by (simp_all add: big_document_def zero_editor_def wf_buf_def int_sized_def text_length_def
      wf_log_def dll_def room_def can_grow_def get_selection_def INT_MAX_def MINEXTEND_def
      undo_room_def coalesces_def granted_def to_size_t_def PTRDIFF_MAX_def SIZEOF_UNDO_def)

lemma tight_document_facts:
  "wf_buf tight_document" "int_sized tight_document" "text_length tight_document = 0"
  "wf_log tight_document [] 0" "\<not> room tight_document 40000" "gap tight_document = 0"
  by (simp_all add: tight_document_def empty_document_def new_file_def zero_editor_def
      malloc_bytes_def granted_def to_size_t_def PTRDIFF_MAX_def wf_buf_def int_sized_def
      text_length_def wf_log_def dll_def room_def can_grow_def INT_MAX_def MINEXTEND_def)

lemma full_buffer_facts:
  "wf_buf full_buffer" "int_sized full_buffer" "text_length full_buffer = 8"
  "\<not> room full_buffer 1"
  by (simp_all add: full_buffer_def example_buffer_def zero_editor_def
      wf_buf_def int_sized_def text_length_def room_def can_grow_def INT_MAX_def MINEXTEND_def)

text \<open>
  C10 (failing inputs). In a document of 1 GiB, moving the gap to the end with a requested
  gap of 1 GiB, as pasting 1 GiB of text does, computes a new block size of
  \<open>2147483648\<close> bytes, one more than \<open>INT_MAX\<close>: the \<open>int\<close> \<open>newsize\<close> is negative, \<open>malloc\<close> returns
  \<open>NULL\<close> and \<open>move_gap\<close> copies the text to it. The same happens at any size when \<open>malloc\<close> cannot
  grant the new block: in the empty document with a requested gap of 40000 bytes when
  \<open>malloc\<close> grants no more than that (the new block has \<open>65536\<close> bytes), and in \<open>close_gap\<close> on
  a buffer whose gap is used up. In each case \<open>move_gap\<close> has no defined result, where the
  claim has \<open>text_length\<close> and every \<open>get p\<close> unchanged.
\<close>

theorem gap_relocation_fails:
  "wf_buf big_document \<and> text_length big_document = 1073741824
   \<and> move_gap big_document 1073741824 1073741824 = None
   \<and> wf_buf tight_document \<and> text_length tight_document = 0
   \<and> move_gap tight_document 0 40000 = None
   \<and> wf_buf full_buffer \<and> text_length full_buffer = 8
   \<and> close_gap full_buffer = None"
proof -
  have "move_gap big_document 1073741824 1073741824 = None"
    using big_document_facts by (intro move_gap_fails)
  moreover have "move_gap tight_document 0 40000 = None"
    using tight_document_facts by (intro move_gap_fails)
  moreover have "move_gap full_buffer 8 1 = None"
    using full_buffer_facts by (intro move_gap_fails)
  ultimately show ?thesis
    using big_document_facts tight_document_facts full_buffer_facts
    by (simp add: close_gap_def Let_def)
qed

text \<open>
  C2 (failing inputs). Pasting a clipboard of 1 GiB at the start of the document of 1 GiB
  is a \<open>replace\<close> within the bounds of the text, on a well-formed buffer with an empty undo
  log; it has no defined result, and neither has the insertion of 40000 bytes into the
  empty document when \<open>malloc\<close> grants no more than that: \<open>replace\<close> calls \<open>move_gap\<close>, which
  copies the text to the \<open>NULL\<close> that \<open>malloc\<close> returns. The claim has \<open>text_length\<close> grow by
  the bytes inserted.
\<close>

theorem replace_fails_on_growth:
  "wf_buf big_document \<and> wf_log big_document [] 0
   \<and> valid_edits (text_length big_document) [(0, 0, clipboard big_clipboard, 1073741824, True)]
   \<and> replace_all big_document [(0, 0, clipboard big_clipboard, 1073741824, True)] = None
   \<and> paste_selection big_clipboard big_document = None
   \<and> wf_buf tight_document \<and> wf_log tight_document [] 0
   \<and> valid_edits (text_length tight_document) [(0, 0, NULL_buf, 40000, False)]
   \<and> replace_all tight_document [(0, 0, NULL_buf, 40000, False)] = None"
proof -
  have r: "replace big_document 0 0 (clipboard big_clipboard) 1073741824 True = None"
    using replace_None_iff[of big_document True "[]" 0 0 0 "clipboard big_clipboard" 1073741824]
      big_document_facts by simp
  have p: "paste_selection big_clipboard big_document = None"
    using r big_document_facts
    by (simp add: paste_selection_def erase_selection_none insert_text_def big_clipboard_def)
  have t: "replace tight_document 0 0 NULL_buf 40000 False = None"
    using replace_None_iff[of tight_document False "[]" 0 0 0 NULL_buf 40000]
      tight_document_facts by simp
  show ?thesis
    using r p t big_document_facts tight_document_facts by simp
qed




section \<open>Editing operations\<close>

text \<open>
  C3 (as the code has it). Typing \<open>a\<close>, \<open>b\<close>, \<open>c\<close> into an empty document and pressing
  backspace twice leaves the content \<open>a\<close> and \<open>col = 1\<close>; the undo log holds exactly two
  records, the coalesced insertion at position 0 with inserted payload \<open>abc\<close>, followed by
  the coalesced erase at position 1 whose erased payload is \<open>bc\<close>: each backspace puts the
  erased byte in front of the payload, which therefore is in document order. The
  undo/redo boundary is at the second record.
\<close>

theorem coalescing_scenario:
  "map_option content type_abc_backspace_twice = Some (ascii ''a'')
   \<and> map_option col type_abc_backspace_twice = Some 1
   \<and> map_option undo_log type_abc_backspace_twice
       = Some [(0, [], ascii ''abc''), (1, ascii ''bc'', [])]
   \<and> map_option undotail type_abc_backspace_twice = Some (Some 1)
   \<and> map_option undoptr type_abc_backspace_twice = Some (Some 1)"
  by code_simp

text \<open>The claim as stated, with erased payload \<open>cb\<close>, does not hold.\<close>

theorem coalescing_scenario_counterexample:
  "\<not> (map_option content type_abc_backspace_twice = Some (ascii ''a'')
      \<and> map_option col type_abc_backspace_twice = Some 1
      \<and> map_option undo_log type_abc_backspace_twice
          = Some [(0, [], ascii ''abc''), (1, ascii ''cb'', [])])"
  by code_simp

text \<open>
  C7. With no active selection, backspace with the cursor at absolute position 0 returns
  the editor unchanged, and delete with the cursor at the end of a well-formed buffer
  returns the editor unchanged: all of the state, hence content, cursor, undo log and
  dirty flag.
\<close>

theorem boundary_noops:
  assumes "\<not> fst (get_selection ed)"
  shows "(linepos ed + col ed = 0 \<longrightarrow> backspace e ed = Some ed)
       \<and> (wf_buf ed \<and> linepos ed + col ed = text_length ed \<longrightarrow> del e ed = Some ed)"
proof (intro conjI impI)
  assume "linepos ed + col ed = 0"
  then show "backspace e ed = Some ed"
    using assms by (simp add: backspace_def erase_selection_none)
next
  assume a: "wf_buf ed \<and> linepos ed + col ed = text_length ed"
  then have "get ed (linepos ed + col ed) = -1"
    by (auto simp: get_def text_ptr_def text_length_def wf_buf_def)
  then show "del e ed = Some ed"
    using assms by (simp add: del_def erase_selection_none)
qed

theorem boundary_noops_witness:
  "\<not> fst (get_selection empty_document)
   \<and> linepos empty_document + col empty_document = 0
   \<and> backspace term80x24 empty_document = Some empty_document
   \<and> wf_buf empty_document
   \<and> linepos empty_document + col empty_document = text_length empty_document
   \<and> del term80x24 empty_document = Some empty_document"
proof -
  have a: "\<not> fst (get_selection empty_document)"
    by (simp add: get_selection_def empty_document_def new_file_def zero_editor_def
        malloc_bytes_def granted_def to_size_t_def PTRDIFF_MAX_def MINEXTEND_def)
  have b: "linepos empty_document + col empty_document = 0"
    by (simp add: empty_document_def new_file_def zero_editor_def
        malloc_bytes_def granted_def to_size_t_def PTRDIFF_MAX_def MINEXTEND_def)
  have c: "wf_buf empty_document" "text_length empty_document = 0"
    by (simp_all add: wf_buf_def text_length_def empty_document_def new_file_def zero_editor_def
        malloc_bytes_def granted_def to_size_t_def PTRDIFF_MAX_def MINEXTEND_def)
  from boundary_noops [OF a, of term80x24] a b c show ?thesis by simp
qed

section \<open>Workspace, prompt and search\<close>

text \<open>
  C8. With the documents A, B and C opened in that order, C is current; next-document
  focuses A, a second next-document focuses B, and previous-document then focuses A.
\<close>

theorem ring_rotation:
  "abc_opened \<bind> current_name = Some (ascii ''C'')
   \<and> abc_opened \<bind> next_document \<bind> current_name = Some (ascii ''A'')
   \<and> abc_opened \<bind> next_document \<bind> next_document \<bind> current_name = Some (ascii ''B'')
   \<and> abc_opened \<bind> next_document \<bind> next_document \<bind> prev_document \<bind> current_name
       = Some (ascii ''A'')"
  by code_simp

lemma prompt_loop_esc:
  "KEY_ESC \<notin> set ks \<Longrightarrow> KEY_ENTER \<notin> set ks \<Longrightarrow>
   \<exists>buf' t'. prompt_loop buf len maxlen (ks @ KEY_ESC # ks') t = Some (False, buf', t')
            \<and> tty_keys t' = ks'"
  by (induction ks arbitrary: buf len t) auto

lemma prompt_esc:
  assumes "tty_keys t = ks @ KEY_ESC # ks'" "KEY_ESC \<notin> set ks" "KEY_ENTER \<notin> set ks"
  shows "\<exists>e' t'. prompt t e ed msg = Some (False, e', t') \<and> tty_keys t' = ks'"
proof -
  obtain buf len where g: "get_selected_text ed (linebuf e) (cols e - int (length msg) - 1) = (buf, len)"
    by (cases "get_selected_text ed (linebuf e) (cols e - int (length msg) - 1)")
  let ?t2 = "outstr (outstr (outstr (outstr (gotoxy t 0 (lines e)) STATUS_COLOR) msg) CLREOL)
               (map buf [0..len - 1])"
  have k: "tty_keys ?t2 = ks @ KEY_ESC # ks'"
    using assms(1) by (simp add: outstr_def gotoxy_def)
  from prompt_loop_esc[OF assms(2,3), of buf len "cols e - int (length msg) - 1" ks' ?t2]
  obtain buf' t' where "prompt_loop buf len (cols e - int (length msg) - 1) (ks @ KEY_ESC # ks') ?t2
      = Some (False, buf', t')" "tty_keys t' = ks'"
    by blast
  then show ?thesis
    using g k by (simp add: prompt_def Let_def)
qed

text \<open>
  C6 (as the code has it). When a prompt is dismissed with Esc (after any keys other than
  Enter), find, save-as and pipe-through-shell return the editor with only its \<open>refresh\<close>
  flag set, and open does the same to the editor it was called on and keeps the current
  editor: content, cursor, selection anchor and dirty flag are unchanged. Goto-line keeps
  content, cursor and dirty flag but clears the selection anchor, which it does before it
  prompts.
\<close>

theorem prompt_cancel:
  assumes "tty_keys t = ks @ KEY_ESC # ks'" and "KEY_ESC \<notin> set ks" and "KEY_ENTER \<notin> set ks"
  shows "(\<exists>t' e'. find_text t e ed False = Some (t', e', ed\<lparr>refresh := 1\<rparr>))
       \<and> (\<exists>t' e'. goto_line t e ed = Some (t', e', ed\<lparr>anchor := -1, refresh := 1\<rparr>))
       \<and> (newfile ed \<noteq> 0 \<longrightarrow> (\<exists>t' e'. save_editor w t e ed = Some (t', w, e', ed\<lparr>refresh := 1\<rparr>)))
       \<and> (\<exists>t' e'. pipe_command w t e ed = Some (t', e', ed\<lparr>refresh := 1\<rparr>))
       \<and> (deref (editors ws) a = Some ed \<longrightarrow>
            (\<exists>t' e'. open_editor w t ws a
               = Some (t', ws\<lparr>wenv := e', editors := heap_store (editors ws) a (ed\<lparr>refresh := 1\<rparr>)\<rparr>)))"
proof (intro conjI impI)
  from prompt_esc[OF assms, of e ed "ascii ''Find: ''"]
  show "\<exists>t' e'. find_text t e ed False = Some (t', e', ed\<lparr>refresh := 1\<rparr>)"
    by (auto simp: find_text_def)
next
  from prompt_esc[OF assms, of e "ed\<lparr>anchor := -1\<rparr>" "ascii ''Goto line: ''"]
  show "\<exists>t' e'. goto_line t e ed = Some (t', e', ed\<lparr>anchor := -1, refresh := 1\<rparr>)"
    by (auto simp: goto_line_def)
next
  assume "newfile ed \<noteq> 0"
  with prompt_esc[OF assms, of e ed "ascii ''Save as: ''"]
  show "\<exists>t' e'. save_editor w t e ed = Some (t', w, e', ed\<lparr>refresh := 1\<rparr>)"
    by (auto simp: save_editor_def)
next
  from prompt_esc[OF assms, of e ed "ascii ''Command: ''"]
  show "\<exists>t' e'. pipe_command w t e ed = Some (t', e', ed\<lparr>refresh := 1\<rparr>)"
    by (auto simp: pipe_command_def)
next
  assume "deref (editors ws) a = Some ed"
  with prompt_esc[OF assms, of "wenv ws" ed "ascii ''Open file: ''"]
  show "\<exists>t' e'. open_editor w t ws a
               = Some (t', ws\<lparr>wenv := e', editors := heap_store (editors ws) a (ed\<lparr>refresh := 1\<rparr>)\<rparr>)"
    by (auto simp: open_editor_def set_refresh_def)
qed

theorem prompt_cancel_witness:
  "tty_keys esc_tty = [104] @ KEY_ESC # []
   \<and> KEY_ESC \<notin> set [104] \<and> KEY_ENTER \<notin> set [104]
   \<and> (\<exists>t' e'. find_text esc_tty term80x24 selected_doc False
          = Some (t', e', selected_doc\<lparr>refresh := 1\<rparr>))
   \<and> (\<exists>t' e'. goto_line esc_tty term80x24 selected_doc
          = Some (t', e', selected_doc\<lparr>anchor := -1, refresh := 1\<rparr>))
   \<and> newfile selected_doc \<noteq> 0
   \<and> (\<exists>t' e'. save_editor abc_os esc_tty term80x24 selected_doc
          = Some (t', abc_os, e', selected_doc\<lparr>refresh := 1\<rparr>))
   \<and> (\<exists>t' e'. pipe_command abc_os esc_tty term80x24 selected_doc
          = Some (t', e', selected_doc\<lparr>refresh := 1\<rparr>))
   \<and> deref (editors (empty_workspace\<lparr>editors := [Some selected_doc]\<rparr>)) 0 = Some selected_doc
   \<and> (\<exists>t' e'. open_editor abc_os esc_tty (empty_workspace\<lparr>editors := [Some selected_doc]\<rparr>) 0
          = Some (t', (empty_workspace\<lparr>editors := [Some selected_doc]\<rparr>)
               \<lparr>wenv := e',
                editors := heap_store (editors (empty_workspace\<lparr>editors := [Some selected_doc]\<rparr>)) 0
                             (selected_doc\<lparr>refresh := 1\<rparr>)\<rparr>))"
proof -
  have k: "tty_keys esc_tty = [104] @ KEY_ESC # []"
    by (simp add: esc_tty_def)
  have n: "KEY_ESC \<notin> set [104]" "KEY_ENTER \<notin> set [104]"
    by (simp_all add: KEY_ESC_def KEY_ENTER_def)
  have f: "newfile selected_doc \<noteq> 0"
    by (simp add: selected_doc_def)
  have d: "deref (editors (empty_workspace\<lparr>editors := [Some selected_doc]\<rparr>)) 0 = Some selected_doc"
    by (simp add: deref_def)
  from prompt_cancel [OF k n, of term80x24 selected_doc abc_os
      "empty_workspace\<lparr>editors := [Some selected_doc]\<rparr>" 0] k n f d
  show ?thesis by blast
qed

text \<open>
  The claim as stated fails for goto-line: with a selection anchored at 2, dismissing the
  prompt leaves the anchor at \<open>-1\<close>.
\<close>

theorem prompt_cancel_counterexample:
  "anchor selected_doc = 2
   \<and> anchor_after (goto_line esc_tty term80x24 selected_doc) = Some (-1)
   \<and> anchor_after (goto_line esc_tty term80x24 selected_doc) \<noteq> Some (anchor selected_doc)"
  by code_simp

lemma find_scenario_first: "map_option cursor_state find_first = Some (0, 5, [])"
  by code_simp

lemma find_scenario_second: "map_option cursor_state (find_again find_first) = Some (6, 11, [])"
  by code_simp

text \<open>
  C5. Where the code departs from the claim: in the document \<open>hello hello\<close> with no newline
  at its end and the cursor at 0, find-next for \<open>hello\<close> hits at 0 and sets the anchor to 0,
  but the cursor ends at 11, the end of the text, not at the end of the match, 5:
  \<open>moveto\<close> goes to the end of the text whenever it moves forward on a line that no
  newline ends.
\<close>

theorem find_hit_on_unterminated_line:
  "map_option cursor_state
     (find_text \<lparr>tty_keys = [], tty_chars = [], tty_out = []\<rparr>
        (term80x24\<lparr>search := Some (ascii ''hello'')\<rparr>) hello_no_newline True)
   = Some (0, 11, [])"
  by code_simp


end
